(* ===== verification/Gov_Prelude.thy ===== *)
theory Gov_Prelude
  imports Main "HOL-Library.Sublist"
begin

text \<open>
  The shared ground of the development: exceptions as values, the state-passing programs every
  asynchronous method of the service is modelled as, \<open>Promise.all\<close>, and the list and string
  operations of the JavaScript standard library that the sources call. Strings are lists of
  bytes, so a character outside ASCII is its UTF-8 sequence.
\<close>

named_theorems prog_simps \<open>unfolding rules for programs\<close>

named_theorems model_defs \<open>definitions of small operations that proofs unfold\<close>


section \<open>Exceptions and programs\<close>

text \<open>
  An error raised by code outside the repository (an HTTP client, the SDK, Redis) is carried with
  what the service inspects of it: the message, an HTTP status, and Axios's timeout marker.
\<close>

record remote_error =
  message :: string
  statusCode :: "int option"
  isAxiosError :: bool
  code :: string

datatype exn =
    BadRequestException string
  | UnauthorizedException
  | HttpException string int
  | PlainError string
  | TypeError
  | RemoteError remote_error

fun exn_message :: "exn \<Rightarrow> string" where
  "exn_message (BadRequestException m) = m"
| "exn_message UnauthorizedException = ''Unauthorized''"
| "exn_message (HttpException m st) = m"
| "exn_message (PlainError m) = m"
| "exn_message TypeError = ''Cannot read properties of undefined''"
| "exn_message (RemoteError r) = message r"

text \<open>A program reads and writes a state and either raises an exception or returns a value.\<close>

type_synonym ('s, 'a) prog = "'s \<Rightarrow> (exn + 'a) \<times> 's"

definition mret :: "'a \<Rightarrow> ('s, 'a) prog" where
  "mret a s = (Inr a, s)"

definition mthrow :: "exn \<Rightarrow> ('s, 'a) prog" where
  "mthrow e s = (Inl e, s)"

definition mbind :: "('s, 'a) prog \<Rightarrow> ('a \<Rightarrow> ('s, 'b) prog) \<Rightarrow> ('s, 'b) prog" where
  "mbind m f s = (case m s of (Inl e, s') \<Rightarrow> (Inl e, s') | (Inr a, s') \<Rightarrow> f a s')"

definition mthen :: "('s, 'a) prog \<Rightarrow> ('s, 'b) prog \<Rightarrow> ('s, 'b) prog" where
  "mthen m k = mbind m (\<lambda>_. k)"

text \<open>\<open>try \<dots> catch\<close>, and the settled outcome of a promise that nobody awaited yet.\<close>

definition mtry :: "('s, 'a) prog \<Rightarrow> (exn \<Rightarrow> ('s, 'a) prog) \<Rightarrow> ('s, 'a) prog" where
  "mtry m h s = (case m s of (Inl e, s') \<Rightarrow> h e s' | (Inr a, s') \<Rightarrow> (Inr a, s'))"

definition mattempt :: "('s, 'a) prog \<Rightarrow> ('s, exn + 'a) prog" where
  "mattempt m s = (case m s of (r, s') \<Rightarrow> (Inr r, s'))"

definition mget :: "('s \<Rightarrow> 'a) \<Rightarrow> ('s, 'a) prog" where
  "mget f s = (Inr (f s), s)"

definition mmodify :: "('s \<Rightarrow> 's) \<Rightarrow> ('s, unit) prog" where
  "mmodify f s = (Inr (), f s)"

definition mlift :: "exn + 'a \<Rightarrow> ('s, 'a) prog" where
  "mlift r s = (r, s)"

definition mwhen :: "bool \<Rightarrow> ('s, unit) prog \<Rightarrow> ('s, unit) prog" where
  "mwhen b m = (if b then m else mret ())"

text \<open>A loop whose body awaits: the first exception ends it.\<close>

fun mmap :: "('a \<Rightarrow> ('s, 'b) prog) \<Rightarrow> 'a list \<Rightarrow> ('s, 'b list) prog" where
  "mmap f [] = mret []"
| "mmap f (x # xs) = mbind (f x) (\<lambda>y. mbind (mmap f xs) (\<lambda>ys. mret (y # ys)))"

fun mfold :: "('a \<Rightarrow> 'b \<Rightarrow> ('s, 'a) prog) \<Rightarrow> 'a \<Rightarrow> 'b list \<Rightarrow> ('s, 'a) prog" where
  "mfold f a [] = mret a"
| "mfold f a (x # xs) = mbind (f a x) (\<lambda>a'. mfold f a' xs)"

text \<open>
  \<open>Promise.all\<close>: every promise runs, whatever the others do, and the whole is rejected when one
  is. The model runs them one after the other in list order and takes the first rejection of that
  order.
\<close>

fun settle :: "(exn + 'a) list \<Rightarrow> exn + 'a list" where
  "settle [] = Inr []"
| "settle (Inl e # rs) = Inl e"
| "settle (Inr a # rs) = (case settle rs of Inl e \<Rightarrow> Inl e | Inr as \<Rightarrow> Inr (a # as))"

definition promise_all :: "('s, 'a) prog list \<Rightarrow> ('s, 'a list) prog" where
  "promise_all ms = mbind (mmap mattempt ms) (\<lambda>rs. mlift (settle rs))"

definition promise_map :: "('a \<Rightarrow> ('s, 'b) prog) \<Rightarrow> 'a list \<Rightarrow> ('s, 'b list) prog" where
  "promise_map f xs = promise_all (map f xs)"

lemma mret_apply [simp, prog_simps]: "mret a s = (Inr a, s)"
  by (simp add: mret_def)

lemma mthrow_apply [simp, prog_simps]: "mthrow e s = (Inl e, s)"
  by (simp add: mthrow_def)

lemma mget_apply [simp, prog_simps]: "mget f s = (Inr (f s), s)"
  by (simp add: mget_def)

lemma mmodify_apply [simp, prog_simps]: "mmodify f s = (Inr (), f s)"
  by (simp add: mmodify_def)

lemma mlift_apply [simp, prog_simps]: "mlift r s = (r, s)"
  by (simp add: mlift_def)

lemma mbind_Inr_eq [simp]: "m s = (Inr a, s') \<Longrightarrow> mbind m f s = f a s'"
  by (simp add: mbind_def)

lemma mbind_Inl_eq [simp]: "m s = (Inl e, s') \<Longrightarrow> mbind m f s = (Inl e, s')"
  by (simp add: mbind_def)

lemma mbind_mret [simp]: "mbind (mret a) f = f a"
  by (rule ext) (simp add: mbind_def)

lemma mbind_mthrow [simp]: "mbind (mthrow e) f = mthrow e"
  by (rule ext) (simp add: mbind_def)

lemma mbind_mget [simp]: "mbind (mget g) f s = f (g s) s"
  by (simp add: mbind_def)

lemma mbind_mmodify [simp]: "mbind (mmodify g) f s = f () (g s)"
  by (simp add: mbind_def)

lemma mbind_mlift_Inr [simp]: "mbind (mlift (Inr a)) f = f a"
  by (rule ext) (simp add: mbind_def)

lemma mbind_mlift_Inl [simp]: "mbind (mlift (Inl e)) f = mthrow e"
  by (rule ext) (simp add: mbind_def)

lemma mbind_ret_right [simp]: "mbind m mret = m"
  by (rule ext) (auto simp: mbind_def split: prod.splits sum.splits)

lemma mbind_assoc: "mbind (mbind m f) g = mbind m (\<lambda>a. mbind (f a) g)"
  by (rule ext) (auto simp: mbind_def split: prod.splits sum.splits)

lemma mbind_InrE:
  assumes "mbind m f s = (Inr b, s')"
  obtains a s1 where "m s = (Inr a, s1)" and "f a s1 = (Inr b, s')"
  using assms by (auto simp: mbind_def split: prod.splits sum.splits)

lemma mbind_Inr_iff:
  "mbind m f s = (Inr b, s') \<longleftrightarrow> (\<exists>a s1. m s = (Inr a, s1) \<and> f a s1 = (Inr b, s'))"
  by (auto simp: mbind_def split: prod.splits sum.splits)

lemma mtry_Inr [simp]: "m s = (Inr a, s') \<Longrightarrow> mtry m h s = (Inr a, s')"
  by (simp add: mtry_def)

lemma mtry_Inl [simp]: "m s = (Inl e, s') \<Longrightarrow> mtry m h s = h e s'"
  by (simp add: mtry_def)

lemma mattempt_eq [simp]: "m s = (r, s') \<Longrightarrow> mattempt m s = (Inr r, s')"
  by (simp add: mattempt_def)

lemma mthen_apply [prog_simps]:
  "mthen m k s = (case m s of (Inl e, s') \<Rightarrow> (Inl e, s') | (Inr _, s') \<Rightarrow> k s')"
  by (simp add: mthen_def mbind_def)

lemma mthen_Inr_eq [simp]: "m s = (Inr a, s') \<Longrightarrow> mthen m k s = k s'"
  by (simp add: mthen_def)

lemma mthen_Inl_eq [simp]: "m s = (Inl e, s') \<Longrightarrow> mthen m k s = (Inl e, s')"
  by (simp add: mthen_def)

lemma mwhen_True [simp]: "mwhen True m = m"
  by (simp add: mwhen_def)

lemma mwhen_False [simp]: "mwhen False m = mret ()"
  by (simp add: mwhen_def)

text \<open>Loops over a body that always returns and leaves the state alone.\<close>

lemma mmap_pure:
  "(\<And>x. x \<in> set xs \<Longrightarrow> f x s = (Inr (g x), s)) \<Longrightarrow> mmap f xs s = (Inr (map g xs), s)"
  by (induction xs) simp_all

lemma settle_Inr [simp]: "settle (map (\<lambda>x. Inr (g x)) xs) = Inr (map g xs)"
  by (induction xs) simp_all

lemma settle_Inr_iff: "settle rs = Inr ys \<longleftrightarrow> rs = map Inr ys"
  by (induction rs arbitrary: ys rule: settle.induct) (auto split: sum.splits)

lemma promise_all_pure:
  assumes "\<And>x. x \<in> set xs \<Longrightarrow> f x s = (Inr (g x), s)"
  shows "promise_map f xs s = (Inr (map g xs), s)"
proof -
  have "mmap mattempt (map f xs) s = (Inr (map (\<lambda>x. Inr (g x)) xs), s)"
    using assms by (induction xs) simp_all
  then show ?thesis
    by (simp add: promise_map_def promise_all_def)
qed

lemma mmap_length: "mmap f xs s = (Inr ys, s') \<Longrightarrow> length ys = length xs"
  by (induction xs arbitrary: s ys) (auto simp: mbind_Inr_iff)

lemma mmap_append:
  "mmap f (xs @ ys) s =
     mbind (mmap f xs) (\<lambda>as. mbind (mmap f ys) (\<lambda>bs. mret (as @ bs))) s"
  by (induction xs arbitrary: s) (auto simp: mbind_def split: prod.splits sum.splits)

text \<open>A loop that returns has run every body, and each result is one of its body.\<close>

lemma mmap_all2:
  "mmap f xs s = (Inr ys, s') \<Longrightarrow> list_all2 (\<lambda>x y. \<exists>t t'. f x t = (Inr y, t')) xs ys"
  by (induction xs arbitrary: s ys) (auto simp: mbind_Inr_iff)

lemma mattempt_all2:
  "mmap mattempt ms s = (Inr rs, s') \<Longrightarrow> list_all2 (\<lambda>m r. \<exists>t t'. m t = (r, t')) ms rs"
proof (induction ms arbitrary: s rs)
  case Nil
  then show ?case by simp
next
  case (Cons m ms)
  obtain r s1 where m: "m s = (r, s1)" by (cases "m s")
  then obtain rs' where "mmap mattempt ms s1 = (Inr rs', s')" "rs = r # rs'"
    using Cons.prems by (auto simp: mbind_Inr_iff)
  then show ?case using Cons.IH m by auto
qed

lemma promise_map_all2:
  assumes "promise_map f xs s = (Inr ys, s')"
  shows "list_all2 (\<lambda>x y. \<exists>t t'. f x t = (Inr y, t')) xs ys"
proof -
  have "mmap mattempt (map f xs) s = (Inr (map Inr ys), s')"
    using assms by (auto simp: promise_map_def promise_all_def settle_Inr_iff elim!: mbind_InrE)
  from mattempt_all2 [OF this] show ?thesis by (simp add: list_all2_map1 list_all2_map2)
qed

text \<open>A state invariant that every body keeps is kept by the loops built from it.\<close>

definition keeps :: "('s \<Rightarrow> bool) \<Rightarrow> ('s, 'a) prog \<Rightarrow> bool" where
  "keeps I m \<longleftrightarrow> (\<forall>s. I s \<longrightarrow> I (snd (m s)))"

lemma keeps_mret [intro, simp]: "keeps I (mret a)"
  by (simp add: keeps_def)

lemma keeps_mthrow [intro, simp]: "keeps I (mthrow e)"
  by (simp add: keeps_def)

lemma keeps_mget [intro, simp]: "keeps I (mget f)"
  by (simp add: keeps_def)

lemma keeps_mlift [intro, simp]: "keeps I (mlift r)"
  by (simp add: keeps_def)

lemma keeps_mbind [intro]:
  assumes "keeps I m" and "\<And>a. keeps I (f a)"
  shows "keeps I (mbind m f)"
  unfolding keeps_def
proof (intro allI impI)
  fix s assume "I s"
  with assms(1) have 1: "I (snd (m s))" by (simp add: keeps_def)
  obtain r s1 where m: "m s = (r, s1)" by (cases "m s")
  show "I (snd (mbind m f s))"
  proof (cases r)
    case (Inl e)
    with m 1 show ?thesis by simp
  next
    case (Inr a)
    with m 1 assms(2) [of a] show ?thesis by (simp add: keeps_def)
  qed
qed

lemma keeps_mthen [intro]: "keeps I m \<Longrightarrow> keeps I k \<Longrightarrow> keeps I (mthen m k)"
  by (auto simp: mthen_def)

lemma keeps_mtry [intro]:
  assumes "keeps I m" and "\<And>e. keeps I (h e)"
  shows "keeps I (mtry m h)"
  using assms by (fastforce simp: keeps_def mtry_def split: prod.splits sum.splits)

lemma keeps_mattempt [intro]: "keeps I m \<Longrightarrow> keeps I (mattempt m)"
  by (fastforce simp: keeps_def mattempt_def split: prod.splits)

lemma keeps_mmap [intro]: "(\<And>x. x \<in> set xs \<Longrightarrow> keeps I (f x)) \<Longrightarrow> keeps I (mmap f xs)"
  by (induction xs) (auto intro!: keeps_mbind)

lemma keeps_mfold [intro]: "(\<And>a x. x \<in> set xs \<Longrightarrow> keeps I (f a x)) \<Longrightarrow> keeps I (mfold f a xs)"
  by (induction xs arbitrary: a) (auto intro!: keeps_mbind)

lemma keeps_promise_all [intro]:
  "(\<And>m. m \<in> set ms \<Longrightarrow> keeps I m) \<Longrightarrow> keeps I (promise_all ms)"
  unfolding promise_all_def by (intro keeps_mbind keeps_mmap keeps_mattempt keeps_mlift) auto

lemma keeps_promise_map [intro]:
  "(\<And>x. x \<in> set xs \<Longrightarrow> keeps I (f x)) \<Longrightarrow> keeps I (promise_map f xs)"
  unfolding promise_map_def by (intro keeps_promise_all) auto

end
