(* ===== verification/Gov_Strings.thy ===== *)
theory Gov_Strings
  imports Gov_Prelude
begin

text \<open>
  The operations of JavaScript's \<open>String\<close>, \<open>Array\<close>, \<open>Set\<close> and \<open>Buffer\<close> that the sources call, and
  numerals in a base: \<open>slice\<close> with negative indices, \<open>split\<close>, \<open>join\<close>, \<open>includes\<close>, \<open>trim\<close>,
  \<open>replace\<close>, hexadecimal and base64 text. The round trips between printing and parsing that the
  other theories need are proved here once.
\<close>

section \<open>Arrays\<close>

text \<open>\<open>xs.slice(a, b)\<close>: a negative index counts from the end, both are clamped to the array.\<close>

definition slice_index :: "nat \<Rightarrow> int \<Rightarrow> nat" where
  "slice_index n i = (if i < 0 then nat (max 0 (int n + i)) else min n (nat i))"

definition js_slice :: "int \<Rightarrow> int \<Rightarrow> 'a list \<Rightarrow> 'a list" where
  "js_slice a b xs =
     (let i = slice_index (length xs) a; j = slice_index (length xs) b
      in take (j - i) (drop i xs))"

lemma js_slice_nonneg:
  "0 \<le> a \<Longrightarrow> a \<le> b \<Longrightarrow> js_slice a b xs = take (nat b - nat a) (drop (nat a) xs)"
  by (cases "nat a \<le> length xs")
     (auto simp: js_slice_def slice_index_def min_def Let_def)

lemma js_slice_all [simp]: "js_slice 0 (int (length xs)) xs = xs"
  by (simp add: js_slice_def slice_index_def)

lemma slice_index_minus_one [simp]: "slice_index n (- 1) = n - 1"
  by (auto simp: slice_index_def max_def)

lemma slice_index_0 [simp]: "slice_index n 0 = 0"
  by (simp add: slice_index_def)

lemma js_slice_but_last [simp]: "js_slice 0 (- 1) xs = butlast xs"
  by (simp add: js_slice_def butlast_conv_take Let_def)

text \<open>\<open>[...new Set(xs)]\<close> keeps the first occurrence of every element.\<close>

definition js_set :: "'a list \<Rightarrow> 'a list" where
  "js_set xs = rev (remdups (rev xs))"

lemma set_js_set [simp]: "set (js_set xs) = set xs"
  by (simp add: js_set_def)

lemma distinct_js_set [simp]: "distinct (js_set xs)"
  by (simp add: js_set_def)

text \<open>\<open>xs.indexOf(x)\<close>, as an option.\<close>

fun index_of :: "'a \<Rightarrow> 'a list \<Rightarrow> nat option" where
  "index_of x [] = None"
| "index_of x (y # ys) = (if x = y then Some 0 else map_option Suc (index_of x ys))"

fun join :: "string \<Rightarrow> string list \<Rightarrow> string" where
  "join sep [] = []"
| "join sep [s] = s"
| "join sep (s # t # ss) = s @ sep @ join sep (t # ss)"

section \<open>Strings\<close>

definition str_includes :: "string \<Rightarrow> string \<Rightarrow> bool" where
  "str_includes s part = sublist part s"

fun split_char_aux :: "char \<Rightarrow> string \<Rightarrow> string \<Rightarrow> string list" where
  "split_char_aux c acc [] = [rev acc]"
| "split_char_aux c acc (x # xs) =
     (if x = c then rev acc # split_char_aux c [] xs else split_char_aux c (x # acc) xs)"

definition split_char :: "char \<Rightarrow> string \<Rightarrow> string list" where
  "split_char c s = split_char_aux c [] s"

text \<open>\<open>s.split(sep)\<close> for a non-empty separator.\<close>

function split_str_aux :: "string \<Rightarrow> string \<Rightarrow> string \<Rightarrow> string list" where
  "split_str_aux sep acc [] = [rev acc]"
| "split_str_aux sep acc (x # xs) =
     (if sep \<noteq> [] \<and> prefix sep (x # xs)
      then rev acc # split_str_aux sep [] (drop (length sep - 1) xs)
      else split_str_aux sep (x # acc) xs)"
  by pat_completeness auto
termination by (relation "measure (\<lambda>(_, _, s). length s)") auto

definition split_str :: "string \<Rightarrow> string \<Rightarrow> string list" where
  "split_str sep s = split_str_aux sep [] s"

lemma split_char_aux_append:
  "c \<notin> set a \<Longrightarrow>
   split_char_aux c acc (a @ s) =
     (case s of [] \<Rightarrow> [rev acc @ a] | _ \<Rightarrow> split_char_aux c (rev a @ acc) s)"
  by (induction a arbitrary: acc) (auto split: list.splits)

lemma split_char_single: "c \<notin> set s \<Longrightarrow> split_char c s = [s]"
  using split_char_aux_append [of c s "[]" "[]"] by (simp add: split_char_def)

lemma split_char_cons: "c \<notin> set a \<Longrightarrow> split_char c (a @ c # s) = a # split_char c s"
  using split_char_aux_append [of c a "[]" "c # s"] by (simp add: split_char_def)

lemma split_char_join:
  "ss \<noteq> [] \<Longrightarrow> \<forall>s\<in>set ss. c \<notin> set s \<Longrightarrow> split_char c (join [c] ss) = ss"
  by (induction "[c]" ss rule: join.induct) (simp_all add: split_char_single split_char_cons)

lemma join_char_inj:
  assumes "join [c] ss = join [c] ts" "ss \<noteq> []" "ts \<noteq> []"
    and "\<forall>s\<in>set ss. c \<notin> set s" "\<forall>s\<in>set ts. c \<notin> set s"
  shows "ss = ts"
  using assms by (metis split_char_join)

text \<open>The first separator of a text splits it in one way.\<close>

lemma append_char_unique:
  "a @ c # s = b @ c # t \<Longrightarrow> c \<notin> set a \<Longrightarrow> c \<notin> set b \<Longrightarrow> a = b \<and> s = t"
proof (induction a arbitrary: b)
  case Nil
  then show ?case by (cases b) auto
next
  case (Cons x a)
  then show ?case by (cases b) auto
qed

lemma split_char_aux_not_empty [simp]: "split_char_aux c acc s \<noteq> []"
  by (induction c acc s rule: split_char_aux.induct) auto

lemma split_char_not_empty [simp]: "split_char c s \<noteq> []"
  by (simp add: split_char_def)

text \<open>\<open>s.trim()\<close> on ASCII white space.\<close>

definition is_space :: "char \<Rightarrow> bool" where
  "is_space c = (let n = of_char c :: nat in 9 \<le> n \<and> n \<le> 13 \<or> n = 32)"

definition trim :: "string \<Rightarrow> string" where
  "trim s = rev (dropWhile is_space (rev (dropWhile is_space s)))"

text \<open>\<open>s.replace(pat, by)\<close> with a string pattern replaces the first occurrence.\<close>

fun replace_first :: "string \<Rightarrow> string \<Rightarrow> string \<Rightarrow> string" where
  "replace_first pat by [] = (if pat = [] then by else [])"
| "replace_first pat by (c # cs) =
     (if prefix pat (c # cs) then by @ drop (length pat) (c # cs)
      else c # replace_first pat by cs)"

definition lower_char :: "char \<Rightarrow> char" where
  "lower_char c = (let n = of_char c :: nat in if 65 \<le> n \<and> n \<le> 90 then char_of (n + 32) else c)"

definition toLowerCase :: "string \<Rightarrow> string" where
  "toLowerCase s = map lower_char s"


section \<open>Numerals\<close>

definition digit_char :: "nat \<Rightarrow> char" where
  "digit_char d = (if d < 10 then char_of (48 + d) else char_of (87 + d))"

definition char_digit :: "char \<Rightarrow> nat option" where
  "char_digit c =
     (let n = of_char c :: nat in
      if 48 \<le> n \<and> n \<le> 57 then Some (n - 48)
      else if 97 \<le> n \<and> n \<le> 122 then Some (n - 87)
      else if 65 \<le> n \<and> n \<le> 90 then Some (n - 55)
      else None)"

definition is_digit :: "nat \<Rightarrow> char \<Rightarrow> bool" where
  "is_digit b c = (case char_digit c of None \<Rightarrow> False | Some d \<Rightarrow> d < b)"

text \<open>Digits of a natural number, most significant first; the base is at least 2.\<close>

function show_nat :: "nat \<Rightarrow> nat \<Rightarrow> string" where
  "show_nat b n =
     (if b < 2 \<or> n < b then [digit_char n] else show_nat b (n div b) @ [digit_char (n mod b)])"
  by pat_completeness auto
termination by (relation "measure snd") auto

declare show_nat.simps [simp del]

definition read_digits :: "nat \<Rightarrow> string \<Rightarrow> nat" where
  "read_digits b s = foldl (\<lambda>acc c. acc * b + (case char_digit c of Some d \<Rightarrow> d | None \<Rightarrow> 0)) 0 s"

definition parse_nat :: "nat \<Rightarrow> string \<Rightarrow> nat option" where
  "parse_nat b s = (if s \<noteq> [] \<and> list_all (is_digit b) s then Some (read_digits b s) else None)"

definition show_int :: "int \<Rightarrow> string" where
  "show_int i = (if i < 0 then CHR ''-'' # show_nat 10 (nat (- i)) else show_nat 10 (nat i))"

lemma char_digit_digit_char: "d < 36 \<Longrightarrow> char_digit (digit_char d) = Some d"
  by (auto simp: char_digit_def digit_char_def Let_def)

lemma is_digit_digit_char: "d < b \<Longrightarrow> b \<le> 36 \<Longrightarrow> is_digit b (digit_char d)"
  by (simp add: is_digit_def char_digit_digit_char)

lemma show_nat_digits: "2 \<le> b \<Longrightarrow> b \<le> 36 \<Longrightarrow> list_all (is_digit b) (show_nat b n)"
  by (induction b n rule: show_nat.induct)
     (subst show_nat.simps, auto simp: is_digit_digit_char)

lemma show_nat_not_empty [simp]: "show_nat b n \<noteq> []"
  by (subst show_nat.simps) simp

lemma read_digits_append:
  "read_digits b (s @ [c]) = read_digits b s * b + (case char_digit c of Some d \<Rightarrow> d | None \<Rightarrow> 0)"
  by (simp add: read_digits_def)

lemma read_digits_show_nat: "2 \<le> b \<Longrightarrow> b \<le> 36 \<Longrightarrow> read_digits b (show_nat b n) = n"
proof (induction b n rule: show_nat.induct)
  case (1 b n)
  show ?case
  proof (cases "n < b")
    case True
    with 1 show ?thesis
      by (subst show_nat.simps) (simp add: read_digits_def char_digit_digit_char)
  next
    case False
    have "n mod b < 36" using 1(2,3) mod_less_divisor [of b n] by linarith
    with False 1 show ?thesis
      by (subst show_nat.simps)
         (simp add: read_digits_append char_digit_digit_char div_mult_mod_eq)
  qed
qed

lemma parse_show_nat [simp]: "2 \<le> b \<Longrightarrow> b \<le> 36 \<Longrightarrow> parse_nat b (show_nat b n) = Some n"
  by (simp add: parse_nat_def show_nat_digits read_digits_show_nat)

lemma show_nat_inj: "2 \<le> b \<Longrightarrow> b \<le> 36 \<Longrightarrow> show_nat b m = show_nat b n \<Longrightarrow> m = n"
  by (metis parse_show_nat option.inject)

lemma is_digit_not: "\<not> is_digit 10 (CHR ''-'')" "\<not> is_digit 10 (CHR ''.'')" "\<not> is_digit 10 (CHR ''e'')"
  "\<not> is_digit 10 (CHR '' '')" "\<not> is_digit 10 (CHR ''+'')"
  by (simp_all add: is_digit_def char_digit_def Let_def)

lemma show_nat_no_char: "\<not> is_digit 10 c \<Longrightarrow> c \<notin> set (show_nat 10 n)"
  using show_nat_digits [of 10 n] by (auto simp: list_all_iff)

lemma show_int_no_dot: "CHR ''.'' \<notin> set (show_int i)"
  by (auto simp: show_int_def show_nat_no_char is_digit_not)

lemma show_nat_hd_digit: "is_digit 10 (hd (show_nat 10 n))"
  using show_nat_digits [of 10 n] by (cases "show_nat 10 n") auto

lemma show_int_inj: "show_int i = show_int j \<Longrightarrow> i = j"
proof -
  have neg: "show_nat 10 n \<noteq> CHR ''-'' # s" for n s
    using show_nat_hd_digit [of n] is_digit_not(1) by auto
  assume "show_int i = show_int j"
  then show ?thesis
    using neg neg [symmetric]
    by (auto simp: show_int_def dest!: show_nat_inj [of 10, simplified] split: if_splits)
qed

text \<open>\<open>parseInt(s, 16)\<close> on a string of hexadecimal digits, and \<open>parseInt(s, 10)\<close> with a sign.\<close>

definition parse_int :: "string \<Rightarrow> int option" where
  "parse_int s =
     (case s of
        [] \<Rightarrow> None
      | c # cs \<Rightarrow> if c = CHR ''-'' then map_option (\<lambda>n. - int n) (parse_nat 10 cs)
                 else map_option int (parse_nat 10 s))"

lemma parse_show_int [simp]: "parse_int (show_int i) = Some i"
proof (cases "i < 0")
  case True
  then show ?thesis by (simp add: show_int_def parse_int_def)
next
  case False
  obtain c cs where cs: "show_nat 10 (nat i) = c # cs"
    by (cases "show_nat 10 (nat i)") auto
  then have "c \<noteq> CHR ''-''" using show_nat_hd_digit [of "nat i"] is_digit_not(1) by auto
  then show ?thesis
    using False parse_show_nat [of 10 "nat i"] by (simp add: show_int_def parse_int_def cs)
qed

section \<open>Hexadecimal and base64 text\<close>

definition hex_byte :: "char \<Rightarrow> string" where
  "hex_byte c = (let n = of_char c :: nat in [digit_char (n div 16), digit_char (n mod 16)])"

definition to_hex :: "string \<Rightarrow> string" where
  "to_hex s = concat (map hex_byte s)"

text \<open>\<open>Buffer.from(s, 'hex')\<close> stops at the first pair that is not hexadecimal.\<close>

fun from_hex :: "string \<Rightarrow> string" where
  "from_hex (a # b # s) =
     (if is_digit 16 a \<and> is_digit 16 b then char_of (read_digits 16 [a, b]) # from_hex s else [])"
| "from_hex s = []"

lemma from_to_hex [simp]: "from_hex (to_hex s) = s"
proof (induction s)
  case Nil
  then show ?case by (simp add: to_hex_def)
next
  case (Cons c s)
  have d: "(of_char c :: nat) div 16 < 16"
    using nat_of_char_less_256 [of c] by (simp add: less_mult_imp_div_less)
  show ?case
    using Cons d
    by (simp add: to_hex_def hex_byte_def Let_def is_digit_digit_char read_digits_def
        char_digit_digit_char)
qed

definition b64_value :: "char \<Rightarrow> nat option" where
  "b64_value c =
     (let n = of_char c :: nat in
      if 65 \<le> n \<and> n \<le> 90 then Some (n - 65)
      else if 97 \<le> n \<and> n \<le> 122 then Some (n - 71)
      else if 48 \<le> n \<and> n \<le> 57 then Some (n + 4)
      else if n = 43 \<or> n = 45 then Some 62
      else if n = 47 \<or> n = 95 then Some 63
      else None)"

text \<open>
  \<open>Buffer.from(s, 'base64')\<close>: characters outside the alphabet are skipped, padding ends the text.
\<close>

fun b64_bytes :: "nat list \<Rightarrow> string" where
  "b64_bytes (a # b # c # d # r) =
     char_of (a * 4 + b div 16) # char_of ((b mod 16) * 16 + c div 4) #
     char_of ((c mod 4) * 64 + d) # b64_bytes r"
| "b64_bytes [a, b, c] = [char_of (a * 4 + b div 16), char_of ((b mod 16) * 16 + c div 4)]"
| "b64_bytes [a, b] = [char_of (a * 4 + b div 16)]"
| "b64_bytes r = []"

definition from_base64 :: "string \<Rightarrow> string" where
  "from_base64 s = b64_bytes (List.map_filter b64_value (takeWhile (\<lambda>c. c \<noteq> CHR ''='') s))"


text \<open>\<open>Buffer.toString('base64')\<close>: groups of six bits, and padding to a multiple of four.\<close>

definition b64_char :: "nat \<Rightarrow> char" where
  "b64_char n =
     (if n < 26 then char_of (n + 65) else if n < 52 then char_of (n + 71)
      else if n < 62 then char_of (n - 4) else if n = 62 then CHR ''+'' else CHR ''/'')"

fun sextets :: "string \<Rightarrow> nat list" where
  "sextets (a # b # c # r) =
     (let x = of_char a :: nat; y = of_char b; z = of_char c
      in [x div 4, (x mod 4) * 16 + y div 16, (y mod 16) * 4 + z div 64, z mod 64] @ sextets r)"
| "sextets [a, b] =
     (let x = of_char a :: nat; y = of_char b
      in [x div 4, (x mod 4) * 16 + y div 16, (y mod 16) * 4])"
| "sextets [a] = (let x = of_char a :: nat in [x div 4, (x mod 4) * 16])"
| "sextets [] = []"

definition to_base64 :: "string \<Rightarrow> string" where
  "to_base64 s =
     map b64_char (sextets s) @ replicate (case length s mod 3 of 0 \<Rightarrow> 0 | Suc 0 \<Rightarrow> 2 | _ \<Rightarrow> 1) (CHR ''='')"

lemma b64_value_char: "n < 64 \<Longrightarrow> b64_value (b64_char n) = Some n"
  by (auto simp: b64_value_def b64_char_def Let_def)

lemma b64_char_not_pad: "n < 64 \<Longrightarrow> b64_char n \<noteq> CHR ''=''"
  using b64_value_char [of n] by (auto simp: b64_value_def Let_def)

lemma of_char_le [simp]: "(of_char c :: nat) < 256"
  by (rule nat_of_char_less_256)

lemma sextet_bounds:
  fixes x y z :: nat
  assumes "x < 256" "y < 256" "z < 256"
  shows "x div 4 < 64" "(x mod 4) * 16 + y div 16 < 64" "(y mod 16) * 4 + z div 64 < 64"
    "(x mod 4) * 16 < 64" "(y mod 16) * 4 < 64" "z mod 64 < 64"
proof -
  have "x mod 4 < 4" "y mod 16 < 16" "y div 16 < 16" "z div 64 < 4" "x div 4 < 64"
    using assms by (simp_all add: less_mult_imp_div_less)
  then show "x div 4 < 64" "(x mod 4) * 16 + y div 16 < 64" "(y mod 16) * 4 + z div 64 < 64"
    "(x mod 4) * 16 < 64" "(y mod 16) * 4 < 64" "z mod 64 < 64"
    by linarith+
qed

lemmas byte_bounds = sextet_bounds [OF of_char_le of_char_le of_char_le]

lemma byte_small [simp]: "(of_char c :: nat) div 16 < 16" "(of_char c :: nat) div 64 < 4"
  using of_char_le [of c] by (simp_all add: less_mult_imp_div_less del: of_char_le)

lemma sextets_less: "n \<in> set (sextets s) \<Longrightarrow> n < 64"
  by (induction s rule: sextets.induct) (auto simp: Let_def byte_bounds)

lemma bytes_of_sextets: "b64_bytes (sextets s) = s"
  by (induction s rule: sextets.induct) (simp_all add: Let_def)

lemma from_to_base64 [simp]: "from_base64 (to_base64 s) = s"
proof -
  have "takeWhile (\<lambda>c. c \<noteq> CHR ''='') (map b64_char xs @ replicate k (CHR ''='')) = map b64_char xs"
    if "\<forall>n\<in>set xs. n < 64" for xs k
    using that by (induction xs) (cases k, auto simp: b64_char_not_pad)
  moreover have "List.map_filter b64_value (map b64_char xs) = xs" if "\<forall>n\<in>set xs. n < 64" for xs
    using that by (induction xs) (auto simp: List.map_filter_def b64_value_char)
  ultimately show ?thesis
    using sextets_less by (simp add: from_base64_def to_base64_def bytes_of_sextets)
qed

text \<open>\<open>parseInt(s, 16)\<close> reads the longest hexadecimal prefix, after a sign and a prefix \<open>0x\<close>.\<close>

definition js_parseHex :: "string \<Rightarrow> int option" where
  "js_parseHex s =
     (let t = dropWhile is_space s;
          neg = prefix ''-'' t;
          u = (if neg \<or> prefix ''+'' t then tl t else t);
          v = (if prefix ''0x'' u \<or> prefix ''0X'' u then drop 2 u else u);
          ds = takeWhile (is_digit 16) v
      in if ds = [] then None else Some (if neg then - int (read_digits 16 ds) else int (read_digits 16 ds)))"

lemma js_parseHex_digits:
  assumes "h \<noteq> []" "list_all (is_digit 16) h"
  shows "js_parseHex h = Some (int (read_digits 16 h))"
proof -
  obtain c cs where h: "h = c # cs" using assms(1) by (cases h) auto
  then have c: "is_digit 16 c" using assms(2) by simp
  then have "\<not> is_space c" "c \<noteq> CHR ''-''" "c \<noteq> CHR ''+''"
    by (auto simp: is_digit_def char_digit_def is_space_def Let_def split: if_splits)
  moreover have "cs = [] \<or> (hd cs \<noteq> CHR ''x'' \<and> hd cs \<noteq> CHR ''X'')"
    using assms(2) h by (cases cs) (auto simp: is_digit_def char_digit_def)
  moreover have "takeWhile (is_digit 16) h = h"
    using assms(2) by (simp add: list_all_iff takeWhile_eq_all_conv)
  ultimately show ?thesis
    unfolding h js_parseHex_def by (cases cs) (auto simp: Let_def prefix_Cons split: if_splits)
qed

end
