(* ===== verification/Gov_BigNum.thy ===== *)
theory Gov_BigNum
  imports Gov_Strings
begin

text \<open>
  Decimal arithmetic as the service computes it: the operations of \<open>BigNumber\<close> (version 9, in its
  default configuration of 20 decimal places and half-up rounding, with the exponential thresholds
  that \<open>src/main.ts\<close> sets) on decimals \<open>m / 10 ^ k\<close>, and \<open>src/utils/token.converters.ts\<close>. Negative
  zero is not distinguished from zero, and prefixed binary, octal or hexadecimal numerals are read
  as \<open>NaN\<close>.
\<close>

section \<open>Decimals\<close>

datatype bn = BNaN | BInf bool | BFin int nat

text \<open>A decimal with no trailing zero in its fraction.\<close>

fun dec :: "int \<Rightarrow> nat \<Rightarrow> bn" where
  "dec m 0 = BFin m 0"
| "dec m (Suc k) = (if m mod 10 = 0 then dec (m div 10) k else BFin m (Suc k))"

text \<open>Division rounded to the nearest integer, ties away from zero; the divisor is not 0.\<close>

definition round_div :: "int \<Rightarrow> int \<Rightarrow> int" where
  "round_div a b = sgn a * sgn b * ((2 * \<bar>a\<bar> + \<bar>b\<bar>) div (2 * \<bar>b\<bar>))"

fun bn_plus :: "bn \<Rightarrow> bn \<Rightarrow> bn" where
  "bn_plus (BFin m k) (BFin n l) = dec (m * 10 ^ (max k l - k) + n * 10 ^ (max k l - l)) (max k l)"
| "bn_plus (BInf s) (BInf t) = (if s = t then BInf s else BNaN)"
| "bn_plus (BInf s) (BFin n l) = BInf s"
| "bn_plus (BFin m k) (BInf t) = BInf t"
| "bn_plus _ _ = BNaN"

fun bn_neg :: "bn \<Rightarrow> bn" where
  "bn_neg (BFin m k) = BFin (- m) k"
| "bn_neg (BInf s) = BInf (\<not> s)"
| "bn_neg BNaN = BNaN"

definition bn_minus :: "bn \<Rightarrow> bn \<Rightarrow> bn" where
  "bn_minus x y = bn_plus x (bn_neg y)"

text \<open>In \<open>BInf s\<close> the flag is true for the positive infinity.\<close>

fun bn_times :: "bn \<Rightarrow> bn \<Rightarrow> bn" where
  "bn_times (BFin m k) (BFin n l) = dec (m * n) (k + l)"
| "bn_times (BInf s) (BInf t) = BInf (s = t)"
| "bn_times (BInf s) (BFin n l) = (if n = 0 then BNaN else BInf (s = (0 < n)))"
| "bn_times (BFin m k) (BInf t) = (if m = 0 then BNaN else BInf (t = (0 < m)))"
| "bn_times _ _ = BNaN"

fun bn_div :: "bn \<Rightarrow> bn \<Rightarrow> bn" where
  "bn_div (BFin m k) (BFin n l) =
     (if n = 0 then (if m = 0 then BNaN else BInf (0 < m))
      else dec (round_div (m * 10 ^ (20 + l)) (n * 10 ^ k)) 20)"
| "bn_div (BInf s) (BFin n l) = BInf (s = (0 \<le> n))"
| "bn_div (BFin m k) (BInf t) = BFin 0 0"
| "bn_div _ _ = BNaN"

text \<open>\<open>x.comparedTo(y) > 0\<close>, which is false when one of them is \<open>NaN\<close>.\<close>

fun bn_gt :: "bn \<Rightarrow> bn \<Rightarrow> bool" where
  "bn_gt (BFin m k) (BFin n l) = (n * 10 ^ k < m * 10 ^ l)"
| "bn_gt (BInf s) (BInf t) = (s \<and> \<not> t)"
| "bn_gt (BInf s) (BFin n l) = s"
| "bn_gt (BFin m k) (BInf t) = (\<not> t)"
| "bn_gt _ _ = False"

text \<open>\<open>x.isPositive()\<close> reads the sign only, so zero is positive.\<close>

fun bn_isPositive :: "bn \<Rightarrow> bool" where
  "bn_isPositive (BFin m k) = (0 \<le> m)"
| "bn_isPositive (BInf s) = s"
| "bn_isPositive BNaN = False"

fun bn_integerValue :: "bn \<Rightarrow> bn" where
  "bn_integerValue (BFin m k) = BFin (round_div m (10 ^ k)) 0"
| "bn_integerValue x = x"

text \<open>The integer square root, one bit pair at a time.\<close>

fun isqrt :: "nat \<Rightarrow> nat" where
  "isqrt n =
     (if n = 0 then 0
      else let r = 2 * isqrt (n div 4) in if (r + 1) * (r + 1) \<le> n then r + 1 else r)"

declare isqrt.simps [simp del]

text \<open>
  The square root to 20 decimal places, half up:
  \<open>\<lfloor>\<surd>v \<sqdot> 10\<^sup>2\<^sup>0 + 1/2\<rfloor> = \<lfloor>(\<lfloor>\<surd>(4 v 10\<^sup>4\<^sup>0)\<rfloor> + 1) / 2\<rfloor>\<close>.
\<close>

fun bn_sqrt :: "bn \<Rightarrow> bn" where
  "bn_sqrt (BFin m k) =
     (if m < 0 then BNaN
      else dec (int ((isqrt (nat m * 4 * 10 ^ 40 div 10 ^ k) + 1) div 2)) 20)"
| "bn_sqrt (BInf s) = (if s then BInf True else BNaN)"
| "bn_sqrt BNaN = BNaN"


section \<open>Printing and parsing\<close>

definition fixed_point :: "nat \<Rightarrow> nat \<Rightarrow> string" where
  "fixed_point n k =
     (let d = show_nat 10 n;
          p = replicate (k + 1 - length d) (CHR ''0'') @ d
      in if k = 0 then p else take (length p - k) p @ CHR ''.'' # drop (length p - k) p)"

definition signed :: "bool \<Rightarrow> string \<Rightarrow> string" where
  "signed neg s = (if neg then CHR ''-'' # s else s)"

fun bn_special :: "bn \<Rightarrow> string" where
  "bn_special (BInf s) = (if s then ''Infinity'' else ''-Infinity'')"
| "bn_special _ = ''NaN''"

definition bn_toFixed :: "bn \<Rightarrow> string" where
  "bn_toFixed x = (case x of
      BFin m k \<Rightarrow> signed (m < 0) (fixed_point (nat \<bar>m\<bar>) k)
    | _ \<Rightarrow> bn_special x)"

text \<open>\<open>x.toFixed(dp)\<close>; a negative number keeps its sign even when it is rounded to zero.\<close>

definition bn_toFixedDp :: "nat \<Rightarrow> bn \<Rightarrow> string" where
  "bn_toFixedDp dp x = (case x of
      BFin m k \<Rightarrow> signed (m < 0) (fixed_point (nat \<bar>round_div (m * 10 ^ dp) (10 ^ k)\<bar>) dp)
    | _ \<Rightarrow> bn_special x)"

definition strip_zeros :: "string \<Rightarrow> string" where
  "strip_zeros s = rev (dropWhile (\<lambda>c. c = CHR ''0'') (rev s))"

text \<open>\<open>x.toString()\<close> is exponential from the exponent 30 on, and from -30 down.\<close>

definition bn_exponent :: "int \<Rightarrow> nat \<Rightarrow> int" where
  "bn_exponent m k = (if m = 0 then 0 else int (length (show_nat 10 (nat \<bar>m\<bar>))) - 1 - int k)"

definition exponential :: "int \<Rightarrow> nat \<Rightarrow> string" where
  "exponential m k =
     (let c = strip_zeros (show_nat 10 (nat \<bar>m\<bar>)); e = bn_exponent m k
      in (if length c > 1 then hd c # CHR ''.'' # tl c else c) @
         (if e < 0 then ''e'' else ''e+'') @ show_int e)"

definition bn_toString :: "bn \<Rightarrow> string" where
  "bn_toString x = (case x of
      BFin m k \<Rightarrow>
        (let e = bn_exponent m k
         in if e \<le> - 30 \<or> 30 \<le> e then signed (m < 0) (exponential m k) else bn_toFixed x)
    | _ \<Rightarrow> bn_special x)"

definition mantissa_of :: "string \<Rightarrow> (nat \<times> nat) option" where
  "mantissa_of s =
     (case split_char (CHR ''.'') s of
        [ip] \<Rightarrow> map_option (\<lambda>n. (n, 0)) (parse_nat 10 ip)
      | [ip, fp] \<Rightarrow>
          map_option (\<lambda>n. (n, length fp)) (parse_nat 10 (ip @ fp))
      | _ \<Rightarrow> None)"

definition exponent_of :: "string \<Rightarrow> int option" where
  "exponent_of s =
     (case s of [] \<Rightarrow> None
      | c # cs \<Rightarrow> if c = CHR ''+'' then map_option int (parse_nat 10 cs) else parse_int s)"

definition is_e :: "char \<Rightarrow> bool" where
  "is_e c \<longleftrightarrow> c = CHR ''e'' \<or> c = CHR ''E''"

definition scale10 :: "int \<Rightarrow> int \<Rightarrow> bn" where
  "scale10 m e = (if 0 \<le> e then BFin (m * 10 ^ nat e) 0 else dec m (nat (- e)))"

definition parse_unsigned :: "string \<Rightarrow> bn option" where
  "parse_unsigned s =
     (case mantissa_of (takeWhile (\<lambda>c. \<not> is_e c) s) of
        None \<Rightarrow> None
      | Some (m, f) \<Rightarrow>
          (case dropWhile (\<lambda>c. \<not> is_e c) s of
             [] \<Rightarrow> Some (scale10 (int m) (- int f))
           | c # es \<Rightarrow> map_option (\<lambda>e. scale10 (int m) (e - int f)) (exponent_of es)))"

definition parse_decimal :: "string \<Rightarrow> bn option" where
  "parse_decimal s =
     (case s of
        [] \<Rightarrow> None
      | c # cs \<Rightarrow> if c = CHR ''-'' then map_option bn_neg (parse_unsigned cs) else parse_unsigned s)"

text \<open>\<open>new BigNumber(s)\<close>: surrounding white space and a leading plus are dropped before a retry.\<close>

definition bn_of_string :: "string \<Rightarrow> bn" where
  "bn_of_string s =
     (case parse_decimal s of
        Some x \<Rightarrow> x
      | None \<Rightarrow>
         (let t = trim s;
              u = (if prefix ''+'' t then tl t else t)
          in if u = ''Infinity'' then BInf True
             else if u = ''-Infinity'' then BInf False
             else case parse_decimal u of Some x \<Rightarrow> x | None \<Rightarrow> BNaN))"

abbreviation bn_int :: "int \<Rightarrow> bn" where
  "bn_int i \<equiv> BFin i 0"

text \<open>\<open>new BigNumber(undefined)\<close> is \<open>NaN\<close>.\<close>

definition bn_of_optional :: "string option \<Rightarrow> bn" where
  "bn_of_optional s = (case s of None \<Rightarrow> BNaN | Some t \<Rightarrow> bn_of_string t)"


section \<open>Token converters\<close>

text \<open>\<open>decimalToHex\<close> pads the hexadecimal text of an integer to an even length.\<close>

definition decimalToHex :: "int \<Rightarrow> string" where
  "decimalToHex d =
     (let h = signed (d < 0) (show_nat 16 (nat \<bar>d\<bar>))
      in if length h mod 2 \<noteq> 0 then CHR ''0'' # h else h)"

definition tokenIdentifier :: "string \<Rightarrow> int \<Rightarrow> string" where
  "tokenIdentifier tokenID tokenNonce = tokenID @ ''-'' @ decimalToHex tokenNonce"


section \<open>Laws of the arithmetic\<close>

lemma bn_plus_int [simp]: "bn_plus (bn_int m) (bn_int n) = bn_int (m + n)"
  by simp

lemma bn_times_int [simp]: "bn_times (bn_int m) (bn_int n) = bn_int (m * n)"
  by simp

lemma bn_gt_int [simp]: "bn_gt (bn_int m) (bn_int n) \<longleftrightarrow> n < m"
  by simp

lemma bn_plus_NaN [simp]: "bn_plus x BNaN = BNaN" "bn_plus BNaN x = BNaN"
  by (cases x; simp)+

lemma round_div_nonneg: "0 \<le> a \<Longrightarrow> 0 < b \<Longrightarrow> round_div a b = (2 * a + b) div (2 * b)"
  by (cases "a = 0") (simp_all add: round_div_def)

lemma round_div_minus [simp]: "round_div (- a) b = - round_div a b"
  by (simp add: round_div_def sgn_minus)

lemma round_div_cancel [simp]: "0 < c \<Longrightarrow> round_div (a * c) (b * c) = round_div a b"
proof -
  assume c: "0 < c"
  have "(2 * \<bar>a * c\<bar> + \<bar>b * c\<bar>) div (2 * \<bar>b * c\<bar>) = (\<bar>c\<bar> * (2 * \<bar>a\<bar> + \<bar>b\<bar>)) div (\<bar>c\<bar> * (2 * \<bar>b\<bar>))"
    by (simp add: abs_mult algebra_simps)
  also have "\<dots> = (2 * \<bar>a\<bar> + \<bar>b\<bar>) div (2 * \<bar>b\<bar>)"
    using c by (intro div_mult_mult1) simp
  finally show ?thesis
    using c by (simp add: round_div_def sgn_mult)
qed

lemma round_div_1 [simp]: "round_div a 1 = a"
  by (simp add: round_div_def) (metis mult_sgn_abs mult.commute)

text \<open>Normalising a decimal does not change its value: it keeps every rounding of it.\<close>

lemma integerValue_dec [simp]: "bn_integerValue (dec m k) = bn_int (round_div m (10 ^ k))"
proof (induction m k rule: dec.induct)
  case (2 m k)
  show ?case
  proof (cases "m mod 10 = 0")
    case True
    then have "m = m div 10 * 10" by presburger
    then have "round_div m (10 ^ Suc k) = round_div (m div 10) (10 ^ k)"
      using round_div_cancel [of 10 "m div 10" "10 ^ k"] by (simp add: mult.commute)
    with True 2 show ?thesis by simp
  qed simp
qed simp

lemma isqrt_bounds: "isqrt n * isqrt n \<le> n \<and> n < (isqrt n + 1) * (isqrt n + 1)"
proof (induction n rule: isqrt.induct)
  case (1 n)
  show ?case
  proof (cases "n = 0")
    case True
    then show ?thesis by (simp add: isqrt.simps)
  next
    case False
    define r where "r = isqrt (n div 4)"
    have IH: "r * r \<le> n div 4" "n div 4 < (r + 1) * (r + 1)"
      using 1 [OF False] by (simp_all add: r_def)
    then have "4 * (r * r) \<le> n" "n < 4 * ((r + 1) * (r + 1))"
      by linarith+
    then show ?thesis
      using False by (subst (1 2 3 4) isqrt.simps) (auto simp: Let_def r_def [symmetric] algebra_simps)
  qed
qed

lemma isqrt_le: "isqrt n * isqrt n \<le> n"
  using isqrt_bounds by blast

lemma isqrt_less: "n < (isqrt n + 1) * (isqrt n + 1)"
  using isqrt_bounds by blast

text \<open>
  The service takes the square root to 20 places and rounds it again to an integer. Up to
  \<open>10 ^ 38\<close> the double rounding is exact: the result is the integer nearest to the root.
\<close>

lemma two_step_rounding:
  fixes q r s k A :: int
  assumes r: "r * r \<le> 4 * q * (A * A)" "4 * q * (A * A) < (r + 1) * (r + 1)" "0 \<le> r"
    and s: "2 * s \<le> r + 1" "r \<le> 2 * s"
    and k: "k * (2 * A) \<le> 2 * s + A" "2 * s + A < (k + 1) * (2 * A)"
    and A: "0 < A" "4 * k - 2 \<le> A" and "0 \<le> k"
  shows "k * k - k < q \<or> k = 0" and "q \<le> k * k + k"
proof -
  show "q \<le> k * k + k"
  proof (rule ccontr)
    assume "\<not> ?thesis"
    then have "k * k + k + 1 \<le> q" by simp
    then have "4 * (k * k + k + 1) * (A * A) \<le> 4 * q * (A * A)"
      using A by (intro mult_right_mono) auto
    moreover have "((2 * k + 1) * A) * ((2 * k + 1) * A) < 4 * (k * k + k + 1) * (A * A)"
      using A by (simp add: algebra_simps)
    ultimately have "((2 * k + 1) * A) * ((2 * k + 1) * A) < (r + 1) * (r + 1)"
      using r by linarith
    then have "(2 * k + 1) * A < r + 1"
      using r(3) by (metis add.commute linorder_not_le mult_mono' zero_le_one add_nonneg_nonneg)
    with s k(2) show False by (simp add: algebra_simps)
  qed
  show "k * k - k < q \<or> k = 0"
  proof (rule ccontr)
    assume "\<not> ?thesis"
    then have q: "q \<le> k * k - k" and k1: "1 \<le> k" using \<open>0 \<le> k\<close> by auto
    let ?B = "(2 * k - 1) * A"
    have "?B \<le> r + 1" using s k(1) by (simp add: algebra_simps)
    moreover have B: "0 < ?B" using k1 A by simp
    ultimately have "(?B - 1) * (?B - 1) \<le> r * r" by (intro mult_mono) auto
    also have "\<dots> \<le> 4 * q * (A * A)" by (rule r)
    also have "\<dots> \<le> 4 * (k * k - k) * (A * A)" using q A by (intro mult_right_mono) auto
    also have "\<dots> = ?B * ?B - A * A" by (simp add: algebra_simps)
    finally have "A * A + 1 \<le> 2 * ?B" by (simp add: algebra_simps)
    also have "\<dots> = (4 * k - 2) * A" by (simp add: algebra_simps)
    also have "\<dots> \<le> A * A" using A by (intro mult_right_mono) auto
    finally show False by simp
  qed
qed

lemma div_bounds:
  fixes a b :: int
  shows "0 < b \<Longrightarrow> a div b * b \<le> a" and "0 < b \<Longrightarrow> a < (a div b + 1) * b"
proof -
  have "a div b * b = a - a mod b" by (simp add: minus_mod_eq_div_mult)
  moreover have "0 \<le> a mod b" "a mod b < b" if "0 < b"
    using that by simp_all
  ultimately show "0 < b \<Longrightarrow> a div b * b \<le> a" and "0 < b \<Longrightarrow> a < (a div b + 1) * b"
    by (fastforce simp: distrib_right)+
qed

lemma sqrt_integerValue:
  assumes "0 \<le> q" and "q \<le> 10 ^ 38"
  obtains k where "bn_integerValue (bn_sqrt (bn_int q)) = bn_int k"
    and "0 \<le> k" and "k * k - k < q \<or> k = 0" and "q \<le> k * k + k"
proof -
  define A :: int where "A = 10 ^ 20"
  define n where "n = nat q * 4 * 10 ^ 40"
  define r where "r = int (isqrt n)"
  define s where "s = int ((isqrt n + 1) div 2)"
  define k where "k = (2 * s + A) div (2 * A)"
  have n: "int n = 4 * q * (A * A)" using assms by (simp add: n_def A_def)
  have r: "r * r \<le> 4 * q * (A * A)" "4 * q * (A * A) < (r + 1) * (r + 1)"
    using isqrt_le [of n] isqrt_less [of n] unfolding n [symmetric] r_def
    by (metis of_nat_le_iff of_nat_mult, metis of_nat_less_iff of_nat_mult of_nat_Suc Suc_eq_plus1 add.commute)
  have s: "2 * s \<le> r + 1" "r \<le> 2 * s" unfolding s_def r_def by presburger+
  have A0: "0 < A" by (simp add: A_def)
  have s0: "0 \<le> s" and r0: "0 \<le> r" by (simp_all add: s_def r_def)
  have k: "k * (2 * A) \<le> 2 * s + A" "2 * s + A < (k + 1) * (2 * A)" and k0: "0 \<le> k"
    using div_bounds [of "2 * A" "2 * s + A"] A0 s0
    by (simp_all add: k_def pos_imp_zdiv_nonneg_iff)
  have "r * r \<le> (2 * 10 ^ 19 * A) * (2 * 10 ^ 19 * A)"
    using r(1) assms by (simp add: A_def)
  then have "r \<le> 2 * 10 ^ 19 * A"
    using r0 A0 by (metis abs_le_square_iff abs_of_nonneg power2_eq_square mult_nonneg_nonneg
        less_imp_le zero_le_numeral zero_le_power)
  with s k(1) have "k * (2 * A) < (10 ^ 19 + 1) * (2 * A)"
    by (simp add: A_def)
  then have "k < 10 ^ 19 + 1" using A0 by (simp add: mult_less_cancel_right)
  then have A1: "4 * k - 2 \<le> A" by (simp add: A_def)
  have "bn_sqrt (bn_int q) = dec s 20"
    using assms by (simp only: bn_sqrt.simps s_def n_def power_0 div_by_1) simp
  then have val: "bn_integerValue (bn_sqrt (bn_int q)) = bn_int k"
    using s0 by (simp only: integerValue_dec) (simp add: round_div_nonneg k_def A_def)
  show thesis
    using two_step_rounding [OF r r0 s k A0 A1 k0] val k0 by (intro that) auto
qed

lemma integerValue_int [simp]: "bn_integerValue (bn_int n) = bn_int n"
  by simp

text \<open>Integers below \<open>10 ^ 30\<close> print as plain numerals and are read back.\<close>

lemma fixed_point_int [simp]: "fixed_point n 0 = show_nat 10 n"
  by (cases "show_nat 10 n") (auto simp: fixed_point_def Let_def)

lemma toFixed_int [simp]: "bn_toFixed (bn_int n) = show_int n"
  by (auto simp: bn_toFixed_def show_int_def signed_def)

lemma length_show_nat: "0 < k \<Longrightarrow> n < 10 ^ k \<Longrightarrow> length (show_nat 10 n) \<le> k"
proof (induction k arbitrary: n)
  case (Suc k)
  show ?case
  proof (cases "n < 10")
    case True
    then show ?thesis by (subst show_nat.simps) simp
  next
    case False
    then have "0 < k" using Suc.prems by (cases k) auto
    moreover have "n div 10 < 10 ^ k" using Suc.prems by (simp add: less_mult_imp_div_less mult.commute)
    ultimately show ?thesis
      using False Suc.IH [of "n div 10"] by (subst show_nat.simps) simp
  qed
qed simp

lemma toString_int:
  assumes "\<bar>n\<bar> < 10 ^ 30"
  shows "bn_toString (bn_int n) = show_int n"
proof -
  have "nat \<bar>n\<bar> < 10 ^ 30" using assms by simp
  then have "length (show_nat 10 (nat \<bar>n\<bar>)) \<le> 30" by (intro length_show_nat) simp_all
  moreover have "1 \<le> length (show_nat 10 (nat \<bar>n\<bar>))"
    by (simp add: Suc_le_eq)
  ultimately have "bn_exponent n 0 < 30" "- 30 < bn_exponent n 0" by (simp_all add: bn_exponent_def)
  then show ?thesis by (simp add: bn_toString_def Let_def)
qed

lemma show_nat_no_e: "c \<in> set (show_nat 10 n) \<Longrightarrow> \<not> is_e c"
  using show_nat_no_char [of c n] by (auto simp: is_e_def is_digit_def char_digit_def Let_def)

lemma parse_unsigned_show_nat [simp]: "parse_unsigned (show_nat 10 n) = Some (bn_int (int n))"
proof -
  have tw: "takeWhile (\<lambda>c. \<not> is_e c) (show_nat 10 n) = show_nat 10 n"
       "dropWhile (\<lambda>c. \<not> is_e c) (show_nat 10 n) = []"
    by (auto simp: takeWhile_eq_all_conv dropWhile_eq_Nil_conv dest: show_nat_no_e)
  show ?thesis
    by (simp add: parse_unsigned_def tw mantissa_of_def split_char_single show_nat_no_char is_digit_not
        scale10_def)
qed

lemma bn_of_show_int [simp]: "bn_of_string (show_int n) = bn_int n"
proof (cases "n < 0")
  case True
  then show ?thesis by (simp add: bn_of_string_def show_int_def parse_decimal_def)
next
  case False
  obtain c cs where cs: "show_nat 10 (nat n) = c # cs"
    by (cases "show_nat 10 (nat n)") auto
  then have "c \<noteq> CHR ''-''" using show_nat_hd_digit [of "nat n"] is_digit_not(1) by auto
  then show ?thesis
    using False parse_unsigned_show_nat [of "nat n"]
    by (simp add: bn_of_string_def show_int_def parse_decimal_def cs)
qed

lemma decimalToHex_even: "even (length (decimalToHex d))"
  by (auto simp: decimalToHex_def Let_def)

text \<open>The padded text of a natural number is read back by \<open>parseInt(\<dots>, 16)\<close>.\<close>

lemma decimalToHex_parse: "0 \<le> d \<Longrightarrow> parse_nat 16 (decimalToHex d) = Some (nat d)"
proof -
  have "read_digits 16 (CHR ''0'' # s) = read_digits 16 s" for s
    by (simp add: read_digits_def char_digit_def Let_def)
  moreover assume "0 \<le> d"
  ultimately show ?thesis
    using show_nat_digits [of 16 "nat d"]
    by (auto simp: decimalToHex_def Let_def signed_def parse_nat_def read_digits_show_nat
        is_digit_def char_digit_def)
qed

text \<open>A share of a total, in percent with two decimals.\<close>

definition bn_percentage :: "bn \<Rightarrow> bn \<Rightarrow> string" where
  "bn_percentage part whole = bn_toFixedDp 2 (bn_times (bn_div part whole) (bn_int 100))"

end
