(* ===== verification/Gov_Models.thy ===== *)
theory Gov_Models
  imports Gov_BigNum
begin

text \<open>
  The data of the service: the object types of \<open>src/modules/governance/models\<close>, the token, energy
  and transaction models, and the values that come from outside as JSON or as decoded contract
  results. A field the code leaves undefined in some of its uses is an option; an enumeration is a
  datatype. A JavaScript number that is an identifier, an epoch or a count is an \<open>int\<close>; one that the
  code may compute as a fraction or \<open>NaN\<close> is a decimal of \<open>Gov_BigNum\<close>.
\<close>

section \<open>Values from outside\<close>

text \<open>JavaScript values, as an HTTP body or an SDK object holds them.\<close>

datatype jsval =
    JUndef | JNull | JBool bool | JNum bn | JBig int | JStr string | JAddr string
  | JArr "jsval list" | JObj "(string \<times> jsval) list"

text \<open>\<open>o.key\<close>: reading a property of \<open>undefined\<close> or \<open>null\<close> throws.\<close>

definition js_get :: "string \<Rightarrow> jsval \<Rightarrow> exn + jsval" where
  "js_get key v = (case v of
      JUndef \<Rightarrow> Inl TypeError
    | JNull \<Rightarrow> Inl TypeError
    | JObj fs \<Rightarrow> Inr (case map_of fs key of Some x \<Rightarrow> x | None \<Rightarrow> JUndef)
    | _ \<Rightarrow> Inr JUndef)"

definition js_field :: "string \<Rightarrow> jsval \<Rightarrow> jsval" where
  "js_field key v = (case js_get key v of Inr x \<Rightarrow> x | Inl _ \<Rightarrow> JUndef)"

definition js_index :: "nat \<Rightarrow> jsval \<Rightarrow> exn + jsval" where
  "js_index i v = (case v of
      JUndef \<Rightarrow> Inl TypeError
    | JNull \<Rightarrow> Inl TypeError
    | JArr xs \<Rightarrow> Inr (if i < length xs then xs ! i else JUndef)
    | _ \<Rightarrow> Inr JUndef)"

text \<open>Reading a value at the type its declaration gives it.\<close>

definition js_string :: "jsval \<Rightarrow> exn + string" where
  "js_string v = (case v of JStr s \<Rightarrow> Inr s | _ \<Rightarrow> Inl TypeError)"

definition js_int :: "jsval \<Rightarrow> exn + int" where
  "js_int v = (case v of JNum (BFin n k) \<Rightarrow> if k = 0 then Inr n else Inl TypeError | _ \<Rightarrow> Inl TypeError)"

definition js_number :: "jsval \<Rightarrow> bn" where
  "js_number v = (case v of JNum x \<Rightarrow> x | _ \<Rightarrow> BNaN)"

definition js_bool :: "jsval \<Rightarrow> bool" where
  "js_bool v = (case v of JBool b \<Rightarrow> b | JUndef \<Rightarrow> False | JNull \<Rightarrow> False | JStr s \<Rightarrow> s \<noteq> []
     | JNum x \<Rightarrow> (case x of BFin m k \<Rightarrow> m \<noteq> 0 | BInf s \<Rightarrow> True | BNaN \<Rightarrow> False) | JBig n \<Rightarrow> n \<noteq> 0 | _ \<Rightarrow> True)"

text \<open>The native values that a decoded contract result holds (\<open>valueOf()\<close> of a typed value).\<close>

datatype scval =
    SBig int | SBytes string | SAddr string | SBool bool | SEnum string
  | SList "scval list" | SStruct "(string \<times> scval) list"

text \<open>A method that the value does not have throws a \<open>TypeError\<close>.\<close>

definition sc_toFixed :: "scval \<Rightarrow> exn + string" where
  "sc_toFixed v = (case v of SBig n \<Rightarrow> Inr (show_int n) | _ \<Rightarrow> Inl TypeError)"

definition sc_toNumber :: "scval \<Rightarrow> exn + int" where
  "sc_toNumber v = (case v of SBig n \<Rightarrow> Inr n | _ \<Rightarrow> Inl TypeError)"

definition sc_big :: "scval \<Rightarrow> exn + bn" where
  "sc_big v = (case v of SBig n \<Rightarrow> Inr (bn_int n) | _ \<Rightarrow> Inl TypeError)"

definition sc_bech32 :: "scval \<Rightarrow> exn + string" where
  "sc_bech32 v = (case v of SAddr a \<Rightarrow> Inr a | _ \<Rightarrow> Inl TypeError)"

definition sc_string :: "scval \<Rightarrow> exn + string" where
  "sc_string v = (case v of SBytes s \<Rightarrow> Inr s | SAddr a \<Rightarrow> Inr a | SBig n \<Rightarrow> Inr (show_int n)
     | _ \<Rightarrow> Inl TypeError)"

definition sc_bool :: "scval \<Rightarrow> exn + bool" where
  "sc_bool v = (case v of SBool b \<Rightarrow> Inr b | _ \<Rightarrow> Inl TypeError)"

definition sc_name :: "scval \<Rightarrow> exn + string" where
  "sc_name v = (case v of SEnum s \<Rightarrow> Inr s | _ \<Rightarrow> Inl TypeError)"

definition sc_list :: "scval \<Rightarrow> exn + scval list" where
  "sc_list v = (case v of SList xs \<Rightarrow> Inr xs | _ \<Rightarrow> Inl TypeError)"

definition sc_field :: "string \<Rightarrow> scval \<Rightarrow> exn + scval" where
  "sc_field f v = (case v of
      SStruct fs \<Rightarrow> (case map_of fs f of Some x \<Rightarrow> Inr x | None \<Rightarrow> Inl TypeError)
    | _ \<Rightarrow> Inl TypeError)"

text \<open>Results of fallible steps in sequence.\<close>

definition rbind :: "exn + 'a \<Rightarrow> ('a \<Rightarrow> exn + 'b) \<Rightarrow> exn + 'b" where
  "rbind r f = (case r of Inl e \<Rightarrow> Inl e | Inr a \<Rightarrow> f a)"

lemma rbind_simps [simp]: "rbind (Inr a) f = f a" "rbind (Inl e) f = Inl e"
  by (simp_all add: rbind_def)

lemma rbind_Inr_iff: "rbind r f = Inr b \<longleftrightarrow> (\<exists>a. r = Inr a \<and> f a = Inr b)"
  by (simp add: rbind_def split: sum.splits)

fun rmap :: "('a \<Rightarrow> exn + 'b) \<Rightarrow> 'a list \<Rightarrow> exn + 'b list" where
  "rmap f [] = Inr []"
| "rmap f (x # xs) = rbind (f x) (\<lambda>y. rbind (rmap f xs) (\<lambda>ys. Inr (y # ys)))"

definition sc_num_field :: "string \<Rightarrow> scval \<Rightarrow> exn + int" where
  "sc_num_field f v = rbind (sc_field f v) sc_toNumber"

lemma rmap_Inr_map: "(\<And>x. x \<in> set xs \<Longrightarrow> f x = Inr (g x)) \<Longrightarrow> rmap f xs = Inr (map g xs)"
  by (induction xs) auto

lemma rmap_length: "rmap f xs = Inr ys \<Longrightarrow> length ys = length xs"
  by (induction xs arbitrary: ys) (auto simp: rbind_Inr_iff)


section \<open>Tokens, energy and transactions\<close>

record esdt_payment =
  tokenIdentifierP :: string
  tokenNonce :: int
  amount :: string

record assets_model =
  as_website :: "string option"
  as_description :: "string option"
  as_status :: "string option"
  as_pngUrl :: "string option"
  as_svgUrl :: "string option"
  as_lockedAccounts :: "jsval option"
  as_extraTokens :: "jsval option"

text \<open>A token as the network's API describes it; a field that the answer lacks is \<open>None\<close>.\<close>

record esdt_token =
  tok_identifier :: "string option"
  tok_name :: "string option"
  tok_ticker :: "string option"
  tok_owner :: "string option"
  tok_minted :: "string option"
  tok_burnt :: "string option"
  tok_initialMinted :: "string option"
  decimals :: "int option"
  tok_price :: "string option"
  tok_supply :: "string option"
  tok_circulatingSupply :: "string option"
  tok_assets :: assets_model
  tok_transactions :: "int option"
  tok_accounts :: "int option"
  tok_isPaused :: "bool option"
  tok_canUpgrade :: "bool option"
  tok_canMint :: "bool option"
  tok_canBurn :: "bool option"
  tok_canChangeOwner :: "bool option"
  tok_canPause :: "bool option"
  tok_canFreeze :: "bool option"
  tok_canWipe :: "bool option"
  tok_type :: "string option"
  tok_balance :: "string option"

record energy =
  en_amount :: string
  lastUpdateEpoch :: int
  totalLockedTokens :: string

text \<open>The service uses the last three counts; the others are kept when the answer has them.\<close>

record stats =
  st_shards :: "int option"
  st_blocks :: "int option"
  st_accounts :: "int option"
  st_transactions :: "int option"
  st_scResults :: "int option"
  st_refreshRate :: "int option"
  epoch :: int
  roundsPassed :: int
  roundsPerEpoch :: int

record block_data =
  timestamp :: int
  blk_nonce :: int

record transaction_model =
  tx_nonce :: int
  tx_value :: string
  tx_sender :: string
  tx_receiver :: string
  tx_senderUsername :: "string option"
  tx_receiverUsername :: "string option"
  tx_gasPrice :: int
  tx_gasLimit :: int
  tx_data :: "string option"
  tx_chainID :: string
  tx_version :: int
  tx_options :: "int option"
  tx_guardian :: "string option"
  tx_signature :: "string option"
  tx_guardianSignature :: "string option"


section \<open>Proposals and votes\<close>

datatype GovernanceProposalStatus =
    StatusNone | Pending | Active | Defeated | DefeatedWithVeto | Succeeded | PendingClose

datatype VoteType = UpVote | DownVote | DownVetoVote | AbstainVote | NotVoted

text \<open>The number behind a member of the enumeration.\<close>

fun vote_number :: "VoteType \<Rightarrow> int" where
  "vote_number UpVote = 0"
| "vote_number DownVote = 1"
| "vote_number DownVetoVote = 2"
| "vote_number AbstainVote = 3"
| "vote_number NotVoted = 4"

text \<open>
  A vote as the cache may hold it: a member of the enumeration, or the text of its number, which is
  what the handler of on-chain events stores.
\<close>

datatype vote_value = VoteNum VoteType | VoteText string

record proposal_votes =
  upVotes :: string
  downVotes :: string
  downVetoVotes :: string
  abstainVotes :: string
  totalVotes :: "string option"
  upPercentage :: "string option"
  downPercentage :: "string option"
  downVetoPercentage :: "string option"
  abstainPercentage :: "string option"
  quorum :: string

text \<open>\<open>ProposalVotes.default()\<close> sets five of the ten fields.\<close>

definition ProposalVotes_default :: proposal_votes where
  "ProposalVotes_default =
     \<lparr>upVotes = ''0'', downVotes = ''0'', downVetoVotes = ''0'', abstainVotes = ''0'',
      totalVotes = None, upPercentage = None, downPercentage = None, downVetoPercentage = None,
      abstainPercentage = None, quorum = ''0''\<rparr>"

record file_content =
  fc_title :: string
  fc_description :: string
  fc_content :: string
  fc_rationale :: "string option"
  fc_proposer :: string

datatype description =
    DescriptionV0 (title: string) (strapiId: int) (version: int)
  | DescriptionV1 (title: string) (strapiId: int) (version: int) (shortDescription: string)
  | DescriptionV2 (title: string) (strapiId: int) (version: int) (shortDescription: string)
      (strapiHash: string)
  | DescriptionV3 (version: int) (fileContent: file_content)

record governance_action =
  gasLimit :: int
  destAddress :: string
  functionName :: string
  arguments :: "string list"

record faq_item =
  question :: string
  answer :: string

record excluded_address_item =
  ex_name :: string
  ex_address :: string
  ex_votingPower :: string

record delegate_user_voting_power =
  du_providerName :: string
  du_scAddress :: string
  du_lsTokenId :: string
  du_userVotingPower :: string
  du_isEnabled :: bool
  du_hasVoted :: bool
  du_userVoteType :: vote_value

record delegate_staking_provider =
  providerName :: string
  voteScAddress :: string
  stakeScAddress :: string
  lsTokenId :: string
  voteFunctionName :: string
  viewUserVotingPowerName :: string
  isEnabled :: bool

text \<open>The optional fields of the user are there for the resolvers: no service sets them.\<close>

record governance_proposal =
  contractAddress :: string
  proposalId :: int
  proposer :: string
  actions :: "governance_action list option"
  gp_description :: description
  feePayment :: esdt_payment
  minimumQuorumPercentage :: string
  gp_votingDelayInBlocks :: int
  gp_votingPeriodInBlocks :: int
  gp_withdrawPercentageDefeated :: bn
  totalQuorum :: string
  proposalStartBlock :: int
  gp_status :: "GovernanceProposalStatus option"
  gp_rootHash :: "string option"
  gp_votes :: "proposal_votes option"
  gp_hasVoted :: "bool option"
  gp_userVoteType :: "VoteType option"
  gp_userVotingPower :: "string option"
  gp_delegateUserVotingPowers :: "delegate_user_voting_power list option"
  gp_userVotingPowerDirect :: "string option"
  gp_commitHash :: "string option"
  startVoteTimestamp :: "int option"
  endVoteTimestamp :: "int option"
  proposalIndex :: "int option"
  gp_faq :: "faq_item list option"
  gp_excludedAddresses :: "excluded_address_item list option"

record proposal_info =
  pi_cost :: string
  pi_commitHash :: string
  pi_nonce :: int
  pi_issuer :: string
  startVoteEpoch :: int
  endVoteEpoch :: int
  quorumStake :: string
  numYesVotes :: string
  numNoVotes :: string
  numVetoVotes :: string
  numAbstainVotes :: string
  isClosed :: bool
  isPassed :: bool

record governance_config_model =
  proposalFee :: string
  lostProposalFee :: string
  minQuorum :: bn
  minPassThreshold :: bn
  minVetoThreshold :: bn
  lastProposalNonce :: bn

record vote_args =
  va_contractAddress :: string
  va_proposalId :: int
  va_vote :: int

record create_delegate_vote_args =
  cd_contractAddress :: string
  cd_delegateContractAddress :: string
  cd_proposalId :: int
  cd_vote :: int

record create_proposal_args =
  cp_contractAddress :: string
  cp_commitHash :: string
  cp_startVoteEpoch :: int
  cp_endVoteEpoch :: int
  cp_nativeTokenAmount :: string


section \<open>Polls and ideas\<close>

datatype PollStatus = ONGOING | ENDED

record poll_result =
  optionId :: int
  pr_votingPower :: "string option"
  nrVotes :: int

record poll_results =
  pollResults :: "poll_result list"
  totalVotesCount :: int
  totalVotingPower :: string

record poll_info_raw =
  pir_initiator :: string
  pir_question :: string
  pir_options :: "string list"
  pir_voteScore :: "string list"
  pir_endTime :: int
  pir_status :: bool

record idea_info_raw =
  iir_initiator :: string
  iir_description :: string
  iir_voteScore :: string
  iir_ideaStartTime :: int

record pulse_poll =
  poll_contractAddress :: string
  pollId :: int
  poll_initiator :: string
  poll_options :: "string list"
  poll_question :: string
  poll_status :: PollStatus
  pollEndTime :: int
  poll_pollResults :: "poll_results option"
  poll_hasVoted :: "bool option"
  poll_userVotingOption :: "int option"
  poll_userVotingPower :: "string option"
  poll_index :: "int option"

record pulse_idea =
  idea_contractAddress :: string
  ideaId :: int
  idea_initiator :: string
  idea_description :: string
  ideaStartTime :: int
  idea_totalVotingPower :: string
  idea_totalVotesCount :: int
  idea_hasVoted :: "bool option"
  idea_userVotingPower :: "string option"
  idea_index :: "int option"

text \<open>The arguments of the requests; the voting power and the proof are filled in by the service.\<close>

record vote_poll_args =
  vp_contractAddress :: string
  vp_pollId :: int
  vp_optionId :: int
  vp_votingPower :: "string option"
  vp_proof :: "string option"

record vote_up_idea_args =
  vi_contractAddress :: string
  vi_ideaId :: int
  vi_votingPower :: "string option"
  vi_proof :: "string option"

record end_poll_args =
  ep_contractAddress :: string
  ep_pollId :: int

record new_poll_args =
  np_contractAddress :: string
  np_question :: string
  np_options :: "string list"
  np_duration :: int

record new_idea_args =
  ni_contractAddress :: string
  ni_description :: string
  ni_votingPower :: "string option"
  ni_proof :: "string option"

datatype SortType = VOTING_POWER | VOTES_NUMBER | START_TIME

datatype OrderType = ASCENDING | DESCENDING

record sort_args =
  sortBy :: "SortType option"
  order :: "OrderType option"

record pagination_args =
  offset :: int
  limit :: int

record chain_info =
  existsOnChain :: bool
  ci_status :: "GovernanceProposalStatus option"
  ci_proposalId :: "int option"

record github_proposal =
  fileName :: string
  gh_commitHash :: string
  gh_fileContent :: file_content
  chainInfo :: "chain_info option"
  prMerged :: "bool option"
  prNumber :: "int option"
  prUrl :: "string option"

end
