(* ===== verification/Gov_Environment.thy ===== *)
theory Gov_Environment
  imports Gov_Models
begin

text \<open>
  What the service stands on: its configuration and the third-party code it calls (both parameters
  of the model, gathered in one record \<open>env\<close> that every definition takes), the values it puts into
  the cache, and the state it keeps in the process. Logging has no effect in the model.
\<close>

section \<open>Values in the cache\<close>

datatype cval =
    VStr string | VOptStr "string option" | VNum int | VBn bn | VBool bool | VNums "int list"
  | VVotes proposal_votes | VProposals "governance_proposal list"
  | VStatus "GovernanceProposalStatus option"
  | VVote VoteType | VVoteTypes "(int \<times> VoteType) list"
  | VInfo proposal_info | VConfig governance_config_model
  | VPowers "delegate_user_voting_power list"
  | VStats stats | VBlock block_data | VEnergy energy | VToken esdt_token
  | VPoll pulse_poll | VPolls "pulse_poll list" | VPollResults poll_results
  | VIdea pulse_idea | VIdeas "pulse_idea list"
  | VGithub "github_proposal list"

text \<open>The type of a method's result in the cache: how it is stored and how it is read.\<close>

type_synonym 'a codec = "('a \<Rightarrow> cval) \<times> (cval \<Rightarrow> exn + 'a)"

definition strC :: "string codec" where
  "strC = (VStr, \<lambda>v. case v of VStr x \<Rightarrow> Inr x | _ \<Rightarrow> Inl TypeError)"
definition optStrC :: "string option codec" where
  "optStrC = (VOptStr, \<lambda>v. case v of VOptStr x \<Rightarrow> Inr x | _ \<Rightarrow> Inl TypeError)"
definition numC :: "int codec" where
  "numC = (VNum, \<lambda>v. case v of VNum x \<Rightarrow> Inr x | _ \<Rightarrow> Inl TypeError)"
definition bnC :: "bn codec" where
  "bnC = (VBn, \<lambda>v. case v of VBn x \<Rightarrow> Inr x | _ \<Rightarrow> Inl TypeError)"
definition boolC :: "bool codec" where
  "boolC = (VBool, \<lambda>v. case v of VBool x \<Rightarrow> Inr x | _ \<Rightarrow> Inl TypeError)"
definition numsC :: "int list codec" where
  "numsC = (VNums, \<lambda>v. case v of VNums x \<Rightarrow> Inr x | _ \<Rightarrow> Inl TypeError)"
definition votesC :: "proposal_votes codec" where
  "votesC = (VVotes, \<lambda>v. case v of VVotes x \<Rightarrow> Inr x | _ \<Rightarrow> Inl TypeError)"
definition proposalsC :: "governance_proposal list codec" where
  "proposalsC = (VProposals, \<lambda>v. case v of VProposals x \<Rightarrow> Inr x | _ \<Rightarrow> Inl TypeError)"
definition statusC :: "GovernanceProposalStatus option codec" where
  "statusC = (VStatus, \<lambda>v. case v of VStatus x \<Rightarrow> Inr x | _ \<Rightarrow> Inl TypeError)"
definition voteTypesC :: "(int \<times> VoteType) list codec" where
  "voteTypesC = (VVoteTypes, \<lambda>v. case v of VVoteTypes x \<Rightarrow> Inr x | _ \<Rightarrow> Inl TypeError)"
definition infoC :: "proposal_info codec" where
  "infoC = (VInfo, \<lambda>v. case v of VInfo x \<Rightarrow> Inr x | _ \<Rightarrow> Inl TypeError)"
definition configC :: "governance_config_model codec" where
  "configC = (VConfig, \<lambda>v. case v of VConfig x \<Rightarrow> Inr x | _ \<Rightarrow> Inl TypeError)"
definition powersC :: "delegate_user_voting_power list codec" where
  "powersC = (VPowers, \<lambda>v. case v of VPowers x \<Rightarrow> Inr x | _ \<Rightarrow> Inl TypeError)"
definition statsC :: "stats codec" where
  "statsC = (VStats, \<lambda>v. case v of VStats x \<Rightarrow> Inr x | _ \<Rightarrow> Inl TypeError)"
definition blockC :: "block_data codec" where
  "blockC = (VBlock, \<lambda>v. case v of VBlock x \<Rightarrow> Inr x | _ \<Rightarrow> Inl TypeError)"
definition energyC :: "energy codec" where
  "energyC = (VEnergy, \<lambda>v. case v of VEnergy x \<Rightarrow> Inr x | _ \<Rightarrow> Inl TypeError)"
definition tokenC :: "esdt_token codec" where
  "tokenC = (VToken, \<lambda>v. case v of VToken x \<Rightarrow> Inr x | _ \<Rightarrow> Inl TypeError)"
definition pollC :: "pulse_poll codec" where
  "pollC = (VPoll, \<lambda>v. case v of VPoll x \<Rightarrow> Inr x | _ \<Rightarrow> Inl TypeError)"
definition pollsC :: "pulse_poll list codec" where
  "pollsC = (VPolls, \<lambda>v. case v of VPolls x \<Rightarrow> Inr x | _ \<Rightarrow> Inl TypeError)"
definition pollResultsC :: "poll_results codec" where
  "pollResultsC = (VPollResults, \<lambda>v. case v of VPollResults x \<Rightarrow> Inr x | _ \<Rightarrow> Inl TypeError)"
definition ideaC :: "pulse_idea codec" where
  "ideaC = (VIdea, \<lambda>v. case v of VIdea x \<Rightarrow> Inr x | _ \<Rightarrow> Inl TypeError)"
definition ideasC :: "pulse_idea list codec" where
  "ideasC = (VIdeas, \<lambda>v. case v of VIdeas x \<Rightarrow> Inr x | _ \<Rightarrow> Inl TypeError)"
definition githubC :: "github_proposal list codec" where
  "githubC = (VGithub, \<lambda>v. case v of VGithub x \<Rightarrow> Inr x | _ \<Rightarrow> Inl TypeError)"

text \<open>
  The cache holds a vote as the number of the enumeration when the decorated getter stored it, and
  as the text of that number when the on-chain event handler did.
\<close>

definition voteC :: "vote_value codec" where
  "voteC = (\<lambda>a. case a of VoteNum v \<Rightarrow> VVote v | VoteText t \<Rightarrow> VStr t,
            \<lambda>v. case v of VVote x \<Rightarrow> Inr (VoteNum x) | VStr t \<Rightarrow> Inr (VoteText t) | _ \<Rightarrow> Inl TypeError)"

lemmas codec_defs = strC_def optStrC_def numC_def bnC_def boolC_def numsC_def votesC_def proposalsC_def
  statusC_def voteTypesC_def infoC_def configC_def powersC_def statsC_def blockC_def energyC_def
  tokenC_def pollC_def pollsC_def pollResultsC_def ideaC_def ideasC_def githubC_def voteC_def

definition codec_ok :: "'a codec \<Rightarrow> bool" where
  "codec_ok c \<longleftrightarrow> (\<forall>a. snd c (fst c a) = Inr a)"

lemma codecs_ok [simp]:
  "codec_ok strC" "codec_ok numC" "codec_ok bnC" "codec_ok boolC" "codec_ok numsC"
  "codec_ok votesC" "codec_ok proposalsC" "codec_ok statusC" "codec_ok voteTypesC"
  "codec_ok infoC" "codec_ok configC" "codec_ok powersC" "codec_ok statsC" "codec_ok blockC"
  "codec_ok energyC" "codec_ok tokenC" "codec_ok pollC" "codec_ok pollsC" "codec_ok pollResultsC"
  "codec_ok ideaC" "codec_ok ideasC" "codec_ok githubC" "codec_ok voteC" "codec_ok optStrC"
  by (simp_all add: codec_ok_def codec_defs split: vote_value.split)

lemma codec_fst [simp]:
  "fst strC = VStr" "fst optStrC = VOptStr" "fst numC = VNum" "fst bnC = VBn" "fst boolC = VBool" "fst numsC = VNums"
  "fst votesC = VVotes" "fst proposalsC = VProposals" "fst statusC = VStatus"
  "fst voteTypesC = VVoteTypes" "fst infoC = VInfo" "fst configC = VConfig" "fst powersC = VPowers"
  "fst statsC = VStats" "fst blockC = VBlock" "fst energyC = VEnergy" "fst tokenC = VToken"
  "fst pollC = VPoll" "fst pollsC = VPolls" "fst pollResultsC = VPollResults" "fst ideaC = VIdea"
  "fst ideasC = VIdeas" "fst githubC = VGithub" "fst voteC (VoteNum w) = VVote w" "fst voteC (VoteText t) = VStr t"
  by (simp_all add: codec_defs)

lemma codec_okD: "codec_ok c \<Longrightarrow> snd c (fst c a) = Inr a"
  by (simp add: codec_ok_def)


section \<open>Configuration and third-party code\<close>

record gas_config =
  gas_energy :: int
  gas_tokenSnapshot :: int
  gas_onChainDirect :: int
  gas_onChainLegacyDelegation :: int
  gas_onChainLiquidStakingDelegation :: int

record on_chain_entry =
  onChainId :: int
  oc_faq :: "faq_item list"
  excludedAddresses :: "(string \<times> string) list"

text \<open>Arguments of a contract call: typed values, or plain ones that the SDK types by the ABI.\<close>

datatype sc_arg =
    U64Value bn | U32Value int | BigUIntValue bn | BytesValue string | StringValue string
  | AddressValue string | StringsValue "string list" | PlainNum int | PlainStr string

datatype sdk_vote = YES | NO | VETO | ABSTAIN

record smart_contract =
  sc_address :: string
  sc_abi :: jsval

record interaction =
  int_contract :: smart_contract
  int_endpoint :: string
  int_args :: "sc_arg list"

record query =
  q_address :: string
  q_function :: string
  q_args :: "string list"

record query_response =
  returnData :: "string list"
  returnCode :: string
  returnMessage :: string

text \<open>What a transaction builder of the SDK is asked for, and the transaction object it returns.\<close>

record tx_request =
  rq_interaction :: interaction
  rq_gasLimit :: int
  rq_chainID :: string

record sdk_transaction =
  st_nonce :: int
  st_value :: int
  st_sender :: string
  st_receiver :: string
  st_senderUsername :: "string option"
  st_receiverUsername :: "string option"
  st_gasPrice :: int
  st_gasLimit :: int
  st_data :: "string option"
  st_chainID :: string
  st_version :: int
  st_options :: "int option"
  st_guardian :: "string option"
  st_signature :: "string option"
  st_guardianSignature :: "string option"

record contract_execute_input =
  ce_contract :: string
  ce_gasLimit :: int
  ce_function :: string
  ce_arguments :: "sc_arg list"

text \<open>A search of Elasticsearch: an index and the pairs of its match conditions.\<close>

record elastic_query =
  eq_collection :: string
  eq_must :: "(string \<times> string) list"

record elastic_event =
  ev_topics :: "string list"

record libs =
  chainID :: string
  oneSecond :: int
  oneMinute :: int
  oneHour :: int
  oneDay :: int
  governanceConfig :: "(string \<times> (string \<times> string list) list) list"
  requestExplicitContracts :: "string list option"
  delegateStakingProviders :: "delegate_staking_provider list"
  onChainConfig :: "on_chain_entry list"
  gasConfig :: gas_config
  existingProposals :: int
  abi_lockedAssetFactory :: string
  abi_simpleLockEnergy :: string
  abi_governance :: "string \<Rightarrow> string option"
  lockedAssetAddress :: string
  simpleLockEnergy :: string
  stakingContract :: string
  snapshotsPath :: string
  apiUrl :: string
  githubOwner :: string
  githubRepository :: string
  githubBranch :: string
  githubToken :: "string option"
  githubClientId :: "string option"
  githubClientSecret :: "string option"
  repoPath :: string
  ev_UP :: string
  ev_DOWN :: string
  ev_DOWN_VETO :: string
  ev_ABSTAIN :: string
  ev_ENERGY_UPDATED :: string
  addressHex :: "string \<Rightarrow> exn + string"
  hexToBech32 :: "string \<Rightarrow> exn + string"
  bigUIntHex :: "bn \<Rightarrow> exn + string"
  sha256 :: "string \<Rightarrow> string"
  hexRoot :: "string list \<Rightarrow> string"
  hexProof :: "string list \<Rightarrow> string \<Rightarrow> string list"
  verifyProofLib :: "string list \<Rightarrow> string \<Rightarrow> bool"
  treeDepth :: "string list \<Rightarrow> int"
  JSON_parse :: "string \<Rightarrow> exn + jsval"
  energyFromDecoded :: "scval \<Rightarrow> exn + energy"
  paymentFromDecoded :: "scval \<Rightarrow> exn + esdt_payment"
  sdkVoteName :: "sdk_vote \<Rightarrow> string"
  buildQuery :: "interaction \<Rightarrow> exn + query"
  buffersToValues :: "string list \<Rightarrow> jsval \<Rightarrow> string \<Rightarrow> exn + scval list"
  returnDataParts :: "string list \<Rightarrow> string list"
  buildTransaction :: "tx_request \<Rightarrow> exn + transaction_model"
  newProposalTx :: "string \<Rightarrow> create_proposal_args \<Rightarrow> exn + sdk_transaction"
  closingProposalTx :: "string \<Rightarrow> int \<Rightarrow> exn + sdk_transaction"
  votingTx :: "string \<Rightarrow> int \<Rightarrow> sdk_vote \<Rightarrow> exn + sdk_transaction"
  executeTx :: "string \<Rightarrow> contract_execute_input \<Rightarrow> exn + sdk_transaction"
  toPlainObject :: "sdk_transaction \<Rightarrow> transaction_model"

text \<open>An answer of \<open>fetch\<close>; reading its body as JSON may fail.\<close>

record fetch_response =
  fr_ok :: bool
  fr_statusText :: string
  fr_json :: "exn + jsval"
  fr_text :: string

text \<open>
  The services with effects run on the state \<open>'s\<close>, which holds the process's own state and whatever
  the outside world keeps.
\<close>

record 's env = libs +
  getOrSet :: "string \<Rightarrow> ('s, cval) prog \<Rightarrow> int \<Rightarrow> int option \<Rightarrow> ('s, cval) prog"
  cacheGet :: "string \<Rightarrow> ('s, cval option) prog"
  cacheSet :: "string \<Rightarrow> cval \<Rightarrow> int \<Rightarrow> int option \<Rightarrow> ('s, unit) prog"
  deleteInCache :: "string \<Rightarrow> ('s, unit) prog"
  deleteLocal :: "string \<Rightarrow> ('s, unit) prog"
  publishKeys :: "string \<Rightarrow> string list \<Rightarrow> ('s, unit) prog"
  publishEvent :: "string \<Rightarrow> ('s, unit) prog"
  readFile :: "string \<Rightarrow> ('s, string) prog"
  fileAccess :: "string \<Rightarrow> ('s, unit) prog"
  proxyGet :: "string \<Rightarrow> ('s, jsval) prog"
  apiProviderGet :: "string \<Rightarrow> ('s, jsval) prog"
  apiServiceGet :: "string \<Rightarrow> ('s, jsval) prog"
  delay :: "int \<Rightarrow> ('s, unit) prog"
  queryContract :: "query \<Rightarrow> ('s, query_response) prog"
  fungibleToken :: "string \<Rightarrow> ('s, string \<times> int) prog"
  controller_getConfig :: "('s, jsval) prog"
  controller_getProposal :: "int \<Rightarrow> ('s, jsval) prog"
  controller_getVotingPower :: "string \<Rightarrow> ('s, int) prog"
  scController_query :: "string \<Rightarrow> string \<Rightarrow> sc_arg list \<Rightarrow> ('s, string list) prog"
  pulseQuery :: "string \<Rightarrow> string \<Rightarrow> sc_arg list \<Rightarrow> ('s, jsval list) prog"
  elasticSearch :: "elastic_query \<Rightarrow> ('s, elastic_event list) prog"
  fetchUrl :: "string \<Rightarrow> string option \<Rightarrow> ('s, fetch_response) prog"
  gitFetch :: "('s, unit) prog"
  gitCheckout :: "string \<Rightarrow> ('s, unit) prog"
  gitPull :: "string \<Rightarrow> ('s, unit) prog"
  gitClone :: "string \<Rightarrow> ('s, unit) prog"
  gitLog :: "('s, string list) prog"
  gitRaw :: "string list \<Rightarrow> ('s, string) prog"
  gitDiff :: "string list \<Rightarrow> ('s, string) prog"
  gitShow :: "string \<Rightarrow> ('s, string) prog"
  removePath :: "string \<Rightarrow> ('s, unit) prog"
  axiosRequest :: "string \<Rightarrow> string \<Rightarrow> jsval \<Rightarrow> string option \<Rightarrow> ('s, jsval) prog"
  now :: "('s, int) prog"

text \<open>A balance in a snapshot, and the tree \<open>MerkleTreeUtils\<close> builds from the hashes of its leaves.\<close>

record address_voting_power =
  av_address :: string
  av_balance :: string

record merkle_tree =
  mt_hashes :: "string list"
  mt_leaves :: "address_voting_power list"

text \<open>The state the process keeps in static and instance fields.\<close>

record service_state =
  smartContracts :: "string \<Rightarrow> smart_contract option"
  merkleTrees :: "string \<Rightarrow> merkle_tree option"
  providerTrees :: "string \<Rightarrow> merkle_tree option"
  invalidatedKeys :: "string list"
  gitReady :: bool

type_synonym 'x st = "'x service_state_scheme"

end
