(* ===== verification/Gov_Cache.thy ===== *)
theory Gov_Cache
  imports Gov_Environment
begin

text \<open>
  The cache as the service uses it: the keys of \<open>src/utils/generate-cache-key.ts\<close>, the decorator
  \<open>GetOrSetCache\<close>, the generic getter and setter, the time-to-live table, the setter services that
  write the keys the decorated getters read, and the controller that drops local keys. The locale
  \<open>cached_entry\<close> states the contract of a getter and a setter that share a key; it is interpreted
  for every such pair in the theory of the getter. A cached object is a value: that the local cache
  may share it with its callers, and that entries expire, is not modelled.
\<close>

section \<open>Keys\<close>

text \<open>\<open>JSON.stringify\<close>, with a \<open>BigInt\<close> as the text of its number.\<close>

definition json_quote :: "string \<Rightarrow> string" where
  "json_quote s =
     CHR 0x22 # concat (map (\<lambda>c. if c = CHR 0x22 \<or> c = CHR 0x5C then [CHR 0x5C, c]
       else if c = CHR 0x0A then [CHR 0x5C, CHR ''n''] else [c]) s) @ [CHR 0x22]"

fun json_stringify :: "jsval \<Rightarrow> string" where
  "json_stringify JUndef = ''null''"
| "json_stringify JNull = ''null''"
| "json_stringify (JBool b) = (if b then ''true'' else ''false'')"
| "json_stringify (JNum x) = (case x of BFin m k \<Rightarrow> bn_toFixed x | _ \<Rightarrow> ''null'')"
| "json_stringify (JBig n) = json_quote (show_int n)"
| "json_stringify (JStr s) = json_quote s"
| "json_stringify (JAddr a) = json_quote a"
| "json_stringify (JArr xs) = ''['' @ join '','' (map json_stringify xs) @ '']''"
| "json_stringify (JObj fs) =
     ''{'' @ join '','' (map (\<lambda>(k, v). json_quote k @ '':'' @ json_stringify v)
                        (filter (\<lambda>(k, v). v \<noteq> JUndef) fs)) @ ''}''"

text \<open>An argument of a key: a string, a number, or an object that is written as JSON.\<close>

datatype key_arg = KStr string | KNum int | KObj jsval

fun render_arg :: "key_arg \<Rightarrow> string" where
  "render_arg (KStr s) = s"
| "render_arg (KNum n) = show_int n"
| "render_arg (KObj v) = json_stringify v"

definition generateCacheKeyFromParams :: "key_arg list \<Rightarrow> string" where
  "generateCacheKeyFromParams args =
     js_slice 0 (- 1) (concat (map (\<lambda>a. render_arg a @ ''.'') args))"

lemma cache_key_join:
  "args \<noteq> [] \<Longrightarrow> generateCacheKeyFromParams args = join ''.'' (map render_arg args)"
proof -
  have "ss \<noteq> [] \<Longrightarrow> concat (map (\<lambda>s. s @ ''.'') ss) = join ''.'' ss @ ''.''" for ss :: "string list"
    by (induction "''.''" ss rule: join.induct) simp_all
  from this [of "map render_arg args"] show "args \<noteq> [] \<Longrightarrow> ?thesis"
    by (simp add: generateCacheKeyFromParams_def comp_def)
qed

text \<open>
  Two lists of arguments without a dot have the same key only if they are rendered alike: the
  separator makes the key unambiguous.
\<close>

definition dotless :: "key_arg \<Rightarrow> bool" where
  "dotless a \<longleftrightarrow> CHR ''.'' \<notin> set (render_arg a)"

lemma dotless_KNum [simp]: "dotless (KNum n)"
  by (simp add: dotless_def show_int_no_dot)

lemma cache_key_inj:
  assumes "generateCacheKeyFromParams as = generateCacheKeyFromParams bs"
    and "as \<noteq> []" "bs \<noteq> []" "list_all dotless as" "list_all dotless bs"
  shows "map render_arg as = map render_arg bs"
  using assms join_char_inj [of "CHR ''.''" "map render_arg as" "map render_arg bs"]
  by (simp add: cache_key_join dotless_def list_all_iff)

text \<open>Arguments of the same kinds that are rendered alike are equal, unless they are objects.\<close>

fun same_kind :: "key_arg \<Rightarrow> key_arg \<Rightarrow> bool" where
  "same_kind (KStr a) (KStr b) = True"
| "same_kind (KNum a) (KNum b) = True"
| "same_kind _ _ = False"

lemma render_arg_inj: "same_kind a b \<Longrightarrow> render_arg a = render_arg b \<Longrightarrow> a = b"
  by (cases a; cases b) (auto dest: show_int_inj)

section \<open>Times to live\<close>

type_synonym ttl = "int \<times> int option"

definition ttl_Token :: "'s env \<Rightarrow> ttl" where
  "ttl_Token E = (oneMinute E * 10, Some (oneMinute E * 5))"

definition ttl_ContractState :: "'s env \<Rightarrow> ttl" where
  "ttl_ContractState E = (oneMinute E * 10, Some (oneMinute E * 3))"

definition ttl_ContractInfo :: "'s env \<Rightarrow> ttl" where
  "ttl_ContractInfo E = (oneMinute E * 3, Some (oneMinute E))"

definition ttl_ContractBalance :: "'s env \<Rightarrow> ttl" where
  "ttl_ContractBalance E = (oneMinute E, Some (oneSecond E * 30))"

definition ttl_Price :: "'s env \<Rightarrow> ttl" where
  "ttl_Price E = (oneMinute E, Some (oneSecond E * 30))"

definition ttl_Analytics :: "'s env \<Rightarrow> ttl" where
  "ttl_Analytics E = (oneMinute E * 30, Some (oneMinute E * 10))"

definition ttl_BlockTime :: "'s env \<Rightarrow> ttl" where
  "ttl_BlockTime E = (oneSecond E * 6, Some (oneSecond E * 6))"

definition ttl_Attributes :: "'s env \<Rightarrow> ttl" where
  "ttl_Attributes E = (oneHour E, Some (oneMinute E * 45))"

definition ttl_GithubProposals :: "'s env \<Rightarrow> ttl \<times> string" where
  "ttl_GithubProposals E =
     ((oneMinute E * 3, Some (oneMinute E * 3)), ''governance:github:proposals'')"

definition ttl_DynamicInfo :: "'s env \<Rightarrow> ttl" where
  "ttl_DynamicInfo E = (oneMinute E * 3, Some (oneMinute E * 3))"

section \<open>Reading through the cache\<close>

definition cached :: "'s env \<Rightarrow> string \<Rightarrow> ttl \<Rightarrow> 'a codec \<Rightarrow> ('s, 'a) prog \<Rightarrow> ('s, 'a) prog" where
  "cached E key t c body =
     mbind (getOrSet E key (mbind body (\<lambda>a. mret (fst c a))) (fst t) (snd t)) (\<lambda>v. mlift (snd c v))"

text \<open>The decorator: the key is the base key, the method's name and its arguments.\<close>

definition GetOrSetCache ::
  "'s env \<Rightarrow> string \<Rightarrow> ttl \<Rightarrow> string \<Rightarrow> key_arg list \<Rightarrow> 'a codec \<Rightarrow> ('s, 'a) prog \<Rightarrow> ('s, 'a) prog" where
  "GetOrSetCache E baseKey t propertyKey args c originalMethod =
     cached E (generateCacheKeyFromParams (KStr baseKey # KStr propertyKey # args)) t c originalMethod"

text \<open>\<open>GenericGetterService\<close>: \<open>getData\<close> logs and rethrows what \<open>getOrSet\<close> throws.\<close>

definition getData :: "'s env \<Rightarrow> string \<Rightarrow> 'a codec \<Rightarrow> ('s, 'a) prog \<Rightarrow> ttl \<Rightarrow> ('s, 'a) prog" where
  "getData E cacheKey c createValueFunc t =
     mtry (cached E cacheKey t c createValueFunc) (\<lambda>error. mthrow error)"

definition getCacheKey :: "string \<Rightarrow> key_arg list \<Rightarrow> string" where
  "getCacheKey baseKey args = generateCacheKeyFromParams (KStr baseKey # args)"

lemma getData_eq: "getData E k c f t = cached E k t c f"
  by (rule ext) (auto simp: getData_def mtry_def split: prod.splits sum.splits)


section \<open>Writing to the cache\<close>

definition setData :: "'s env \<Rightarrow> string \<Rightarrow> cval \<Rightarrow> ttl \<Rightarrow> ('s, string) prog" where
  "setData E cacheKey v t = mthen (cacheSet E cacheKey v (fst t) (snd t)) (mret cacheKey)"

definition delData :: "'s env \<Rightarrow> string \<Rightarrow> ('s, string) prog" where
  "delData E cacheKey =
     mtry (mthen (deleteInCache E cacheKey) (mret cacheKey)) (\<lambda>error. mthrow error)"

text \<open>\<open>CacheController.deleteCacheKey\<close> does not wait for the deletions it starts.\<close>

definition deleteCacheKey :: "'s env \<Rightarrow> string list \<Rightarrow> ('s, unit) prog" where
  "deleteCacheKey E keys =
     mfold (\<lambda>_ key. mbind (mattempt (deleteLocal E key)) (\<lambda>_. mret ())) () keys"


section \<open>What the cache service promises\<close>

text \<open>
  The documented behaviour of the cache service that properties rely on, for an entry that has not
  expired: \<open>visible s k\<close> is the value a reader finds. A hit returns it and runs nothing; a miss runs
  the function, stores its value and returns it, and stores nothing when it throws; a write makes
  its value visible; a deletion removes it; and neither changes another key. This is the cache as one process
  sees it while it has no copies that others make stale, a single level in which a hit changes nothing: the
  copy that a hit in Redis leaves in the memory of the process, and the copies of other processes, are the
  subject of \<open>Gov_Fleet\<close> (\<open>two_level\<close>).
\<close>

definition caching :: "'s env \<Rightarrow> ('s \<Rightarrow> string \<Rightarrow> cval option) \<Rightarrow> bool" where
  "caching E visible \<longleftrightarrow>
     (\<forall>s k v f r l. visible s k = Some v \<longrightarrow> getOrSet E k f r l s = (Inr v, s)) \<and>
     (\<forall>s k f r l e s1. visible s k = None \<and> f s = (Inl e, s1) \<longrightarrow>
        getOrSet E k f r l s = (Inl e, s1)) \<and>
     (\<forall>s k f r l v s1. visible s k = None \<and> f s = (Inr v, s1) \<longrightarrow>
        (\<exists>s2. getOrSet E k f r l s = (Inr v, s2) \<and> visible s2 = (visible s1)(k \<mapsto> v))) \<and>
     (\<forall>s k v r l. \<exists>s'. cacheSet E k v r l s = (Inr (), s') \<and> visible s' = (visible s)(k \<mapsto> v)) \<and>
     (\<forall>s k. \<exists>s'. deleteInCache E k s = (Inr (), s') \<and> visible s' = (visible s)(k := None))"

lemma caching_hit:
  "caching E visible \<Longrightarrow> visible s k = Some v \<Longrightarrow> getOrSet E k f r l s = (Inr v, s)"
  by (simp add: caching_def)

lemma caching_miss_error:
  "caching E visible \<Longrightarrow> visible s k = None \<Longrightarrow> f s = (Inl e, s1) \<Longrightarrow>
   getOrSet E k f r l s = (Inl e, s1)"
  by (simp add: caching_def)

lemma caching_miss:
  assumes "caching E visible" "visible s k = None" "f s = (Inr v, s1)"
  obtains s2 where "getOrSet E k f r l s = (Inr v, s2)" "visible s2 = (visible s1)(k \<mapsto> v)"
proof -
  have "\<exists>s2. getOrSet E k f r l s = (Inr v, s2) \<and> visible s2 = (visible s1)(k \<mapsto> v)"
    using assms by (simp add: caching_def)
  then show thesis using that by blast
qed

lemma caching_set:
  assumes "caching E visible"
  obtains s' where "cacheSet E k v r l s = (Inr (), s')" "visible s' = (visible s)(k \<mapsto> v)"
proof -
  have "\<exists>s'. cacheSet E k v r l s = (Inr (), s') \<and> visible s' = (visible s)(k \<mapsto> v)"
    using assms by (simp add: caching_def)
  then show thesis using that by blast
qed

lemma caching_delete:
  assumes "caching E visible"
  obtains s' where "deleteInCache E k s = (Inr (), s')" "visible s' = (visible s)(k := None)"
proof -
  have "\<exists>s'. deleteInCache E k s = (Inr (), s') \<and> visible s' = (visible s)(k := None)"
    using assms by (simp add: caching_def)
  then show thesis using that by blast
qed

lemma cached_hit:
  assumes "caching E visible" "codec_ok c" "visible s k = Some (fst c a)"
  shows "cached E k t c body s = (Inr a, s)"
  using caching_hit [OF assms(1,3)] codec_okD [OF assms(2)] by (simp add: cached_def)

lemma cached_miss_error:
  assumes "caching E visible" "visible s k = None" "body s = (Inl e, s1)"
  shows "cached E k t c body s = (Inl e, s1)"
  using caching_miss_error [OF assms(1,2), of "mbind body (\<lambda>a. mret (fst c a))" e s1] assms(3)
  by (simp add: cached_def)

lemma cached_miss:
  assumes "caching E visible" "codec_ok c" "visible s k = None" "body s = (Inr a, s1)"
  obtains s2 where "cached E k t c body s = (Inr a, s2)" "visible s2 = (visible s1)(k \<mapsto> fst c a)"
proof -
  have "mbind body (\<lambda>a. mret (fst c a)) s = (Inr (fst c a), s1)"
    using assms(4) by simp
  then obtain s2 where "getOrSet E k (mbind body (\<lambda>a. mret (fst c a))) (fst t) (snd t) s =
      (Inr (fst c a), s2)" "visible s2 = (visible s1)(k \<mapsto> fst c a)"
    using caching_miss [where f = "mbind body (\<lambda>a. mret (fst c a))", OF assms(1,3)] by blast
  then show thesis
    using codec_okD [OF assms(2), of a] by (intro that [of s2]) (simp_all add: cached_def)
qed

lemma cached_miss_ex:
  assumes "caching E visible" "codec_ok c" "visible s k = None" "body s = (Inr a, s1)"
  shows "\<exists>s2. cached E k t c body s = (Inr a, s2) \<and> visible s2 = (visible s1)(k \<mapsto> fst c a)"
  by (rule cached_miss [where visible = visible and s = s and k = k and body = body and a = a and t = t,
      OF assms]) blast

lemma setData_visible:
  assumes "caching E visible"
  obtains s' where "setData E k v t s = (Inr k, s')" "visible s' = (visible s)(k \<mapsto> v)"
  using caching_set [OF assms, of k v "fst t" "snd t" s]
  by (metis setData_def mthen_Inr_eq mret_apply)

lemma delData_visible:
  assumes "caching E visible"
  obtains s' where "delData E k s = (Inr k, s')" "visible s' = (visible s)(k := None)"
  using caching_delete [OF assms, of k s]
  by (metis delData_def mtry_Inr mthen_Inr_eq mret_apply)

end
