(* ===== verification/Gov_Setters.thy ===== *)
theory Gov_Setters
  imports Gov_Cache
begin

text \<open>
  The setter services (\<open>governance.setter.service.ts\<close>, \<open>pulse.setter.service.ts\<close>,
  \<open>energy.setter.service.ts\<close>), the contract of a getter and a setter that share a key, and an
  in-memory instance of the environment, on which hypotheses about third-party code are shown to
  hold together.
\<close>

section \<open>GovernanceSetterService\<close>

definition set_userVotedProposals :: "'s env \<Rightarrow> string \<Rightarrow> string \<Rightarrow> int list \<Rightarrow> ('s, string) prog" where
  "set_userVotedProposals E scAddress userAddress value =
     setData E (getCacheKey ''governance'' [KStr ''userVotedProposals'', KStr scAddress, KStr userAddress])
       (VNums value) (ttl_ContractState E)"

definition set_userVoteTypesForContract ::
  "'s env \<Rightarrow> string \<Rightarrow> string \<Rightarrow> (int \<times> VoteType) list \<Rightarrow> ('s, string) prog" where
  "set_userVoteTypesForContract E scAddress userAddress value =
     setData E (getCacheKey ''governance'' [KStr ''userVoteTypesForContract'', KStr scAddress, KStr userAddress])
       (VVoteTypes value) (ttl_ContractState E)"

definition set_proposalVotes :: "'s env \<Rightarrow> string \<Rightarrow> int \<Rightarrow> proposal_votes \<Rightarrow> ('s, string) prog" where
  "set_proposalVotes E scAddress pid value =
     setData E (getCacheKey ''governance'' [KStr ''proposalVotes'', KStr scAddress, KNum pid])
       (VVotes value) (ttl_ContractState E)"

definition set_proposals :: "'s env \<Rightarrow> string \<Rightarrow> governance_proposal list \<Rightarrow> ('s, string) prog" where
  "set_proposals E scAddress value =
     setData E (getCacheKey ''governance'' [KStr ''proposals'', KStr scAddress])
       (VProposals value) (ttl_ContractState E)"

definition set_getProposal :: "'s env \<Rightarrow> int \<Rightarrow> proposal_info \<Rightarrow> ('s, string) prog" where
  "set_getProposal E proposalID value =
     setData E (getCacheKey ''governance'' [KStr ''getProposal'', KNum proposalID])
       (VInfo value) (ttl_ContractState E)"

definition set_getConfig :: "'s env \<Rightarrow> governance_config_model \<Rightarrow> ('s, string) prog" where
  "set_getConfig E value =
     setData E (getCacheKey ''governance'' [KStr ''getConfig'']) (VConfig value) (ttl_ContractState E)"

definition set_proposalStatus ::
  "'s env \<Rightarrow> string \<Rightarrow> int \<Rightarrow> GovernanceProposalStatus option \<Rightarrow> ('s, string) prog" where
  "set_proposalStatus E scAddress pid value =
     setData E (getCacheKey ''governance'' [KStr ''proposalStatus'', KStr scAddress, KNum pid])
       (VStatus value) (ttl_ContractState E)"

definition set_getUserVoteOnChain ::
  "'s env \<Rightarrow> string \<Rightarrow> string \<Rightarrow> int \<Rightarrow> string \<Rightarrow> ('s, string) prog" where
  "set_getUserVoteOnChain E scAddress userAddress pid value =
     setData E (getCacheKey ''governance''
       [KStr ''getUserVoteOnChain'', KStr scAddress, KStr userAddress, KNum pid])
       (VStr value) (ttl_ContractState E)"

definition set_delegateUserVotingPowers ::
  "'s env \<Rightarrow> string \<Rightarrow> int \<Rightarrow> delegate_user_voting_power list \<Rightarrow> ('s, string) prog" where
  "set_delegateUserVotingPowers E userAddress pid value =
     setData E (getCacheKey ''governance'' [KStr ''delegateUserVotingPowers'', KStr userAddress, KNum pid])
       (VPowers value) (ttl_ContractState E)"

definition deleteUserVotingPower :: "'s env \<Rightarrow> string \<Rightarrow> int \<Rightarrow> string \<Rightarrow> ('s, string) prog" where
  "deleteUserVotingPower E scAddress pid userAddress =
     delData E (getCacheKey ''governance''
       [KStr ''userVotingPower'', KStr scAddress, KNum pid, KStr userAddress])"

section \<open>PulseSetterService and EnergySetterService\<close>

definition set_getTotalPolls :: "'s env \<Rightarrow> string \<Rightarrow> int \<Rightarrow> ('s, string) prog" where
  "set_getTotalPolls E scAddress value =
     setData E (getCacheKey ''pulse'' [KStr ''getTotalPolls'', KStr scAddress])
       (VNum value) (ttl_ContractState E)"

definition set_getTotalIdeas :: "'s env \<Rightarrow> string \<Rightarrow> int \<Rightarrow> ('s, string) prog" where
  "set_getTotalIdeas E scAddress value =
     setData E (getCacheKey ''pulse'' [KStr ''getTotalIdeas'', KStr scAddress])
       (VNum value) (ttl_ContractState E)"

definition set_getIdea :: "'s env \<Rightarrow> string \<Rightarrow> int \<Rightarrow> pulse_idea \<Rightarrow> ('s, string) prog" where
  "set_getIdea E scAddress ideaID value =
     setData E (getCacheKey ''pulse'' [KStr ''getIdea'', KStr scAddress, KNum ideaID])
       (VIdea value) (ttl_ContractState E)"

definition set_getPoll :: "'s env \<Rightarrow> string \<Rightarrow> int \<Rightarrow> pulse_poll \<Rightarrow> ('s, string) prog" where
  "set_getPoll E scAddress pid value =
     setData E (getCacheKey ''pulse'' [KStr ''getPoll'', KStr scAddress, KNum pid])
       (VPoll value) (ttl_ContractState E)"

definition set_getPollResults :: "'s env \<Rightarrow> string \<Rightarrow> int \<Rightarrow> poll_results \<Rightarrow> ('s, string) prog" where
  "set_getPollResults E scAddress pid value =
     setData E (getCacheKey ''pulse'' [KStr ''getPollResults'', KStr scAddress, KNum pid])
       (VPollResults value) (ttl_ContractState E)"

definition set_getUserVotePulse :: "'s env \<Rightarrow> string \<Rightarrow> string \<Rightarrow> int \<Rightarrow> bn \<Rightarrow> ('s, string) prog" where
  "set_getUserVotePulse E scAddress userAddress pid value =
     setData E (getCacheKey ''pulse''
       [KStr ''getUserVotePulse'', KStr scAddress, KStr userAddress, KNum pid])
       (VBn value) (ttl_ContractState E)"

definition set_hasUserVotedIdea :: "'s env \<Rightarrow> string \<Rightarrow> string \<Rightarrow> int \<Rightarrow> bool \<Rightarrow> ('s, string) prog" where
  "set_hasUserVotedIdea E scAddress userAddress iid value =
     setData E (getCacheKey ''pulse''
       [KStr ''hasUserVotedIdea'', KStr scAddress, KStr userAddress, KNum iid])
       (VBool value) (ttl_ContractState E)"

definition set_getIdeaVotesTotalCount :: "'s env \<Rightarrow> string \<Rightarrow> int \<Rightarrow> int \<Rightarrow> ('s, string) prog" where
  "set_getIdeaVotesTotalCount E scAddress iid value =
     setData E (getCacheKey ''pulse'' [KStr ''getIdeaVotesTotalCount'', KStr scAddress, KNum iid])
       (VNum value) (ttl_ContractState E)"

definition setEnergyEntryForUser :: "'s env \<Rightarrow> string \<Rightarrow> energy \<Rightarrow> ('s, string) prog" where
  "setEnergyEntryForUser E userAddress value =
     setData E (getCacheKey ''energy'' [KStr ''energyEntryForUser'', KStr userAddress])
       (VEnergy value) (oneMinute E, None)"


section \<open>A getter and a setter of one key\<close>

text \<open>
  The contract that lets an event handler update what the resolvers read: the decorated getter and
  the setter compute the same key from the same arguments and store the same type.
\<close>

locale cached_entry =
  fixes E :: "'s env"
    and key :: "'k \<Rightarrow> string"
    and c :: "'a codec"
    and get :: "'k \<Rightarrow> ('s, 'a) prog"
    and put :: "'k \<Rightarrow> 'a \<Rightarrow> ('s, string) prog"
  assumes codec: "codec_ok c"
    and read_cached: "\<exists>t body. get k = cached E (key k) t c body"
    and write_set: "\<exists>t. put k a = setData E (key k) (fst c a) t"
begin

lemma write_visible:
  assumes "caching E visible"
  obtains s' where "put k a s = (Inr (key k), s')" "visible s' = (visible s)(key k \<mapsto> fst c a)"
  using write_set [of k a] setData_visible [OF assms] by metis

lemma write_then_read:
  assumes "caching E visible" and "put k a s = (r, s')"
  shows "r = Inr (key k)" and "get k s' = (Inr a, s')"
proof -
  obtain s2 where s2: "put k a s = (Inr (key k), s2)" "visible s2 = (visible s)(key k \<mapsto> fst c a)"
    using write_visible [OF assms(1)] by blast
  with assms(2) show "r = Inr (key k)" by simp
  obtain t body where "get k = cached E (key k) t c body" using read_cached by blast
  with s2 assms(2) show "get k s' = (Inr a, s')"
    using cached_hit [OF assms(1) codec, of s2 "key k" a] by simp
qed

lemma read_after_other_write:
  assumes "caching E visible" and "put k a s = (r, s')"
    and "key j \<noteq> key k" and "get j s = (Inr b, s)" and "visible s (key j) = Some (fst c b)"
  shows "get j s' = (Inr b, s')"
proof -
  obtain s2 where "put k a s = (Inr (key k), s2)" "visible s2 = (visible s)(key k \<mapsto> fst c a)"
    using write_visible [OF assms(1)] by blast
  with assms have "visible s' (key j) = Some (fst c b)" by simp
  moreover obtain t body where "get j = cached E (key j) t c body" using read_cached by blast
  ultimately show ?thesis
    using cached_hit [OF assms(1) codec] by simp
qed

end


section \<open>An in-memory environment\<close>

text \<open>
  An environment whose cache is a map in the state and whose other services answer with an error or
  a constant. Nothing is proved about the program from it: it shows that \<open>caching\<close> can hold, and
  concrete inputs of the theorems override its fields.
\<close>

record memory_state = service_state +
  store :: "string \<Rightarrow> cval option"
  outside :: nat

definition empty_memory :: memory_state where
  "empty_memory = \<lparr>smartContracts = \<lambda>_. None, merkleTrees = \<lambda>_. None, providerTrees = \<lambda>_. None,
     invalidatedKeys = [], gitReady = False, store = \<lambda>_. None, outside = 0\<rparr>"

definition memory_getOrSet ::
  "string \<Rightarrow> (memory_state, cval) prog \<Rightarrow> int \<Rightarrow> int option \<Rightarrow> (memory_state, cval) prog" where
  "memory_getOrSet k f r l s =
     (case store s k of
        Some v \<Rightarrow> (Inr v, s)
      | None \<Rightarrow> (case f s of
            (Inl e, s1) \<Rightarrow> (Inl e, s1)
          | (Inr v, s1) \<Rightarrow> (Inr v, s1\<lparr>store := (store s1)(k \<mapsto> v)\<rparr>)))"

definition unavailable :: exn where
  "unavailable = PlainError ''unavailable''"

definition memory_env :: "memory_state env" where
  "memory_env =
    \<lparr>chainID = ''T'', oneSecond = 1, oneMinute = 60, oneHour = 3600, oneDay = 86400,
     governanceConfig = [], requestExplicitContracts = None, delegateStakingProviders = [],
     onChainConfig = [],
     gasConfig = \<lparr>gas_energy = 15000000, gas_tokenSnapshot = 35000000,
        gas_onChainDirect = 20000000, gas_onChainLegacyDelegation = 75000000,
        gas_onChainLiquidStakingDelegation = 100000000\<rparr>,
     existingProposals = 0,
     abi_lockedAssetFactory = ''./src/abis/factory.abi.json'',
     abi_simpleLockEnergy = ''./src/abis/energy-factory.abi.json'',
     abi_governance = (\<lambda>_. None), lockedAssetAddress = [], simpleLockEnergy = [],
     stakingContract = [], snapshotsPath = ''snapshots'', apiUrl = ''api'',
     githubOwner = ''owner'', githubRepository = ''repo'', githubBranch = ''main'',
     githubToken = Some ''token'', githubClientId = Some ''id'', githubClientSecret = Some ''secret'', repoPath = ''repo'',
     ev_UP = ''upVoteCast'', ev_DOWN = ''downVoteCast'', ev_DOWN_VETO = ''downVetoVoteCast'',
     ev_ABSTAIN = ''abstainVoteCast'', ev_ENERGY_UPDATED = ''energyUpdated'',
     addressHex = (\<lambda>a. Inr (to_hex a)), hexToBech32 = (\<lambda>h. Inr (from_hex h)),
     bigUIntHex = (\<lambda>x. case x of BFin n k \<Rightarrow> Inr (decimalToHex n) | _ \<Rightarrow> Inl TypeError),
     sha256 = (\<lambda>x. x), hexRoot = (\<lambda>hs. ''0x'' @ concat hs), hexProof = (\<lambda>hs h. filter (\<lambda>x. x \<noteq> h) hs),
     verifyProofLib = (\<lambda>hs h. h \<in> set hs), treeDepth = (\<lambda>hs. int (length hs)),
     JSON_parse = (\<lambda>_. Inl (PlainError ''Unexpected end of JSON input'')),
     energyFromDecoded = (\<lambda>_. Inl TypeError), paymentFromDecoded = (\<lambda>_. Inl TypeError),
     sdkVoteName = (\<lambda>v. case v of YES \<Rightarrow> ''yes'' | NO \<Rightarrow> ''no'' | VETO \<Rightarrow> ''veto'' | ABSTAIN \<Rightarrow> ''abstain''),
     buildQuery = (\<lambda>i. Inr \<lparr>q_address = sc_address (int_contract i), q_function = int_endpoint i,
                            q_args = []\<rparr>),
     buffersToValues = (\<lambda>_ _ _. Inr []), returnDataParts = (\<lambda>d. d),
     buildTransaction = (\<lambda>_. Inl unavailable), newProposalTx = (\<lambda>_ _. Inl unavailable),
     closingProposalTx = (\<lambda>_ _. Inl unavailable), votingTx = (\<lambda>_ _ _. Inl unavailable),
     executeTx = (\<lambda>_ _. Inl unavailable),
     toPlainObject = (\<lambda>t. \<lparr>tx_nonce = st_nonce t, tx_value = show_int (st_value t), tx_sender = st_sender t,
        tx_receiver = st_receiver t, tx_senderUsername = st_senderUsername t,
        tx_receiverUsername = st_receiverUsername t, tx_gasPrice = st_gasPrice t,
        tx_gasLimit = st_gasLimit t, tx_data = map_option to_base64 (st_data t), tx_chainID = st_chainID t,
        tx_version = st_version t, tx_options = st_options t, tx_guardian = st_guardian t,
        tx_signature = map_option to_hex (st_signature t),
        tx_guardianSignature = map_option to_hex (st_guardianSignature t)\<rparr>),
     getOrSet = memory_getOrSet,
     cacheGet = (\<lambda>k. mget (\<lambda>s. store s k)),
     cacheSet = (\<lambda>k v r l. mmodify (\<lambda>s. s\<lparr>store := (store s)(k \<mapsto> v)\<rparr>)),
     deleteInCache = (\<lambda>k. mmodify (\<lambda>s. s\<lparr>store := (store s)(k := None)\<rparr>)),
     deleteLocal = (\<lambda>k. mret ()),
     publishKeys = (\<lambda>_ _. mret ()), publishEvent = (\<lambda>_. mret ()),
     readFile = (\<lambda>_. mthrow unavailable), fileAccess = (\<lambda>_. mthrow unavailable),
     proxyGet = (\<lambda>_. mthrow unavailable), apiProviderGet = (\<lambda>_. mthrow unavailable),
     apiServiceGet = (\<lambda>_. mthrow unavailable), delay = (\<lambda>_. mret ()),
     queryContract = (\<lambda>_. mthrow unavailable), fungibleToken = (\<lambda>_. mthrow unavailable),
     controller_getConfig = mthrow unavailable, controller_getProposal = (\<lambda>_. mthrow unavailable),
     controller_getVotingPower = (\<lambda>_. mthrow unavailable),
     scController_query = (\<lambda>_ _ _. mthrow unavailable),
     pulseQuery = (\<lambda>_ _ _. mthrow unavailable),
     elasticSearch = (\<lambda>_. mret []),
     fetchUrl = (\<lambda>_ _. mthrow unavailable), gitFetch = mret (), gitCheckout = (\<lambda>_. mret ()),
     gitPull = (\<lambda>_. mret ()), gitClone = (\<lambda>_. mret ()), gitLog = mret [], gitRaw = (\<lambda>_. mret []),
     gitDiff = (\<lambda>_. mret []), gitShow = (\<lambda>_. mthrow unavailable), removePath = (\<lambda>_. mret ()),
     axiosRequest = (\<lambda>_ _ _ _. mthrow unavailable), now = mret 0\<rparr>"

text \<open>Overriding the services that are not the cache keeps the law of the cache.\<close>

definition memory_cache :: "memory_state env \<Rightarrow> bool" where
  "memory_cache E \<longleftrightarrow> getOrSet E = memory_getOrSet \<and>
     cacheSet E = cacheSet memory_env \<and> deleteInCache E = deleteInCache memory_env"

lemma memory_caching: "memory_cache E \<Longrightarrow> caching E store"
  unfolding caching_def
  by (intro conjI allI impI)
     (auto simp: memory_cache_def memory_getOrSet_def memory_env_def split: option.splits)

end
