(* ===== verification/Gov_Registry.thy ===== *)
theory Gov_Registry
  imports Gov_Setters
begin

text \<open>
  \<open>src/utils/governance.ts\<close>: which governance contract is of which type and smoothing function, and
  the conversions of statuses and vote names; the union types of \<open>governance.union.ts\<close>; the
  factories that choose a service by the type of a contract; and
  \<open>GovernanceTokenSnapshotService.getGovernanceContracts\<close>. The configuration is a list of types,
  each with a list of smoothing functions and their addresses, in the order \<open>Object.keys\<close> gives.
\<close>

section \<open>Types and smoothing functions\<close>

datatype GovernanceType = ENERGY | OLD_ENERGY | TOKEN_SNAPSHOT | ONCHAIN | PULSE

fun type_string :: "GovernanceType \<Rightarrow> string" where
  "type_string ENERGY = ''energy''"
| "type_string OLD_ENERGY = ''oldEnergy''"
| "type_string TOKEN_SNAPSHOT = ''tokenSnapshot''"
| "type_string ONCHAIN = ''onChain''"
| "type_string PULSE = ''pulse''"

definition toTypeEnum :: "string \<Rightarrow> GovernanceType option" where
  "toTypeEnum t =
     (if t = type_string ENERGY then Some ENERGY
      else if t = type_string TOKEN_SNAPSHOT then Some TOKEN_SNAPSHOT
      else if t = type_string OLD_ENERGY then Some OLD_ENERGY
      else if t = type_string ONCHAIN then Some ONCHAIN
      else if t = type_string PULSE then Some PULSE
      else None)"

datatype GovernanceSmoothingFunction = CVADRATIC | LINEAR

fun smoothing_string :: "GovernanceSmoothingFunction \<Rightarrow> string" where
  "smoothing_string CVADRATIC = ''cvadratic''"
| "smoothing_string LINEAR = ''linear''"

definition toSmoothingFunctionEnum :: "string \<Rightarrow> GovernanceSmoothingFunction option" where
  "toSmoothingFunctionEnum t =
     (if t = smoothing_string CVADRATIC then Some CVADRATIC
      else if t = smoothing_string LINEAR then Some LINEAR
      else None)"

lemma toTypeEnum_string [simp]: "toTypeEnum (type_string t) = Some t"
  by (cases t) (simp_all add: toTypeEnum_def)

lemma toTypeEnum_SomeD: "toTypeEnum s = Some t \<Longrightarrow> s = type_string t"
  unfolding toTypeEnum_def by (auto simp only: option.inject option.distinct split: if_split_asm)

lemma toTypeEnum_Some_iff: "toTypeEnum s = Some t \<longleftrightarrow> s = type_string t"
  using toTypeEnum_SomeD toTypeEnum_string by blast

lemma toSmoothing_string [simp]: "toSmoothingFunctionEnum (smoothing_string t) = Some t"
  by (cases t) (simp_all add: toSmoothingFunctionEnum_def)

type_synonym smoothing_config = "(string \<times> string list) list"

text \<open>The inner and the outer loop of \<open>governanceType\<close>, with the names at which they return.\<close>

fun find_smoothing :: "string \<Rightarrow> smoothing_config \<Rightarrow> string option" where
  "find_smoothing a [] = None"
| "find_smoothing a ((sm, addresses) # r) =
     (case List.find (\<lambda>x. x = a) addresses of
        Some _ \<Rightarrow> Some sm
      | None \<Rightarrow> find_smoothing a r)"

fun find_contract :: "string \<Rightarrow> (string \<times> smoothing_config) list \<Rightarrow> (string \<times> string) option" where
  "find_contract a [] = None"
| "find_contract a ((t, sms) # r) =
     (case find_smoothing a sms of
        Some sm \<Rightarrow> Some (t, sm)
      | None \<Rightarrow> find_contract a r)"

definition governanceType :: "'s env \<Rightarrow> string \<Rightarrow> GovernanceType option" where
  "governanceType E governanceAddress =
     (case find_contract governanceAddress (governanceConfig E) of
        Some (t, _) \<Rightarrow> toTypeEnum t
      | None \<Rightarrow> None)"

definition governanceSmoothingFunction :: "'s env \<Rightarrow> string \<Rightarrow> GovernanceSmoothingFunction option" where
  "governanceSmoothingFunction E governanceAddress =
     (case find_contract governanceAddress (governanceConfig E) of
        Some (_, sm) \<Rightarrow> toSmoothingFunctionEnum sm
      | None \<Rightarrow> None)"

text \<open>
  The addresses of the given types, or of all of them when none is given. A type that the
  configuration does not have makes \<open>Object.keys\<close> throw.
\<close>

definition addresses_of :: "smoothing_config \<Rightarrow> string list" where
  "addresses_of sms = concat (map snd sms)"

definition governanceContractsAddresses :: "'s env \<Rightarrow> string list option \<Rightarrow> exn + string list" where
  "governanceContractsAddresses E types =
     (let ts = (case types of None \<Rightarrow> map fst (governanceConfig E)
                | Some l \<Rightarrow> if l = [] then map fst (governanceConfig E) else l)
      in rbind (rmap (\<lambda>t. case map_of (governanceConfig E) t of
                            Some sms \<Rightarrow> Inr (addresses_of sms)
                          | None \<Rightarrow> Inl TypeError) ts)
               (\<lambda>ls. Inr (concat ls)))"

lemma find_smoothing_None_iff: "find_smoothing a sms = None \<longleftrightarrow> a \<notin> set (addresses_of sms)"
  by (induction sms) (auto simp: addresses_of_def find_None_iff find_Some_iff split: option.splits)

lemma find_smoothing_SomeD:
  "find_smoothing a sms = Some sm \<Longrightarrow> \<exists>as. (sm, as) \<in> set sms \<and> a \<in> set as"
  by (induction sms) (fastforce simp: find_None_iff find_Some_iff split: option.splits)+

lemma find_contract_None_iff:
  "find_contract a cfg = None \<longleftrightarrow> (\<forall>(t, sms)\<in>set cfg. a \<notin> set (addresses_of sms))"
proof (induction cfg)
  case (Cons x cfg)
  then show ?case
    by (cases x) (auto simp: find_smoothing_None_iff [symmetric] split: option.splits)
qed simp

lemma find_contract_SomeD:
  "find_contract a cfg = Some (t, sm) \<Longrightarrow>
     \<exists>sms as. (t, sms) \<in> set cfg \<and> (sm, as) \<in> set sms \<and> a \<in> set as"
proof (induction cfg)
  case (Cons x cfg)
  then show ?case
    by (cases x) (auto dest!: find_smoothing_SomeD split: option.splits)
qed simp

text \<open>The configuration is coherent when its types differ and no address is listed under two.\<close>

definition coherent_config :: "'s env \<Rightarrow> bool" where
  "coherent_config E \<longleftrightarrow>
     distinct (map fst (governanceConfig E)) \<and>
     distinct (concat (map (\<lambda>(t, sms). addresses_of sms) (governanceConfig E)))"

lemma find_contract_unique:
  assumes "distinct (concat (map (\<lambda>(t, sms). addresses_of sms) cfg))"
    and "(t, sms) \<in> set cfg" "a \<in> set (addresses_of sms)"
  shows "\<exists>sm. find_contract a cfg = Some (t, sm)"
  using assms
proof (induction cfg)
  case (Cons x cfg)
  obtain t' sms' where x: "x = (t', sms')" by (cases x)
  show ?case
  proof (cases "a \<in> set (addresses_of sms')")
    case True
    have "\<not> (\<exists>sms''. (t, sms'') \<in> set cfg \<and> a \<in> set (addresses_of sms''))"
      using Cons.prems(1) True x by fastforce
    with Cons.prems(2,3) x have "t' = t" by auto
    moreover obtain sm where "find_smoothing a sms' = Some sm"
      using True find_smoothing_None_iff [of a sms'] by (cases "find_smoothing a sms'") auto
    ultimately show ?thesis using x by simp
  next
    case False
    then have "(t, sms) \<in> set cfg" using Cons.prems(2,3) x by auto
    with Cons False x show ?thesis
      by (auto simp: find_smoothing_None_iff [THEN iffD2])
  qed
qed simp

lemma all_addresses:
  assumes "distinct (map fst (governanceConfig E))"
  shows "governanceContractsAddresses E None =
    Inr (concat (map (\<lambda>(t, sms). addresses_of sms) (governanceConfig E)))"
proof -
  let ?f = "\<lambda>t. case map_of (governanceConfig E) t of Some sms \<Rightarrow> Inr (addresses_of sms) | None \<Rightarrow> Inl TypeError"
  have "rmap ?f (map fst l) = Inr (map (\<lambda>(t, sms). addresses_of sms) l)"
    if "set l \<subseteq> set (governanceConfig E)" for l
    using that
  proof (induction l)
    case (Cons x l)
    then have "map_of (governanceConfig E) (fst x) = Some (snd x)"
      using assms by (intro map_of_is_SomeI) auto
    with Cons show ?case by (cases x) simp
  qed simp
  from this [of "governanceConfig E"] show ?thesis
    by (simp add: governanceContractsAddresses_def)
qed

section \<open>Statuses and votes\<close>

definition toGovernanceProposalStatus :: "string \<Rightarrow> GovernanceProposalStatus option" where
  "toGovernanceProposalStatus status =
     (if status = ''None'' then Some StatusNone
      else if status = ''Pending'' then Some Pending
      else if status = ''Active'' then Some Active
      else if status = ''Defeated'' then Some Defeated
      else if status = ''DefeatedWithVeto'' then Some DefeatedWithVeto
      else if status = ''Succeeded'' then Some Succeeded
      else None)"

text \<open>The names of the on-chain votes; those of the contracts' events belong to the SDK.\<close>

datatype GOVERNANCE_ONCHAIN_EVENTS = OC_YES | OC_NO | OC_VETO | OC_ABSTAIN

fun onchain_event_string :: "GOVERNANCE_ONCHAIN_EVENTS \<Rightarrow> string" where
  "onchain_event_string OC_YES = ''yes''"
| "onchain_event_string OC_NO = ''no''"
| "onchain_event_string OC_VETO = ''veto''"
| "onchain_event_string OC_ABSTAIN = ''abstain''"

definition toVoteType :: "'s env \<Rightarrow> string \<Rightarrow> VoteType" where
  "toVoteType E event =
     (if event = ev_UP E \<or> event = onchain_event_string OC_YES then UpVote
      else if event = ev_DOWN E \<or> event = onchain_event_string OC_NO then DownVote
      else if event = ev_DOWN_VETO E \<or> event = onchain_event_string OC_VETO then DownVetoVote
      else if event = ev_ABSTAIN E \<or> event = onchain_event_string OC_ABSTAIN then AbstainVote
      else NotVoted)"


section \<open>Contracts, unions and factories\<close>

datatype GovernanceUnion =
    GovernanceTokenSnapshotContract (address: string)
  | GovernanceEnergyContract (address: string)
  | GovernanceOnChainContract (address: string)
  | GovernancePulseContract (address: string)

fun constructor_name :: "GovernanceUnion \<Rightarrow> string" where
  "constructor_name (GovernanceTokenSnapshotContract a) = ''GovernanceTokenSnapshotContract''"
| "constructor_name (GovernanceEnergyContract a) = ''GovernanceEnergyContract''"
| "constructor_name (GovernanceOnChainContract a) = ''GovernanceOnChainContract''"
| "constructor_name (GovernancePulseContract a) = ''GovernancePulseContract''"

text \<open>The GraphQL type that the description union resolves a description to, by its version.\<close>

datatype description_class = ClassV0 | ClassV1 | ClassV2 | ClassV3

definition resolveDescriptionType :: "description \<Rightarrow> description_class option" where
  "resolveDescriptionType d =
     (if version d = 0 then Some ClassV0 else if version d = 1 then Some ClassV1
      else if version d = 2 then Some ClassV2 else if version d = 3 then Some ClassV3 else None)"

datatype service_class = TokenSnapshotService | EnergyService | OnChainService | PulseService

definition userService :: "'s env \<Rightarrow> string \<Rightarrow> service_class option" where
  "userService E scAddress =
     (case governanceType E scAddress of
        Some ENERGY \<Rightarrow> Some EnergyService
      | Some OLD_ENERGY \<Rightarrow> Some EnergyService
      | Some TOKEN_SNAPSHOT \<Rightarrow> Some TokenSnapshotService
      | Some ONCHAIN \<Rightarrow> Some OnChainService
      | Some PULSE \<Rightarrow> Some PulseService
      | None \<Rightarrow> None)"

datatype abi_class = EnergyAbi | OldEnergyAbi | TokenSnapshotAbi | OnChainAbi

text \<open>A contract of the pulse type has no service here: the factory returns \<open>undefined\<close>.\<close>

definition useAbi :: "'s env \<Rightarrow> string \<Rightarrow> abi_class option" where
  "useAbi E scAddress =
     (case governanceType E scAddress of
        Some ENERGY \<Rightarrow> Some EnergyAbi
      | Some TOKEN_SNAPSHOT \<Rightarrow> Some TokenSnapshotAbi
      | Some OLD_ENERGY \<Rightarrow> Some OldEnergyAbi
      | Some ONCHAIN \<Rightarrow> Some OnChainAbi
      | _ \<Rightarrow> None)"

record contracts_filters =
  f_identifiers :: "string list option"
  f_contracts :: "string list option"
  f_type :: "string option"

definition contract_instance :: "'s env \<Rightarrow> string \<Rightarrow> GovernanceUnion option" where
  "contract_instance E a =
     (case governanceType E a of
        Some ENERGY \<Rightarrow> Some (GovernanceEnergyContract a)
      | Some OLD_ENERGY \<Rightarrow> Some (GovernanceEnergyContract a)
      | Some TOKEN_SNAPSHOT \<Rightarrow> Some (GovernanceTokenSnapshotContract a)
      | Some ONCHAIN \<Rightarrow> Some (GovernanceOnChainContract a)
      | Some PULSE \<Rightarrow> Some (GovernancePulseContract a)
      | None \<Rightarrow> None)"

text \<open>
  The loop of \<open>getGovernanceContracts\<close>: an address that must be asked for explicitly is skipped
  unless the filter names it; with a type filter, an address of no known type throws, because the
  code reads the constructor of \<open>undefined\<close>.
\<close>

fun contracts_loop ::
  "'s env \<Rightarrow> contracts_filters \<Rightarrow> string list \<Rightarrow> exn + GovernanceUnion option list" where
  "contracts_loop E filters [] = Inr []"
| "contracts_loop E filters (a # as) =
     (if a \<in> set (case requestExplicitContracts E of None \<Rightarrow> [] | Some l \<Rightarrow> l) \<and>
         (case f_contracts filters of None \<Rightarrow> True | Some cs \<Rightarrow> a \<notin> set cs)
      then contracts_loop E filters as
      else
        (let contractInstance = contract_instance E a;
             typed = (case f_type filters of None \<Rightarrow> None | Some t \<Rightarrow> if t = [] then None else Some t)
         in case (typed, contractInstance) of
              (Some t, None) \<Rightarrow> Inl TypeError
            | (Some t, Some g) \<Rightarrow>
                if constructor_name g \<noteq> t then contracts_loop E filters as
                else rbind (contracts_loop E filters as) (\<lambda>gs. Inr (Some g # gs))
            | (None, g) \<Rightarrow> rbind (contracts_loop E filters as) (\<lambda>gs. Inr (g # gs))))"

definition getGovernanceContracts ::
  "'s env \<Rightarrow> contracts_filters \<Rightarrow> exn + GovernanceUnion option list" where
  "getGovernanceContracts E filters =
     rbind (governanceContractsAddresses E None) (\<lambda>governanceAddresses.
       contracts_loop E filters
         (case f_contracts filters of
            None \<Rightarrow> governanceAddresses
          | Some cs \<Rightarrow> filter (\<lambda>a. a \<in> set cs) governanceAddresses))"

text \<open>The contracts a filter selects, stated without the loop.\<close>

definition selected :: "'s env \<Rightarrow> contracts_filters \<Rightarrow> string \<Rightarrow> bool" where
  "selected E filters a \<longleftrightarrow>
     (case f_contracts filters of
        None \<Rightarrow> (case requestExplicitContracts E of None \<Rightarrow> True | Some l \<Rightarrow> a \<notin> set l)
      | Some cs \<Rightarrow> a \<in> set cs) \<and>
     (case f_type filters of None \<Rightarrow> True
      | Some t \<Rightarrow> t = [] \<or> map_option constructor_name (contract_instance E a) = Some t)"

lemma contract_instance_address: "contract_instance E a = Some g \<Longrightarrow> address g = a"
  by (auto simp: contract_instance_def split: option.splits GovernanceType.splits)

lemma contract_instance_None_iff: "contract_instance E a = None \<longleftrightarrow> governanceType E a = None"
  by (auto simp: contract_instance_def split: option.splits GovernanceType.splits)

lemma contracts_loop_selected:
  assumes "\<forall>a\<in>set as. governanceType E a \<noteq> None"
    and "\<forall>cs. f_contracts filters = Some cs \<longrightarrow> set as \<subseteq> set cs"
  shows "contracts_loop E filters as = Inr (map (contract_instance E) (filter (selected E filters) as))"
  using assms
proof (induction as)
  case (Cons a as)
  then obtain g where g: "contract_instance E a = Some g"
    using contract_instance_None_iff [of E a] by fastforce
  from Cons have IH: "contracts_loop E filters as =
      Inr (map (contract_instance E) (filter (selected E filters) as))"
    by (metis insert_subset list.set_intros(2) list.simps(15))
  show ?case
    using g IH Cons.prems(2)
    by (cases "f_contracts filters"; cases "f_type filters"; cases "requestExplicitContracts E")
       (auto simp: selected_def [of E filters a] Let_def)
qed simp

text \<open>
  C22: the registry is coherent with itself. With a coherent configuration, an address has a type
  exactly when it is in the list of all contracts (and its configured type is one of the enumeration),
  and the type \<open>governanceType\<close> finds is the one under which the configuration lists it.
\<close>

theorem governanceType_listed:
  assumes "coherent_config E" and "\<forall>t\<in>set (map fst (governanceConfig E)). toTypeEnum t \<noteq> None"
    and "governanceContractsAddresses E None = Inr all"
  shows "(a \<in> set all \<longleftrightarrow> governanceType E a \<noteq> None) \<and>
    (governanceType E a = Some t \<longleftrightarrow>
      (\<exists>as. governanceContractsAddresses E (Some [type_string t]) = Inr as \<and> a \<in> set as))"
proof (rule conjI)
  note d = assms(1) [unfolded coherent_config_def]
  have all: "all = concat (map (\<lambda>(t, sms). addresses_of sms) (governanceConfig E))"
    using assms(3) all_addresses [of E] d by simp
  have typed: "toTypeEnum n \<noteq> None" if "(n, sms) \<in> set (governanceConfig E)" for n sms
    using assms(2) that by (metis fst_conv image_eqI set_map)
  have found: "find_contract a (governanceConfig E) = Some (n, sm) \<Longrightarrow> toTypeEnum n \<noteq> None" for n sm
    using typed find_contract_SomeD by metis
  show "a \<in> set all \<longleftrightarrow> governanceType E a \<noteq> None"
    using found find_contract_None_iff [of a "governanceConfig E"]
    by (auto simp: all governanceType_def split: option.splits)
  show "governanceType E a = Some t \<longleftrightarrow>
           (\<exists>as. governanceContractsAddresses E (Some [type_string t]) = Inr as \<and> a \<in> set as)"
  proof
    assume "governanceType E a = Some t"
    then obtain sm where "find_contract a (governanceConfig E) = Some (type_string t, sm)"
      by (auto simp: governanceType_def toTypeEnum_Some_iff split: option.splits)
    then obtain sms as where *: "(type_string t, sms) \<in> set (governanceConfig E)" "(sm, as) \<in> set sms" "a \<in> set as"
      using find_contract_SomeD by metis
    then have "map_of (governanceConfig E) (type_string t) = Some sms" using d by simp
    with * show "\<exists>as. governanceContractsAddresses E (Some [type_string t]) = Inr as \<and> a \<in> set as"
      by (force simp: governanceContractsAddresses_def addresses_of_def)
  next
    assume "\<exists>as. governanceContractsAddresses E (Some [type_string t]) = Inr as \<and> a \<in> set as"
    then obtain sms where "map_of (governanceConfig E) (type_string t) = Some sms" "a \<in> set (addresses_of sms)"
      by (auto simp: governanceContractsAddresses_def split: option.splits)
    then obtain sm where "find_contract a (governanceConfig E) = Some (type_string t, sm)"
      using find_contract_unique d map_of_SomeD by metis
    then show "governanceType E a = Some t" by (simp add: governanceType_def)
  qed
qed

text \<open>
  C15: \<open>getGovernanceContracts\<close> returns, in the order of the configuration, exactly the contracts the
  filters select, each as an object of the class of its type: with a contract filter those it names,
  without one those that need not be asked for explicitly, and of them those of the class the type
  filter names. It does not throw when every address has a known type.
\<close>

theorem getGovernanceContracts_selects:
  assumes "governanceContractsAddresses E None = Inr all"
    and "\<forall>a\<in>set all. governanceType E a \<noteq> None"
  shows "getGovernanceContracts E filters =
    Inr (map (contract_instance E) (filter (selected E filters) all))"
proof (cases "f_contracts filters")
  case None
  then show ?thesis
    using assms contracts_loop_selected [of all E filters] by (simp add: getGovernanceContracts_def)
next
  case (Some cs)
  have "filter (selected E filters) (filter (\<lambda>a. a \<in> set cs) all) = filter (selected E filters) all"
    using Some by (auto simp: selected_def intro!: filter_cong)
  then show ?thesis
    using assms Some contracts_loop_selected [of "filter (\<lambda>a. a \<in> set cs) all" E filters]
    by (auto simp: getGovernanceContracts_def)
qed

text \<open>A configuration with one contract of each current type, used by the concrete examples.\<close>

definition example_config :: "(string \<times> smoothing_config) list" where
  "example_config =
     [(''energy'', [(''cvadratic'', [''erdA''])]), (''tokenSnapshot'', [(''linear'', [''erdB''])]),
      (''onChain'', [(''linear'', [''erdC''])]), (''pulse'', [(''linear'', [''erdD''])])]"

definition example_env :: "memory_state env" where
  "example_env = memory_env\<lparr>governanceConfig := example_config, requestExplicitContracts := Some [''erdB'']\<rparr>"

lemma example_config_eq [simp]: "governanceConfig example_env = example_config"
  by (simp add: example_env_def)

lemma example_caching [simp]: "caching example_env store"
  by (rule memory_caching) (simp add: memory_cache_def example_env_def memory_env_def)

lemma example_all:
  "governanceContractsAddresses example_env None = Inr [''erdA'', ''erdB'', ''erdC'', ''erdD'']"
  by (simp add: governanceContractsAddresses_def example_config_def addresses_of_def)

lemma example_types [simp]:
  "governanceType example_env ''erdA'' = Some ENERGY"
  "governanceType example_env ''erdB'' = Some TOKEN_SNAPSHOT"
  "governanceType example_env ''erdC'' = Some ONCHAIN"
  "governanceType example_env ''erdD'' = Some PULSE"
  by (simp_all add: governanceType_def example_config_def toTypeEnum_def)

theorem governanceType_listed_witness:
  "(''erdC'' \<in> set [''erdA'', ''erdB'', ''erdC'', ''erdD''] \<longleftrightarrow> governanceType example_env ''erdC'' \<noteq> None) \<and>
   (governanceType example_env ''erdC'' = Some ONCHAIN \<longleftrightarrow>
     (\<exists>as. governanceContractsAddresses example_env (Some [type_string ONCHAIN]) = Inr as \<and> ''erdC'' \<in> set as))"
  by (rule governanceType_listed)
     (simp_all add: coherent_config_def example_all example_config_def addresses_of_def toTypeEnum_def)

theorem getGovernanceContracts_selects_witness:
  "getGovernanceContracts example_env \<lparr>f_identifiers = None, f_contracts = None, f_type = Some ''GovernanceOnChainContract''\<rparr> =
     Inr [Some (GovernanceOnChainContract ''erdC'')]"
  by (subst getGovernanceContracts_selects [OF example_all])
     (simp_all add: selected_def contract_instance_def, simp add: example_env_def)

end
