(* ===== verification/Gov_Votes.thy ===== *)
theory Gov_Votes
  imports Gov_Registry
begin

text \<open>
  The vote counts of a proposal: how the on-chain service, the contract service and the event
  handler compute a \<open>ProposalVotes\<close> object (the arithmetic of \<open>proposalVotesRaw\<close> in
  \<open>governance.onchain.abi.service.ts\<close> and \<open>governance.abi.service.ts\<close>, and of
  \<open>increaseProposalVotes\<close> in \<open>governance.handler.service.ts\<close>), and the abstract tally that the three
  of them represent.
\<close>

section \<open>The computations\<close>

text \<open>The guard of every percentage: the text \<open>0\<close> unless the total is positive.\<close>

definition guarded_percentage :: "bn \<Rightarrow> bn \<Rightarrow> string" where
  "guarded_percentage part whole =
     (if bn_gt whole (bn_int 0) then bn_percentage part whole else ''0'')"

definition onchain_votes :: "proposal_info \<Rightarrow> proposal_votes" where
  "onchain_votes proposalInfo =
     (let up = bn_of_string (numYesVotes proposalInfo);
          down = bn_of_string (numNoVotes proposalInfo);
          veto = bn_of_string (numVetoVotes proposalInfo);
          abst = bn_of_string (numAbstainVotes proposalInfo);
          tot = bn_plus (bn_plus (bn_plus (bn_plus (bn_int 0) up) down) veto) abst
      in \<lparr>upVotes = bn_toString up,
          downVotes = bn_toString down,
          downVetoVotes = bn_toString veto,
          abstainVotes = bn_toString abst,
          totalVotes = Some (bn_toString tot),
          upPercentage = Some (guarded_percentage up tot),
          downPercentage = Some (guarded_percentage down tot),
          downVetoPercentage = Some (guarded_percentage veto tot),
          abstainPercentage = Some (guarded_percentage abst tot),
          quorum = quorumStake proposalInfo\<rparr>)"

text \<open>The contract's answer has the five numbers as fields of a structure.\<close>

definition snapshot_votes :: "scval \<Rightarrow> exn + proposal_votes" where
  "snapshot_votes votes =
     rbind (rbind (sc_field ''up_votes'' votes) sc_big) (\<lambda>up.
     rbind (rbind (sc_field ''down_votes'' votes) sc_big) (\<lambda>down.
     rbind (rbind (sc_field ''abstain_votes'' votes) sc_big) (\<lambda>abst.
     rbind (rbind (sc_field ''down_veto_votes'' votes) sc_big) (\<lambda>veto.
     rbind (rbind (sc_field ''quorum'' votes) sc_big) (\<lambda>q.
       let tot = bn_plus (bn_plus (bn_plus up down) abst) veto
       in Inr \<lparr>upVotes = bn_toFixed up,
               downVotes = bn_toFixed down,
               downVetoVotes = bn_toFixed veto,
               abstainVotes = bn_toFixed abst,
               totalVotes = Some (bn_toFixed tot),
               upPercentage = Some (guarded_percentage up tot),
               downPercentage = Some (guarded_percentage down tot),
               downVetoPercentage = Some (guarded_percentage veto tot),
               abstainPercentage = Some (guarded_percentage abst tot),
               quorum = bn_toFixed q\<rparr>)))))"

text \<open>
  The update of the handler: the counts are read back from their texts, the votes of the event are
  added to the total, the quorum and the count of its kind, and the percentages are computed again,
  this time without a guard.
\<close>

definition add_text :: "string \<Rightarrow> bn \<Rightarrow> string" where
  "add_text t x = bn_toFixed (bn_plus (bn_of_string t) x)"

definition text_percentage :: "string \<Rightarrow> string \<Rightarrow> string" where
  "text_percentage part whole = bn_percentage (bn_of_string part) (bn_of_string whole)"

definition increase_votes :: "'s env \<Rightarrow> string \<Rightarrow> bn \<Rightarrow> bn \<Rightarrow> proposal_votes \<Rightarrow> proposal_votes" where
  "increase_votes E voteType nVotes quorumUsed v0 =
     (let tot = bn_toFixed (bn_plus (bn_of_optional (totalVotes v0)) nVotes);
          v1 = v0\<lparr>totalVotes := Some tot, quorum := add_text (quorum v0) quorumUsed\<rparr>;
          v2 = (if voteType = ev_UP E then v1\<lparr>upVotes := add_text (upVotes v1) nVotes\<rparr>
                else if voteType = ev_DOWN E then v1\<lparr>downVotes := add_text (downVotes v1) nVotes\<rparr>
                else if voteType = ev_ABSTAIN E then v1\<lparr>abstainVotes := add_text (abstainVotes v1) nVotes\<rparr>
                else if voteType = ev_DOWN_VETO E then v1\<lparr>downVetoVotes := add_text (downVetoVotes v1) nVotes\<rparr>
                else v1)
      in v2\<lparr>upPercentage := Some (text_percentage (upVotes v2) tot),
            downPercentage := Some (text_percentage (downVotes v2) tot),
            abstainPercentage := Some (text_percentage (abstainVotes v2) tot),
            downVetoPercentage := Some (text_percentage (downVetoVotes v2) tot)\<rparr>)"


section \<open>The abstract tally\<close>

record tally =
  t_up :: int
  t_down :: int
  t_veto :: int
  t_abstain :: int
  t_quorum :: int

definition t_total :: "tally \<Rightarrow> int" where
  "t_total t = t_up t + t_down t + t_veto t + t_abstain t"

fun t_count :: "VoteType \<Rightarrow> tally \<Rightarrow> int" where
  "t_count UpVote t = t_up t"
| "t_count DownVote t = t_down t"
| "t_count DownVetoVote t = t_veto t"
| "t_count AbstainVote t = t_abstain t"
| "t_count NotVoted t = 0"

fun t_cast :: "VoteType \<Rightarrow> int \<Rightarrow> tally \<Rightarrow> tally" where
  "t_cast UpVote n t = t\<lparr>t_up := t_up t + n\<rparr>"
| "t_cast DownVote n t = t\<lparr>t_down := t_down t + n\<rparr>"
| "t_cast DownVetoVote n t = t\<lparr>t_veto := t_veto t + n\<rparr>"
| "t_cast AbstainVote n t = t\<lparr>t_abstain := t_abstain t + n\<rparr>"
| "t_cast NotVoted n t = t"

definition t_add :: "VoteType \<Rightarrow> int \<Rightarrow> int \<Rightarrow> tally \<Rightarrow> tally" where
  "t_add v n q t = (t_cast v n t)\<lparr>t_quorum := t_quorum t + q\<rparr>"

text \<open>The object that represents a tally.\<close>

definition votes_of :: "tally \<Rightarrow> proposal_votes" where
  "votes_of t =
     \<lparr>upVotes = show_int (t_up t), downVotes = show_int (t_down t),
      downVetoVotes = show_int (t_veto t), abstainVotes = show_int (t_abstain t),
      totalVotes = Some (show_int (t_total t)),
      upPercentage = Some (guarded_percentage (bn_int (t_up t)) (bn_int (t_total t))),
      downPercentage = Some (guarded_percentage (bn_int (t_down t)) (bn_int (t_total t))),
      downVetoPercentage = Some (guarded_percentage (bn_int (t_veto t)) (bn_int (t_total t))),
      abstainPercentage = Some (guarded_percentage (bn_int (t_abstain t)) (bn_int (t_total t))),
      quorum = show_int (t_quorum t)\<rparr>"

lemma t_total_add: "v \<noteq> NotVoted \<Longrightarrow> t_total (t_add v n q t) = t_total t + n"
  by (cases v) (simp_all add: t_total_def t_add_def)

lemma t_quorum_add [simp]: "t_quorum (t_add v n q t) = t_quorum t + q"
  by (simp add: t_add_def)

text \<open>The names of the four vote events of the SDK differ from each other and from the on-chain ones.\<close>

definition event_names_ok :: "'s env \<Rightarrow> bool" where
  "event_names_ok E \<longleftrightarrow>
     distinct ([ev_UP E, ev_DOWN E, ev_DOWN_VETO E, ev_ABSTAIN E] @
       map onchain_event_string [OC_YES, OC_NO, OC_VETO, OC_ABSTAIN])"

definition event_votes :: "'s env \<Rightarrow> string \<Rightarrow> bool" where
  "event_votes E ev \<longleftrightarrow> ev \<in> {ev_UP E, ev_DOWN E, ev_DOWN_VETO E, ev_ABSTAIN E}"

lemma event_names_neq:
  assumes "event_names_ok E"
  shows "ev_DOWN E \<noteq> ev_UP E" "ev_DOWN_VETO E \<noteq> ev_UP E" "ev_ABSTAIN E \<noteq> ev_UP E"
    "ev_DOWN_VETO E \<noteq> ev_DOWN E" "ev_ABSTAIN E \<noteq> ev_DOWN E" "ev_ABSTAIN E \<noteq> ev_DOWN_VETO E"
    "ev_DOWN_VETO E \<noteq> ev_ABSTAIN E"
  using assms by (auto simp: event_names_ok_def)

lemma toVoteType_events:
  assumes "event_names_ok E"
  shows "toVoteType E (ev_UP E) = UpVote" "toVoteType E (ev_DOWN E) = DownVote"
    "toVoteType E (ev_DOWN_VETO E) = DownVetoVote" "toVoteType E (ev_ABSTAIN E) = AbstainVote"
  using assms by (auto simp: toVoteType_def event_names_ok_def)

lemma event_votes_cases:
  assumes "event_votes E ev"
  obtains "ev = ev_UP E" | "ev = ev_DOWN E" | "ev = ev_DOWN_VETO E" | "ev = ev_ABSTAIN E"
  using assms by (auto simp: event_votes_def)

lemma increase_votes_of:
  assumes ok: "event_names_ok E" and ev: "event_votes E ev" and pos: "0 < t_total t + n"
  shows "increase_votes E ev (bn_int n) (bn_int q) (votes_of t) =
           votes_of (t_add (toVoteType E ev) n q t)"
proof -
  have tt: "t_total (t_add v n q t) = t_total t + n" if "v \<noteq> NotVoted" for v
    using t_total_add that by blast
  note unfold = increase_votes_def votes_of_def Let_def add_text_def text_percentage_def
    guarded_percentage_def bn_of_optional_def event_names_neq [OF ok] toVoteType_events [OF ok]
  show ?thesis
    using ev
  proof (cases rule: event_votes_cases)
    case 1
    then show ?thesis using pos tt [of UpVote] by (simp add: unfold) (simp add: t_add_def)
  next
    case 2
    then show ?thesis using pos tt [of DownVote] by (simp add: unfold) (simp add: t_add_def)
  next
    case 3
    then show ?thesis using pos tt [of DownVetoVote] by (simp add: unfold) (simp add: t_add_def)
  next
    case 4
    then show ?thesis using pos tt [of AbstainVote] by (simp add: unfold) (simp add: t_add_def)
  qed
qed

text \<open>Both services represent the tally of the numbers they read.\<close>

definition tally_of_info :: "int \<Rightarrow> int \<Rightarrow> int \<Rightarrow> int \<Rightarrow> int \<Rightarrow> tally" where
  "tally_of_info y n v a q = \<lparr>t_up = y, t_down = n, t_veto = v, t_abstain = a, t_quorum = q\<rparr>"

lemma snapshot_votes_of:
  assumes "sc_field ''up_votes'' votes = Inr (SBig y)" "sc_field ''down_votes'' votes = Inr (SBig n)"
    "sc_field ''down_veto_votes'' votes = Inr (SBig v)" "sc_field ''abstain_votes'' votes = Inr (SBig a)"
    "sc_field ''quorum'' votes = Inr (SBig q)"
  shows "snapshot_votes votes = Inr (votes_of (tally_of_info y n v a q))"
  using assms
  by (simp add: snapshot_votes_def votes_of_def tally_of_info_def sc_big_def Let_def t_total_def
      add.commute add.left_commute)

lemma onchain_votes_of:
  assumes "numYesVotes p = show_int y" "numNoVotes p = show_int n" "numVetoVotes p = show_int v"
    "numAbstainVotes p = show_int a" "quorumStake p = show_int q"
    and "0 \<le> y" "0 \<le> n" "0 \<le> v" "0 \<le> a" "y + n + v + a < 10 ^ 30"
  shows "onchain_votes p = votes_of (tally_of_info y n v a q)"
proof -
  have "bn_toString (bn_int y) = show_int y" "bn_toString (bn_int n) = show_int n"
    "bn_toString (bn_int v) = show_int v" "bn_toString (bn_int a) = show_int a"
    "bn_toString (bn_int (y + n + v + a)) = show_int (y + n + v + a)"
    using assms(6-10) by (intro toString_int; simp)+
  with assms(1-5) show ?thesis
    by (simp add: onchain_votes_def votes_of_def tally_of_info_def Let_def t_total_def)
qed


section \<open>Percentages\<close>

lemma dec_shift: "dec (m * 10 ^ j) (k + j) = dec m k"
  by (induction j) (simp_all add: algebra_simps)

lemma dec_normal:
  obtains m' k' j where "dec m k = BFin m' k'" "m = m' * 10 ^ j" "k = k' + j"
proof (induction m k arbitrary: thesis rule: dec.induct)
  case (1 m)
  then show ?case by (metis add.right_neutral dec.simps(1) mult.right_neutral power_0)
next
  case (2 m k)
  show ?case
  proof (cases "m mod 10 = 0")
    case True
    then obtain m' k' j where "dec (m div 10) k = BFin m' k'" "m div 10 = m' * 10 ^ j" "k = k' + j"
      using 2 by metis
    moreover have "m = m div 10 * 10" using True by presburger
    ultimately have "dec (m div 10) k = BFin m' k'" "k = k' + j" "m = m' * 10 ^ Suc j" by simp_all
    then show ?thesis using True 2(2) [of m' k' "Suc j"] by simp
  next
    case False
    then show ?thesis using 2(2) [of m "Suc k" 0] by simp
  qed
qed

lemma bn_times_dec: "bn_times (dec m k) (BFin n l) = dec (m * n) (k + l)"
proof -
  obtain m' k' j where d: "dec m k = BFin m' k'" "m = m' * 10 ^ j" "k = k' + j"
    by (rule dec_normal)
  have "dec (m * n) (k + l) = dec (m' * n * 10 ^ j) (k' + l + j)"
    by (simp add: d(2,3) algebra_simps)
  then show ?thesis by (simp only: dec_shift d(1) bn_times.simps)
qed

lemma toFixedDp_dec:
  "bn_toFixedDp dp (dec m k) = signed (m < 0) (fixed_point (nat \<bar>round_div (m * 10 ^ dp) (10 ^ k)\<bar>) dp)"
proof -
  obtain m' k' j where d: "dec m k = BFin m' k'" "m = m' * 10 ^ j" "k = k' + j"
    by (rule dec_normal)
  have "round_div (m * 10 ^ dp) (10 ^ k) = round_div (m' * 10 ^ dp * 10 ^ j) (10 ^ k' * 10 ^ j)"
    by (simp add: d(2,3) power_add algebra_simps)
  also have "\<dots> = round_div (m' * 10 ^ dp) (10 ^ k')" by (rule round_div_cancel) simp
  finally show ?thesis by (simp add: bn_toFixedDp_def d(1)) (simp add: d(2) mult_less_0_iff)
qed

text \<open>The number of hundredths of a percent that a percentage shows.\<close>

definition hundredths :: "int \<Rightarrow> int \<Rightarrow> int" where
  "hundredths p t = round_div (round_div (p * 10 ^ 20) t * 10 ^ 4) (10 ^ 20)"

lemma percentage_text:
  assumes "0 \<le> p" "0 < t"
  shows "bn_percentage (bn_int p) (bn_int t) = fixed_point (nat (hundredths p t)) 2"
proof -
  have D: "0 \<le> round_div (p * 10 ^ 20) t" using assms by (simp add: round_div_nonneg pos_imp_zdiv_nonneg_iff)
  have "bn_div (bn_int p) (bn_int t) = dec (round_div (p * 10 ^ 20) t) 20" using assms by simp
  then have "bn_percentage (bn_int p) (bn_int t) =
      bn_toFixedDp 2 (dec (round_div (p * 10 ^ 20) t * 100) 20)"
    by (simp only: bn_percentage_def bn_times_dec add_0_right)
  then show ?thesis
    using D by (simp add: toFixedDp_dec hundredths_def signed_def not_less round_div_nonneg mult.assoc
      pos_imp_zdiv_nonneg_iff)
qed

lemma round_div_bounds:
  assumes "0 \<le> a" "0 < b"
  shows "2 * (round_div a b * b) \<le> 2 * a + b" "2 * a - b < 2 * (round_div a b * b)"
  using div_bounds [of "2 * b" "2 * a + b"] assms by (simp_all add: round_div_nonneg algebra_simps)

lemma hundredths_bounds:
  assumes "0 \<le> p" "0 < t"
  shows "2 * 10 ^ 16 * \<bar>hundredths p t * t - 10 ^ 4 * p\<bar> \<le> t * (10 ^ 16 + 1)"
proof -
  define d where "d = round_div (p * 10 ^ 20) t"
  define h where "h = hundredths p t"
  have d0: "0 \<le> d" using assms by (simp add: d_def round_div_nonneg pos_imp_zdiv_nonneg_iff)
  have h: "2 * (h * 10 ^ 20) \<le> 2 * (d * 10 ^ 4) + 10 ^ 20" "2 * (d * 10 ^ 4) - 10 ^ 20 < 2 * (h * 10 ^ 20)"
    using round_div_bounds [of "d * 10 ^ 4" "10 ^ 20"] d0 by (simp_all add: h_def hundredths_def d_def)
  have d: "2 * (d * t) \<le> 2 * (p * 10 ^ 20) + t" "2 * (p * 10 ^ 20) - t < 2 * (d * t)"
    using round_div_bounds [of "p * 10 ^ 20" t] assms by (simp_all add: d_def)
  have "t * (2 * (h * 10 ^ 20)) \<le> t * (2 * (d * 10 ^ 4) + 10 ^ 20)"
    "t * (2 * (d * 10 ^ 4) - 10 ^ 20) \<le> t * (2 * (h * 10 ^ 20))"
    using h assms(2) by (intro mult_left_mono; simp)+
  then have "2 * 10 ^ 20 * (h * t) \<le> 10 ^ 4 * (2 * (d * t)) + 10 ^ 20 * t"
    "10 ^ 4 * (2 * (d * t)) - 10 ^ 20 * t \<le> 2 * 10 ^ 20 * (h * t)"
    by (simp_all add: algebra_simps)
  with d have "2 * 10 ^ 16 * (h * t - 10 ^ 4 * p) \<le> t * (10 ^ 16 + 1)"
    "2 * 10 ^ 16 * (10 ^ 4 * p - h * t) \<le> t * (10 ^ 16 + 1)"
    by simp_all
  then show ?thesis by (cases "0 \<le> h * t - 10 ^ 4 * p") (simp_all add: h_def [symmetric] abs_if)
qed

lemma hundredths_range:
  assumes "0 \<le> p" "p \<le> t" "0 < t"
  shows "0 \<le> hundredths p t" "hundredths p t \<le> 10 ^ 4"
proof -
  show "0 \<le> hundredths p t"
    using assms by (simp add: hundredths_def round_div_nonneg pos_imp_zdiv_nonneg_iff)
  define x where "x = hundredths p t * t"
  have "2 * 10 ^ 16 * \<bar>x - 10 ^ 4 * p\<bar> \<le> t * (10 ^ 16 + 1)"
    using hundredths_bounds [of p t] assms by (simp only: x_def)
  then have "x < (10 ^ 4 + 1) * t" using assms by (simp add: abs_if split: if_splits)
  then have "hundredths p t * t < (10 ^ 4 + 1) * t" by (simp only: x_def)
  then show "hundredths p t \<le> 10 ^ 4" using assms by (simp add: mult_less_cancel_right)
qed

lemma four_errors:
  fixes x y z w a b c d m :: int
  assumes "2 * 10 ^ 16 * \<bar>x - 10 ^ 4 * a\<bar> \<le> m" "2 * 10 ^ 16 * \<bar>y - 10 ^ 4 * b\<bar> \<le> m"
    "2 * 10 ^ 16 * \<bar>z - 10 ^ 4 * c\<bar> \<le> m" "2 * 10 ^ 16 * \<bar>w - 10 ^ 4 * d\<bar> \<le> m"
  shows "2 * 10 ^ 16 * \<bar>x + y + z + w - 10 ^ 4 * (a + b + c + d)\<bar> \<le> 4 * m"
proof -
  have two_sided: "K * \<bar>u\<bar> \<le> k \<longleftrightarrow> K * u \<le> k \<and> - (K * u) \<le> k" if "0 < K" for K u k :: int
    using that abs_le_iff [of "K * u" k] by (simp add: abs_mult)
  show ?thesis
    using assms by (simp add: two_sided)
qed

lemma four_shares:
  fixes a b c d t :: int
  assumes "0 \<le> a" "0 \<le> b" "0 \<le> c" "0 \<le> d" "t = a + b + c + d" "0 < t"
  shows "\<bar>hundredths a t + hundredths b t + hundredths c t + hundredths d t - 10 ^ 4\<bar> \<le> 2"
proof -
  let ?h = "\<lambda>p. hundredths p t"
  let ?s = "?h a + ?h b + ?h c + ?h d"
  have "2 * 10 ^ 16 * \<bar>?h a * t + ?h b * t + ?h c * t + ?h d * t - 10 ^ 4 * (a + b + c + d)\<bar>
      \<le> 4 * (t * (10 ^ 16 + 1))"
    using assms by (intro four_errors hundredths_bounds)
  then have "2 * 10 ^ 16 * \<bar>?s * t - 10 ^ 4 * t\<bar> \<le> 4 * (t * (10 ^ 16 + 1))"
    by (simp only: assms(5) [symmetric] distrib_right)
  moreover have "\<bar>?s * t - 10 ^ 4 * t\<bar> = \<bar>?s - 10 ^ 4\<bar> * t"
    using assms(6) by (simp add: abs_mult left_diff_distrib [symmetric])
  ultimately have "(2 * 10 ^ 16 * \<bar>?s - 10 ^ 4\<bar>) * t \<le> (4 * (10 ^ 16 + 1)) * t"
    by (simp only: mult.assoc mult.commute [of "10 ^ 16 + 1" t])
  then have "2 * 10 ^ 16 * \<bar>?s - 10 ^ 4\<bar> \<le> 4 * (10 ^ 16 + 1)" using assms(6) by (simp only: mult_le_cancel_right)
  then show ?thesis by simp
qed

text \<open>
  C7: the percentages of a proposal read from the chain. When somebody voted, each of the four texts
  shows a whole number of hundredths of a percent between 0.00 and 100.00, the nearest to the share
  up to one part in \<open>10 ^ 16\<close>, and together they differ from 100.00 by at most 0.02.
\<close>

theorem onchain_percentages:
  assumes "numYesVotes p = show_int y" "numNoVotes p = show_int n" "numVetoVotes p = show_int v"
    "numAbstainVotes p = show_int a" "quorumStake p = show_int q"
    and "0 \<le> y" "0 \<le> n" "0 \<le> v" "0 \<le> a" "y + n + v + a < 10 ^ 30" and "t = y + n + v + a" "0 < t"
  shows "\<exists>hy hn hv ha.
     upPercentage (onchain_votes p) = Some (fixed_point (nat hy) 2) \<and>
     downPercentage (onchain_votes p) = Some (fixed_point (nat hn) 2) \<and>
     downVetoPercentage (onchain_votes p) = Some (fixed_point (nat hv) 2) \<and>
     abstainPercentage (onchain_votes p) = Some (fixed_point (nat ha) 2) \<and>
     (0 \<le> hy \<and> hy \<le> 10000 \<and> 0 \<le> hn \<and> hn \<le> 10000 \<and> 0 \<le> hv \<and> hv \<le> 10000 \<and> 0 \<le> ha \<and> ha \<le> 10000) \<and>
     2 * 10 ^ 16 * \<bar>hy * t - 10 ^ 4 * y\<bar> \<le> t * (10 ^ 16 + 1) \<and>
     2 * 10 ^ 16 * \<bar>hn * t - 10 ^ 4 * n\<bar> \<le> t * (10 ^ 16 + 1) \<and>
     2 * 10 ^ 16 * \<bar>hv * t - 10 ^ 4 * v\<bar> \<le> t * (10 ^ 16 + 1) \<and>
     2 * 10 ^ 16 * \<bar>ha * t - 10 ^ 4 * a\<bar> \<le> t * (10 ^ 16 + 1) \<and>
     \<bar>hy + hn + hv + ha - 10000\<bar> \<le> 2"
proof -
  have t: "t_total (tally_of_info y n v a q) = t"
    by (simp add: t_total_def tally_of_info_def assms(11))
  have g: "guarded_percentage (bn_int x) (bn_int t) = fixed_point (nat (hundredths x t)) 2" if "0 \<le> x" for x
    using that assms(12) by (simp add: guarded_percentage_def percentage_text)
  have r: "0 \<le> hundredths x t \<and> hundredths x t \<le> 10000" if "x \<in> {y, n, v, a}" for x
    using hundredths_range [of x t] that assms(6-12) by auto
  have s: "\<bar>hundredths y t + hundredths n t + hundredths v t + hundredths a t - 10000\<bar> \<le> 2"
    using four_shares [of y n v a t] assms(6-9,11,12) by simp
  show ?thesis
    unfolding onchain_votes_of [OF assms(1-10)]
    using r s assms(6-9) hundredths_bounds [OF _ assms(12)]
    by (intro exI [of _ "hundredths y t"] exI [of _ "hundredths n t"] exI [of _ "hundredths v t"]
        exI [of _ "hundredths a t"] conjI)
       (simp_all only: votes_of_def proposal_votes.simps t g, simp_all add: tally_of_info_def g)
qed

definition example_info :: proposal_info where
  "example_info = \<lparr>pi_cost = ''1'', pi_commitHash = ''c0'', pi_nonce = 1, pi_issuer = ''erdX'',
     startVoteEpoch = 10, endVoteEpoch = 12, quorumStake = ''5'', numYesVotes = ''1'',
     numNoVotes = ''1'', numVetoVotes = ''1'', numAbstainVotes = ''0'', isClosed = False,
     isPassed = False\<rparr>"

lemma show_int_small [simp]:
  "show_int 0 = ''0''" "show_int 1 = ''1''" "show_int 5 = ''5''"
  by code_simp+

theorem onchain_percentages_witness:
  "\<exists>hy hn hv ha.
     upPercentage (onchain_votes example_info) = Some (fixed_point (nat hy) 2) \<and>
     downPercentage (onchain_votes example_info) = Some (fixed_point (nat hn) 2) \<and>
     downVetoPercentage (onchain_votes example_info) = Some (fixed_point (nat hv) 2) \<and>
     abstainPercentage (onchain_votes example_info) = Some (fixed_point (nat ha) 2) \<and>
     (0 \<le> hy \<and> hy \<le> 10000 \<and> 0 \<le> hn \<and> hn \<le> 10000 \<and> 0 \<le> hv \<and> hv \<le> 10000 \<and> 0 \<le> ha \<and> ha \<le> 10000) \<and>
     2 * 10 ^ 16 * \<bar>hy * 3 - 10 ^ 4 * 1\<bar> \<le> 3 * (10 ^ 16 + (1::int)) \<and>
     2 * 10 ^ 16 * \<bar>hn * 3 - 10 ^ 4 * 1\<bar> \<le> 3 * (10 ^ 16 + (1::int)) \<and>
     2 * 10 ^ 16 * \<bar>hv * 3 - 10 ^ 4 * 1\<bar> \<le> 3 * (10 ^ 16 + (1::int)) \<and>
     2 * 10 ^ 16 * \<bar>ha * 3 - 10 ^ 4 * 0\<bar> \<le> 3 * (10 ^ 16 + (1::int)) \<and>
     \<bar>hy + hn + hv + ha - 10000\<bar> \<le> 2"
  by (rule onchain_percentages [where q = 5]) (simp_all add: example_info_def)

text \<open>
  C5: the on-chain service and the contract service agree. On counts that are not negative and sum
  to less than \<open>10 ^ 30\<close>, the object computed from the texts of a proposal's data and the one computed
  from the numbers of a contract's answer are the same: the representation of the one tally, with
  the sum of the four counts as the total and guarded percentages.
\<close>

theorem votes_agree:
  assumes "numYesVotes p = show_int y" "numNoVotes p = show_int n" "numVetoVotes p = show_int v"
    "numAbstainVotes p = show_int a" "quorumStake p = show_int q"
    and "0 \<le> y" "0 \<le> n" "0 \<le> v" "0 \<le> a" "y + n + v + a < 10 ^ 30"
    and "sc_field ''up_votes'' c = Inr (SBig y)" "sc_field ''down_votes'' c = Inr (SBig n)"
    "sc_field ''down_veto_votes'' c = Inr (SBig v)" "sc_field ''abstain_votes'' c = Inr (SBig a)"
    "sc_field ''quorum'' c = Inr (SBig q)"
  shows "snapshot_votes c = Inr (onchain_votes p) \<and> onchain_votes p = votes_of (tally_of_info y n v a q)"
  using snapshot_votes_of [OF assms(11-15)] onchain_votes_of [OF assms(1-10)] by simp

definition example_struct :: scval where
  "example_struct = SStruct [(''up_votes'', SBig 1), (''down_votes'', SBig 1),
     (''down_veto_votes'', SBig 1), (''abstain_votes'', SBig 0), (''quorum'', SBig 5)]"

theorem votes_agree_witness:
  "snapshot_votes example_struct = Inr (onchain_votes example_info) \<and>
   onchain_votes example_info = votes_of (tally_of_info 1 1 1 0 5)"
  by (rule votes_agree) (simp_all add: example_info_def example_struct_def sc_field_def)

end
