(* ===== verification/Gov_Merkle.thy ===== *)
theory Gov_Merkle
  imports Gov_Votes
begin

text \<open>
  Snapshots of voting power as Merkle trees: \<open>src/utils/merkle-tree/markle-tree.utils.ts\<close>, and the
  two services that keep trees in a static table, \<open>governance.token.snapshot.merkle.service.ts\<close> (by
  root hash, which they check) and \<open>governance.onchain.providers.snapshots.merkle.service.ts\<close> (by
  provider and proposal). The tree of the library is what the library was given, the hashes of the
  leaves; its root, proofs and depth are functions of them in the environment. The locale
  \<open>memo_table\<close> is the contract of a static table that is filled on demand.
\<close>

section \<open>Tables filled on demand\<close>

text \<open>
  A static table is read first; a missing entry is loaded, and what the load returned is stored. The
  load promises that its result is good for the key; the table then never holds anything else.
\<close>

locale memo_table =
  fixes table :: "'s \<Rightarrow> string \<Rightarrow> 't option"
    and insert_entry :: "string \<Rightarrow> 't \<Rightarrow> 's \<Rightarrow> 's"
    and load :: "'k \<Rightarrow> ('s, 't) prog"
    and key :: "'k \<Rightarrow> string"
    and get :: "'k \<Rightarrow> ('s, 't) prog"
    and good :: "string \<Rightarrow> 't \<Rightarrow> bool"
  assumes insert_table: "table (insert_entry n t s) = (table s)(n \<mapsto> t)"
    and load_good: "load k s = (Inr t, s') \<Longrightarrow> good (key k) t"
    and get_eq: "get k s =
      (case table s (key k) of
         Some t \<Rightarrow> (Inr t, s)
       | None \<Rightarrow> mbind (load k) (\<lambda>t. mthen (mmodify (insert_entry (key k) t)) (mret t)) s)"
begin

definition valid :: "'s \<Rightarrow> bool" where
  "valid s \<longleftrightarrow> (\<forall>k t. table s k = Some t \<longrightarrow> good k t)"

lemma get_good: "valid s \<Longrightarrow> get k s = (Inr t, s') \<Longrightarrow> good (key k) t"
  by (auto simp: get_eq valid_def mbind_Inr_iff mthen_apply split: option.splits dest: load_good)

lemma get_hit: "table s (key k) = Some t \<Longrightarrow> get k s = (Inr t, s)"
  by (simp add: get_eq)

lemma get_keeps:
  assumes "keeps valid (load k)"
  shows "keeps valid (get k)"
  unfolding keeps_def
proof (intro allI impI)
  fix s assume v: "valid s"
  obtain r s1 where l: "load k s = (r, s1)" by (cases "load k s")
  have v1: "valid s1" using assms v l by (force simp: keeps_def)
  show "valid (snd (get k s))"
  proof (cases "table s (key k)")
    case None
    show ?thesis
    proof (cases r)
      case (Inr t)
      then have "good (key k) t" using l load_good by blast
      with None l Inr v1 show ?thesis
        by (auto simp: get_eq valid_def insert_table mthen_apply)
    qed (use None l v1 in \<open>simp add: get_eq\<close>)
  qed (use v in \<open>simp add: get_eq\<close>)
qed

text \<open>A second call finds what the first one loaded, without loading again.\<close>

lemma get_twice:
  assumes "get k s = (Inr t, s')"
  shows "get k s' = (Inr t, s')"
  using assms
  by (auto simp: get_eq mbind_Inr_iff mthen_apply insert_table split: option.splits)

end


section \<open>MerkleTreeUtils\<close>

definition encodeLeaf :: "'s env \<Rightarrow> address_voting_power \<Rightarrow> exn + string" where
  "encodeLeaf E x =
     rbind (addressHex E (av_address x)) (\<lambda>addr.
     rbind (bigUIntHex E (bn_of_string (av_balance x))) (\<lambda>power.
       let leaf = from_hex addr @ from_hex power in Inr (sha256 E (to_hex leaf))))"

definition new_MerkleTreeUtils :: "'s env \<Rightarrow> address_voting_power list \<Rightarrow> exn + merkle_tree" where
  "new_MerkleTreeUtils E leaves =
     rbind (rmap (encodeLeaf E) leaves) (\<lambda>hashes. Inr \<lparr>mt_hashes = hashes, mt_leaves = leaves\<rparr>)"

definition getLeaves :: "merkle_tree \<Rightarrow> address_voting_power list" where
  "getLeaves t = mt_leaves t"

definition verifyProof :: "'s env \<Rightarrow> merkle_tree \<Rightarrow> address_voting_power \<Rightarrow> exn + bool" where
  "verifyProof E t leaf = rbind (encodeLeaf E leaf) (\<lambda>h. Inr (verifyProofLib E (mt_hashes t) h))"

text \<open>Proofs are asked for with the leaf that was looked up, which may be \<open>undefined\<close>.\<close>

definition getProof :: "'s env \<Rightarrow> merkle_tree \<Rightarrow> address_voting_power option \<Rightarrow> exn + string list" where
  "getProof E t leaf =
     (case leaf of
        None \<Rightarrow> Inl TypeError
      | Some x \<Rightarrow> rbind (encodeLeaf E x) (\<lambda>h. Inr (hexProof E (mt_hashes t) h)))"

definition concatProof :: "string list \<Rightarrow> string" where
  "concatProof proof = concat (map (drop 2) proof)"

definition getProofBuffer :: "'s env \<Rightarrow> merkle_tree \<Rightarrow> address_voting_power option \<Rightarrow> exn + string" where
  "getProofBuffer E t leaf = rbind (getProof E t leaf) (\<lambda>p. Inr (from_hex (concatProof p)))"

definition getUserLeaf :: "merkle_tree \<Rightarrow> string \<Rightarrow> address_voting_power option" where
  "getUserLeaf t addr = List.find (\<lambda>x. av_address x = addr) (mt_leaves t)"

definition getRootHash :: "'s env \<Rightarrow> merkle_tree \<Rightarrow> string" where
  "getRootHash E t = hexRoot E (mt_hashes t)"

definition getTotalBalance :: "merkle_tree \<Rightarrow> string" where
  "getTotalBalance t =
     bn_toFixed (foldl (\<lambda>totalBalance leaf. bn_plus totalBalance (bn_of_string (av_balance leaf)))
                   (bn_int 0) (mt_leaves t))"

definition getDepth :: "'s env \<Rightarrow> merkle_tree \<Rightarrow> int" where
  "getDepth E t = treeDepth E (mt_hashes t)"

text \<open>The leaves of a snapshot file: an array of objects with an address and a balance.\<close>

definition leaf_of_json :: "jsval \<Rightarrow> exn + address_voting_power" where
  "leaf_of_json v =
     rbind (rbind (js_get ''address'' v) js_string) (\<lambda>a.
     rbind (rbind (js_get ''balance'' v) js_string) (\<lambda>b.
       Inr \<lparr>av_address = a, av_balance = b\<rparr>))"

definition leaves_of_json :: "jsval \<Rightarrow> exn + address_voting_power list" where
  "leaves_of_json v = (case v of JArr xs \<Rightarrow> rmap leaf_of_json xs | _ \<Rightarrow> Inl TypeError)"

definition parse_tree :: "'s env \<Rightarrow> string \<Rightarrow> exn + merkle_tree" where
  "parse_tree E jsonContent =
     rbind (JSON_parse E jsonContent) (\<lambda>v. rbind (leaves_of_json v) (new_MerkleTreeUtils E))"

text \<open>The tree holds the hashes of its own leaves.\<close>

definition tree_ok :: "'s env \<Rightarrow> merkle_tree \<Rightarrow> bool" where
  "tree_ok E t \<longleftrightarrow> rmap (encodeLeaf E) (mt_leaves t) = Inr (mt_hashes t)"

lemma parse_tree_ok: "parse_tree E j = Inr t \<Longrightarrow> tree_ok E t"
  by (auto simp: parse_tree_def new_MerkleTreeUtils_def tree_ok_def rbind_Inr_iff)


section \<open>GovernanceTokenSnapshotMerkleService\<close>

definition root_mismatch :: exn where
  "root_mismatch = PlainError ''Computed root hash doesn't match the provided root hash.''"

definition load_snapshot :: "('x st) env \<Rightarrow> string \<Rightarrow> ('x st, merkle_tree) prog" where
  "load_snapshot E rootHash =
     mbind (readFile E (''./src/snapshots/'' @ rootHash @ ''.json'')) (\<lambda>jsonContent.
     mbind (mlift (parse_tree E jsonContent)) (\<lambda>newMT.
       if getRootHash E newMT \<noteq> ''0x'' @ rootHash then mthrow root_mismatch else mret newMT))"

definition createMerkleTree :: "('x st) env \<Rightarrow> string \<Rightarrow> ('x st, merkle_tree) prog" where
  "createMerkleTree E rootHash =
     mbind (load_snapshot E rootHash) (\<lambda>newMT.
     mthen (mmodify (\<lambda>s. s\<lparr>merkleTrees := (merkleTrees s)(rootHash \<mapsto> newMT)\<rparr>)) (mret newMT))"

definition getMerkleTree :: "('x st) env \<Rightarrow> string \<Rightarrow> ('x st, merkle_tree) prog" where
  "getMerkleTree E rootHash =
     mbind (mget (\<lambda>s. merkleTrees s rootHash)) (\<lambda>cachedMT.
       case cachedMT of Some t \<Rightarrow> mret t | None \<Rightarrow> createMerkleTree E rootHash)"

definition balance_of :: "merkle_tree \<Rightarrow> string \<Rightarrow> string" where
  "balance_of t addr =
     (case List.find (\<lambda>leaf. av_address leaf = addr) (getLeaves t) of
        Some leaf \<Rightarrow> av_balance leaf
      | None \<Rightarrow> ''0'')"

definition snapshot_getAddressBalance :: "('x st) env \<Rightarrow> string \<Rightarrow> string \<Rightarrow> ('x st, string) prog" where
  "snapshot_getAddressBalance E roothash addr =
     mbind (getMerkleTree E roothash) (\<lambda>merkleTree. mret (balance_of merkleTree addr))"


section \<open>GovernanceOnchainProvidersSnapshotsMerkleService\<close>

definition getMerkleTreeKeyForProvider :: "string \<Rightarrow> string \<Rightarrow> string" where
  "getMerkleTreeKeyForProvider providerAddress pid = providerAddress @ ''-'' @ pid"

definition provider_file :: "'s env \<Rightarrow> string \<Rightarrow> string \<Rightarrow> string" where
  "provider_file E providerAddress pid = snapshotsPath E @ ''/'' @ providerAddress @ ''/'' @ pid @ ''.json''"

definition load_provider :: "('x st) env \<Rightarrow> string \<times> string \<Rightarrow> ('x st, merkle_tree) prog" where
  "load_provider E k =
     mbind (readFile E (provider_file E (fst k) (snd k))) (\<lambda>jsonContent. mlift (parse_tree E jsonContent))"

definition createMerkleTreeForProvider :: "('x st) env \<Rightarrow> string \<Rightarrow> string \<Rightarrow> ('x st, merkle_tree) prog" where
  "createMerkleTreeForProvider E providerAddress pid =
     mbind (load_provider E (providerAddress, pid)) (\<lambda>newMT.
     mthen (mmodify (\<lambda>s. s\<lparr>providerTrees :=
       (providerTrees s)(getMerkleTreeKeyForProvider providerAddress pid \<mapsto> newMT)\<rparr>)) (mret newMT))"

definition getMerkleTreeForProvider :: "('x st) env \<Rightarrow> string \<Rightarrow> string \<Rightarrow> ('x st, merkle_tree) prog" where
  "getMerkleTreeForProvider E providerAddress pid =
     mbind (mget (\<lambda>s. providerTrees s (getMerkleTreeKeyForProvider providerAddress pid))) (\<lambda>cachedMT.
       case cachedMT of Some t \<Rightarrow> mret t | None \<Rightarrow> createMerkleTreeForProvider E providerAddress pid)"

definition getRootHashForProvider :: "('x st) env \<Rightarrow> string \<Rightarrow> string \<Rightarrow> ('x st, string) prog" where
  "getRootHashForProvider E providerAddress pid =
     mbind (getMerkleTreeForProvider E providerAddress pid) (\<lambda>merkleTree.
       mret (drop 2 (getRootHash E merkleTree)))"

definition fileExists :: "('x st) env \<Rightarrow> string \<Rightarrow> ('x st, bool) prog" where
  "fileExists E path = mtry (mthen (fileAccess E path) (mret True)) (\<lambda>_. mret False)"

definition provider_getAddressBalance ::
  "('x st) env \<Rightarrow> string \<Rightarrow> string \<Rightarrow> string \<Rightarrow> ('x st, string) prog" where
  "provider_getAddressBalance E providerAddress pid addr =
     mtry (mbind (fileExists E (provider_file E providerAddress pid)) (\<lambda>present.
             if \<not> present then mret ''-1''
             else mbind (getMerkleTreeForProvider E providerAddress pid) (\<lambda>merkleTree.
                    mret (balance_of merkleTree addr))))
          (\<lambda>error. mret ''-1'')"


section \<open>The tables keep their promises\<close>

definition rooted :: "'s env \<Rightarrow> string \<Rightarrow> merkle_tree \<Rightarrow> bool" where
  "rooted E rootHash t \<longleftrightarrow> tree_ok E t \<and> getRootHash E t = ''0x'' @ rootHash"

lemma load_snapshot_rooted: "load_snapshot E r s = (Inr t, s') \<Longrightarrow> rooted E r t"
  by (auto simp: load_snapshot_def rooted_def mbind_Inr_iff dest: parse_tree_ok split: if_splits)

interpretation snap: memo_table merkleTrees
    "\<lambda>k t s. s\<lparr>merkleTrees := (merkleTrees s)(k \<mapsto> t)\<rparr>" "load_snapshot E" "\<lambda>k. k" "getMerkleTree E" "rooted E"
  for E :: "('x st) env"
  by unfold_locales
     (auto simp: getMerkleTree_def createMerkleTree_def dest: load_snapshot_rooted split: option.splits)

interpretation prov: memo_table providerTrees
    "\<lambda>k t s. s\<lparr>providerTrees := (providerTrees s)(k \<mapsto> t)\<rparr>" "load_provider E"
    "\<lambda>(a, p). getMerkleTreeKeyForProvider a p" "\<lambda>(a, p). getMerkleTreeForProvider E a p" "\<lambda>_. tree_ok E"
  for E :: "('x st) env"
  by unfold_locales
     (auto simp: getMerkleTreeForProvider_def createMerkleTreeForProvider_def load_provider_def mbind_Inr_iff
       dest: parse_tree_ok split: option.splits)

text \<open>Reading a file does not change the trees: the file system is not the process's memory.\<close>

definition files_quiet :: "('x st) env \<Rightarrow> bool" where
  "files_quiet E \<longleftrightarrow> (\<forall>p s. merkleTrees (snd (readFile E p s)) = merkleTrees s \<and>
     providerTrees (snd (readFile E p s)) = providerTrees s \<and>
     merkleTrees (snd (fileAccess E p s)) = merkleTrees s \<and>
     providerTrees (snd (fileAccess E p s)) = providerTrees s)"

lemma keeps_load_snapshot: "files_quiet E \<Longrightarrow> keeps (snap.valid E) (load_snapshot E r)"
  unfolding load_snapshot_def
  by (intro keeps_mbind keeps_mlift) (auto simp: keeps_def files_quiet_def snap.valid_def)

lemma keeps_getMerkleTree: "files_quiet E \<Longrightarrow> keeps (snap.valid E) (getMerkleTree E r)"
  by (intro snap.get_keeps keeps_load_snapshot)

text \<open>
  C4: the voting power read from a snapshot is certified by its root hash. Started on trees that have
  the root they are filed under, the table keeps only such trees, whatever is read; and the balance
  returned for an address is the one of its first leaf, or \<open>0\<close> without one, in a list of leaves whose
  hashes have the requested root. A snapshot file with another root gives no balance at all.
\<close>

theorem snapshot_balance_certified:
  assumes "files_quiet E" and "\<And>k t. merkleTrees s k = Some t \<Longrightarrow> rooted E k t"
    and "snapshot_getAddressBalance E rootHash addr s = (r, s')"
  shows "(\<forall>k t. merkleTrees s' k = Some t \<longrightarrow> rooted E k t) \<and>
    (\<forall>b. r = Inr b \<longrightarrow>
      (\<exists>leaves hashes. rmap (encodeLeaf E) leaves = Inr hashes \<and> hexRoot E hashes = ''0x'' @ rootHash \<and>
         b = (case List.find (\<lambda>l. av_address l = addr) leaves of Some l \<Rightarrow> av_balance l | None \<Rightarrow> ''0'')))"
proof (intro conjI allI impI)
  have v: "snap.valid E s" using assms(2) by (simp add: snap.valid_def)
  have "keeps (snap.valid E) (snapshot_getAddressBalance E rootHash addr)"
    unfolding snapshot_getAddressBalance_def by (intro keeps_mbind keeps_getMerkleTree assms(1) keeps_mret)
  then have "snap.valid E s'" using v assms(3) unfolding keeps_def by (metis snd_conv)
  then show "rooted E k t" if "merkleTrees s' k = Some t" for k t
    using that by (simp add: snap.valid_def)
  fix b assume "r = Inr b"
  then obtain t where "getMerkleTree E rootHash s = (Inr t, s')" "b = balance_of t addr"
    using assms(3) by (auto simp: snapshot_getAddressBalance_def mbind_Inr_iff)
  moreover from this have "rooted E rootHash t" using snap.get_good [OF v] by blast
  ultimately show "\<exists>leaves hashes. rmap (encodeLeaf E) leaves = Inr hashes \<and>
      hexRoot E hashes = ''0x'' @ rootHash \<and>
      b = (case List.find (\<lambda>l. av_address l = addr) leaves of Some l \<Rightarrow> av_balance l | None \<Rightarrow> ''0'')"
    by (intro exI [of _ "mt_leaves t"] exI [of _ "mt_hashes t"])
       (simp add: rooted_def tree_ok_def getRootHash_def balance_of_def getLeaves_def)
qed

text \<open>
  A provider's snapshot that cannot be read is not an error. The balance lookup of the on-chain
  providers never throws; it returns the sentinel \<open>-1\<close> when the file is missing or its tree cannot be
  built, and otherwise the balance of the address in the tree, \<open>0\<close> when it has no leaf.
\<close>

theorem provider_balance_total:
  "\<exists>b s'. provider_getAddressBalance E a p addr s = (Inr b, s') \<and>
     (\<forall>s1. fileAccess E (provider_file E a p) s = (Inr (), s1) \<longrightarrow>
        (\<forall>t s2. getMerkleTreeForProvider E a p s1 = (Inr t, s2) \<longrightarrow> b = balance_of t addr \<and> s' = s2) \<and>
        (\<forall>e s2. getMerkleTreeForProvider E a p s1 = (Inl e, s2) \<longrightarrow> b = ''-1'')) \<and>
     (\<forall>e s1. fileAccess E (provider_file E a p) s = (Inl e, s1) \<longrightarrow> b = ''-1'' \<and> s' = s1)"
  by (auto simp: provider_getAddressBalance_def fileExists_def mtry_def mbind_def mthen_def
      split: prod.splits sum.splits if_splits)

text \<open>
  Two different entries cannot share a leaf. When addresses have 32 bytes and the numbers are
  written by an injective hexadecimal encoding, two leaves with the same hash either have the same
  address bytes and the same power or are two different inputs on which the hash function collides.
\<close>

theorem encodeLeaf_binding:
  assumes "encodeLeaf E x = Inr h" "encodeLeaf E y = Inr h"
    and "addressHex E (av_address x) = Inr (to_hex ax)" "addressHex E (av_address y) = Inr (to_hex ay)"
    and "length ax = 32" "length ay = 32"
    and "bigUIntHex E (bn_of_string (av_balance x)) = Inr (to_hex px)"
    and "bigUIntHex E (bn_of_string (av_balance y)) = Inr (to_hex py)"
  shows "(ax = ay \<and> px = py) \<or>
    (\<exists>u v. u \<noteq> v \<and> sha256 E u = sha256 E v \<and> u = to_hex (ax @ px) \<and> v = to_hex (ay @ py))"
proof (cases "to_hex (ax @ px) = to_hex (ay @ py)")
  case True
  then have "ax @ px = ay @ py" by (metis from_to_hex)
  then show ?thesis using assms(5,6) by simp
next
  case False
  moreover have "sha256 E (to_hex (ax @ px)) = sha256 E (to_hex (ay @ py))"
    using assms(1-4,7,8) by (simp add: encodeLeaf_def)
  ultimately show ?thesis by blast
qed

text \<open>the total of a tree is the sum of the balances of its leaves, printed in full.\<close>

theorem getTotalBalance_sum:
  assumes "map av_balance (mt_leaves t) = map show_int bs"
  shows "getTotalBalance t = show_int (sum_list bs)"
proof -
  have "foldl (\<lambda>acc l. bn_plus acc (bn_of_string (av_balance l))) (bn_int n) ls = bn_int (n + sum_list bs)"
    if "map av_balance ls = map show_int bs" for n ls
    using that by (induction bs arbitrary: n ls) (auto simp: add.assoc)
  from this [OF assms, of 0] show ?thesis by (simp add: getTotalBalance_def)
qed


section \<open>Concrete snapshots\<close>

text \<open>A file system with one file, whose text is parsed to one leaf.\<close>

definition snap_env :: "memory_state env" where
  "snap_env = example_env\<lparr>readFile := \<lambda>p. mret ''file'', fileAccess := \<lambda>p. mret (),
     JSON_parse := \<lambda>j. Inr (JArr [JObj [(''address'', JStr ''aa''), (''balance'', JStr ''5'')]])\<rparr>"

lemma snap_env_quiet: "files_quiet snap_env"
  by (simp add: files_quiet_def snap_env_def)

lemma snap_run: "fst (snapshot_getAddressBalance snap_env ''616105'' ''aa'' empty_memory) = Inr ''5''"
  by code_simp

theorem snapshot_balance_certified_witness:
  "\<exists>leaves hashes. rmap (encodeLeaf snap_env) leaves = Inr hashes \<and> hexRoot snap_env hashes = ''0x'' @ ''616105'' \<and>
     ''5'' = (case List.find (\<lambda>l. av_address l = ''aa'') leaves of Some l \<Rightarrow> av_balance l | None \<Rightarrow> ''0'')"
proof -
  obtain s' where run: "snapshot_getAddressBalance snap_env ''616105'' ''aa'' empty_memory = (Inr ''5'', s')"
    using snap_run by (metis fst_conv surj_pair)
  have "merkleTrees empty_memory k = Some t \<Longrightarrow> rooted snap_env k t" for k t
    by (simp add: empty_memory_def)
  from snapshot_balance_certified [OF snap_env_quiet this run] show ?thesis by blast
qed

lemma provider_run:
  "fst (provider_getAddressBalance snap_env ''prov'' ''1'' ''aa'' empty_memory) = Inr ''5''"
  by code_simp

theorem provider_balance_total_witness:
  "\<exists>b s'. provider_getAddressBalance snap_env ''prov'' ''1'' ''aa'' empty_memory = (Inr b, s') \<and> b = ''5''"
  using provider_balance_total [of snap_env "''prov''" "''1''" "''aa''" empty_memory] provider_run
  by auto

definition bind_env :: "memory_state env" where
  "bind_env = example_env\<lparr>bigUIntHex := \<lambda>_. Inr (to_hex ''5'')\<rparr>"

definition bind_leaf :: address_voting_power where
  "bind_leaf = \<lparr>av_address = replicate 32 (CHR ''a''), av_balance = ''53''\<rparr>"

theorem encodeLeaf_binding_witness:
  "(replicate 32 (CHR ''a'') = replicate 32 (CHR ''a'') \<and> ''5'' = ''5'') \<or>
    (\<exists>u v. u \<noteq> v \<and> sha256 bind_env u = sha256 bind_env v \<and>
       u = to_hex (replicate 32 (CHR ''a'') @ ''5'') \<and> v = to_hex (replicate 32 (CHR ''a'') @ ''5''))"
  by (rule encodeLeaf_binding
        [of bind_env bind_leaf "to_hex (replicate 32 (CHR ''a'') @ ''5'')" bind_leaf])
     (simp_all add: bind_env_def bind_leaf_def encodeLeaf_def example_env_def memory_env_def)

theorem getTotalBalance_sum_witness:
  "getTotalBalance \<lparr>mt_hashes = [], mt_leaves = [\<lparr>av_address = ''a'', av_balance = show_int 40\<rparr>,
      \<lparr>av_address = ''b'', av_balance = show_int 2\<rparr>]\<rparr> = show_int 42"
  using getTotalBalance_sum [of "\<lparr>mt_hashes = [], mt_leaves = [\<lparr>av_address = ''a'', av_balance = show_int 40\<rparr>,
      \<lparr>av_address = ''b'', av_balance = show_int 2\<rparr>]\<rparr>" "[40, 2]"] by simp

end
