(* ===== verification/Gov_Chain.thy ===== *)
theory Gov_Chain
  imports Gov_Merkle
begin

text \<open>
  Queries of smart contracts: \<open>src/services/multiversx-communication/mx.proxy.service.ts\<close> with its
  static table of contracts, \<open>src/utils/results.parser.ts\<close>, \<open>src/services/generics/generic.abi.service.ts\<close>
  and the locked asset services. Building a query and decoding its answer by the contract's ABI is
  the SDK's. A query that nobody else is waiting for goes straight through the pending executor.
\<close>

section \<open>Results\<close>

record typed_outcome =
  to_returnCode :: string
  to_returnMessage :: string
  to_values :: "scval list"

text \<open>\<open>ResultsParser.parseQueryResponse\<close> decodes every answer, whatever its return code.\<close>

definition parseQueryResponse ::
  "'s env \<Rightarrow> query_response \<Rightarrow> smart_contract \<Rightarrow> string \<Rightarrow> exn + typed_outcome" where
  "parseQueryResponse E queryResponse contract endpoint =
     (let parts = returnDataParts E (returnData queryResponse)
      in rbind (buffersToValues E parts (sc_abi contract) endpoint) (\<lambda>values.
           Inr \<lparr>to_returnCode = returnCode queryResponse,
                to_returnMessage = returnMessage queryResponse, to_values = values\<rparr>))"

text \<open>\<open>firstValue\<close> is \<open>undefined\<close> for an empty result, so calling a method on it throws.\<close>

definition firstValue :: "typed_outcome \<Rightarrow> scval option" where
  "firstValue r = (case to_values r of [] \<Rightarrow> None | v # _ \<Rightarrow> Some v)"

definition first_valueOf :: "typed_outcome \<Rightarrow> exn + scval" where
  "first_valueOf r = (case firstValue r of None \<Rightarrow> Inl TypeError | Some v \<Rightarrow> Inr v)"


section \<open>MXProxyService\<close>

text \<open>\<open>toString()\<close> of a value of a JSON answer.\<close>

definition js_toString :: "jsval \<Rightarrow> exn + string" where
  "js_toString v = (case v of
      JUndef \<Rightarrow> Inl TypeError
    | JNull \<Rightarrow> Inl TypeError
    | JStr s \<Rightarrow> Inr s
    | JNum x \<Rightarrow> Inr (bn_toFixed x)
    | JBig n \<Rightarrow> Inr (show_int n)
    | JAddr a \<Rightarrow> Inr a
    | JBool b \<Rightarrow> Inr (if b then ''true'' else ''false'')
    | _ \<Rightarrow> Inr ''[object Object]'')"

definition proxy_getAddressShardID :: "'s env \<Rightarrow> string \<Rightarrow> ('s, string) prog" where
  "proxy_getAddressShardID E addr =
     mbind (proxyGet E (''address/'' @ addr @ ''/shard'')) (\<lambda>response.
       mlift (rbind (js_get ''shardID'' response) js_toString))"

record contract_ref =
  cr_address :: string
  cr_abiPath :: "string option"
  cr_interface :: string

definition contract_key :: "contract_ref \<Rightarrow> string" where
  "contract_key r = cr_interface r @ ''.'' @ cr_address r"

text \<open>\<open>createSmartContract\<close> up to the table: read the ABI, parse it and the address.\<close>

definition load_contract :: "('x st) env \<Rightarrow> contract_ref \<Rightarrow> ('x st, smart_contract) prog" where
  "load_contract E r =
     (case cr_abiPath r of
        None \<Rightarrow> mthrow TypeError
      | Some path \<Rightarrow>
          mbind (readFile E path) (\<lambda>jsonContent.
          mbind (mlift (JSON_parse E jsonContent)) (\<lambda>json.
          mbind (mlift (addressHex E (cr_address r))) (\<lambda>_.
            mret \<lparr>sc_address = cr_address r, sc_abi = json\<rparr>))))"

definition createSmartContract :: "('x st) env \<Rightarrow> contract_ref \<Rightarrow> ('x st, smart_contract) prog" where
  "createSmartContract E r =
     mbind (load_contract E r) (\<lambda>newSC.
     mthen (mmodify (\<lambda>s. s\<lparr>smartContracts := (smartContracts s)(contract_key r \<mapsto> newSC)\<rparr>)) (mret newSC))"

definition getSmartContract :: "('x st) env \<Rightarrow> contract_ref \<Rightarrow> ('x st, smart_contract) prog" where
  "getSmartContract E r =
     mbind (mget (\<lambda>s. smartContracts s (contract_key r))) (\<lambda>known.
       case known of Some c \<Rightarrow> mret c | None \<Rightarrow> createSmartContract E r)"

definition getLockedAssetFactorySmartContract :: "('x st) env \<Rightarrow> ('x st, smart_contract) prog" where
  "getLockedAssetFactorySmartContract E =
     getSmartContract E \<lparr>cr_address = lockedAssetAddress E,
       cr_abiPath = Some (abi_lockedAssetFactory E), cr_interface = ''LockedAssetFactory''\<rparr>"

definition getSimpleLockEnergySmartContract :: "('x st) env \<Rightarrow> ('x st, smart_contract) prog" where
  "getSimpleLockEnergySmartContract E =
     getSmartContract E \<lparr>cr_address = simpleLockEnergy E,
       cr_abiPath = Some (abi_simpleLockEnergy E), cr_interface = ''SimpleLockEnergy''\<rparr>"

definition getGovernanceSmartContract ::
  "('x st) env \<Rightarrow> string \<Rightarrow> GovernanceType \<Rightarrow> ('x st, smart_contract) prog" where
  "getGovernanceSmartContract E governanceAddress ty =
     getSmartContract E \<lparr>cr_address = governanceAddress,
       cr_abiPath = abi_governance E (type_string ty), cr_interface = ''GovernanceV2''\<rparr>"

interpretation sctab: memo_table smartContracts
    "\<lambda>k t s. s\<lparr>smartContracts := (smartContracts s)(k \<mapsto> t)\<rparr>" "load_contract E" contract_key
    "getSmartContract E" "\<lambda>k c. \<exists>iface. k = iface @ ''.'' @ sc_address c"
  for E :: "('x st) env"
  by unfold_locales
     (auto simp: getSmartContract_def createSmartContract_def load_contract_def contract_key_def
       mbind_Inr_iff split: option.splits)


section \<open>GenericAbiService\<close>

definition getGenericData :: "('x st) env \<Rightarrow> interaction \<Rightarrow> ('x st, typed_outcome) prog" where
  "getGenericData E i =
     mbind (mlift (buildQuery E i)) (\<lambda>q.
     mbind (queryContract E q) (\<lambda>queryResponse.
       mlift (parseQueryResponse E queryResponse (int_contract i) (int_endpoint i))))"

text \<open>An interaction of a contract: \<open>contract.methods.endpoint(args)\<close>.\<close>

definition interact :: "smart_contract \<Rightarrow> string \<Rightarrow> sc_arg list \<Rightarrow> interaction" where
  "interact contract endpoint args =
     \<lparr>int_contract = contract, int_endpoint = endpoint, int_args = args\<rparr>"

text \<open>
  The body that the raw methods of the contract services share: get the contract, query one of its
  endpoints, and convert the first value of the answer.
\<close>

definition query_first ::
  "('x st) env \<Rightarrow> ('x st, smart_contract) prog \<Rightarrow> string \<Rightarrow> sc_arg list \<Rightarrow> (scval \<Rightarrow> exn + 'a) \<Rightarrow> ('x st, 'a) prog" where
  "query_first E getContract endpoint args conv =
     mbind getContract (\<lambda>contract.
     mbind (getGenericData E (interact contract endpoint args)) (\<lambda>response.
       mlift (rbind (first_valueOf response) conv)))"

definition abi_getLockedTokenID :: "('x st) env \<Rightarrow> ('x st, string) prog" where
  "abi_getLockedTokenID E =
     query_first E (getLockedAssetFactorySmartContract E) ''getLockedAssetTokenId'' [] sc_string"

definition getLockedTokenID :: "('x st) env \<Rightarrow> ('x st, string) prog" where
  "getLockedTokenID E =
     getData E (getCacheKey ''lockedAssetFactory'' [KStr ''lockedTokenID'']) strC
       (abi_getLockedTokenID E) (ttl_Token E)"

text \<open>What a query that succeeds has found, for proofs about the services built on it.\<close>

lemma query_first_InrE:
  assumes "query_first E getContract endpoint args conv s = (Inr a, s')"
  obtains c s1 r v where "getContract s = (Inr c, s1)"
    and "getGenericData E (interact c endpoint args) s1 = (Inr r, s')"
    and "firstValue r = Some v" and "conv v = Inr a"
  using assms
  by (auto simp: query_first_def mbind_Inr_iff first_valueOf_def rbind_Inr_iff split: option.splits)

lemma query_first_eq:
  assumes "getContract s = (Inr c, s1)" "getGenericData E (interact c endpoint args) s1 = (Inr r, s2)"
    and "firstValue r = Some v"
  shows "query_first E getContract endpoint args conv s = (conv v, s2)"
  using assms by (simp add: query_first_def first_valueOf_def)

text \<open>A table of contract objects in which every entry has the address that its key names.\<close>

definition addressed :: "(string \<Rightarrow> smart_contract option) \<Rightarrow> bool" where
  "addressed t \<longleftrightarrow>
     (\<forall>k c. t k = Some c \<longrightarrow> (\<exists>iface. CHR ''.'' \<notin> set iface \<and> k = iface @ ''.'' @ sc_address c))"

lemma addressed_entry:
  assumes "addressed t" "CHR ''.'' \<notin> set (cr_interface r)" "t (contract_key r) = Some c"
  shows "sc_address c = cr_address r"
proof -
  obtain iface where "CHR ''.'' \<notin> set iface" "contract_key r = iface @ ''.'' @ sc_address c"
    using assms(1,3) unfolding addressed_def by blast
  then show ?thesis
    using assms(2) append_char_unique [of iface "CHR ''.''" "sc_address c" "cr_interface r" "cr_address r"]
    by (simp add: contract_key_def)
qed

lemma addressed_insert:
  assumes "addressed t" "CHR ''.'' \<notin> set (cr_interface r)" "sc_address c = cr_address r"
  shows "addressed (t(contract_key r \<mapsto> c))"
proof -
  have "contract_key r = cr_interface r @ ''.'' @ sc_address c" using assms(3) by (simp add: contract_key_def)
  then show ?thesis using assms(1,2) unfolding addressed_def by (metis fun_upd_apply option.inject)
qed

lemma getSmartContract_found:
  assumes "getSmartContract E r s = (Inr c, s')"
    and "\<And>p s. smartContracts (snd (readFile E p s)) = smartContracts s"
  shows "(smartContracts s (contract_key r) = Some c \<and> s' = s) \<or>
    (sc_address c = cr_address r \<and> smartContracts s' = (smartContracts s)(contract_key r \<mapsto> c))"
proof -
  have loaded: "sc_address c = cr_address r \<and> smartContracts s1 = smartContracts s"
    if "load_contract E r s = (Inr c, s1)" for s1
    using that assms(2) by (auto simp: load_contract_def mbind_Inr_iff split: option.splits) (metis snd_conv)
  show ?thesis
    using assms(1) by (auto simp: getSmartContract_def createSmartContract_def mbind_Inr_iff mthen_apply
        dest!: loaded split: option.splits)
qed

text \<open>
  The contract that answers is the contract that was asked for. Contract objects are kept by the
  interface and address they were created for: when every entry of the table carries the address of
  its key, the object that \<open>getSmartContract\<close> returns carries the requested address (interface names
  have no dot), the table keeps that property, and a second request returns the same object without
  reading the ABI again.
\<close>

theorem getSmartContract_address:
  assumes "\<And>k c. smartContracts s k = Some c \<Longrightarrow> \<exists>iface. CHR ''.'' \<notin> set iface \<and> k = iface @ ''.'' @ sc_address c"
    and "\<And>p s. smartContracts (snd (readFile E p s)) = smartContracts s"
    and "CHR ''.'' \<notin> set (cr_interface r)"
    and "getSmartContract E r s = (Inr c, s')"
  shows "sc_address c = cr_address r \<and> getSmartContract E r s' = (Inr c, s') \<and>
    (\<forall>k c. smartContracts s' k = Some c \<longrightarrow> (\<exists>iface. CHR ''.'' \<notin> set iface \<and> k = iface @ ''.'' @ sc_address c))"
proof -
  have A: "addressed (smartContracts s)" using assms(1) unfolding addressed_def by blast
  have "sc_address c = cr_address r \<and> addressed (smartContracts s')"
    using getSmartContract_found [OF assms(4,2)] addressed_entry [OF A assms(3)] addressed_insert [OF A assms(3)] A by auto
  then show ?thesis unfolding addressed_def using sctab.get_twice [OF assms(4)] by blast
qed

definition abi_env :: "memory_state env" where
  "abi_env = example_env\<lparr>readFile := \<lambda>p. mret ''{}'', JSON_parse := \<lambda>j. Inr (JObj []),
     abi_governance := \<lambda>t. Some (''abi/'' @ t)\<rparr>"

definition abi_ref :: contract_ref where
  "abi_ref = \<lparr>cr_address = ''erdA'', cr_abiPath = Some ''abi'', cr_interface = ''GovernanceV2''\<rparr>"

theorem getSmartContract_address_witness:
  "\<exists>s'. getSmartContract abi_env abi_ref empty_memory = (Inr \<lparr>sc_address = ''erdA'', sc_abi = JObj []\<rparr>, s') \<and>
     sc_address \<lparr>sc_address = ''erdA'', sc_abi = JObj []\<rparr> = cr_address abi_ref \<and>
     getSmartContract abi_env abi_ref s' = (Inr \<lparr>sc_address = ''erdA'', sc_abi = JObj []\<rparr>, s')"
proof -
  obtain s' where run: "getSmartContract abi_env abi_ref empty_memory = (Inr \<lparr>sc_address = ''erdA'', sc_abi = JObj []\<rparr>, s')"
    by (simp add: getSmartContract_def createSmartContract_def load_contract_def abi_env_def abi_ref_def
        empty_memory_def mthen_apply example_env_def memory_env_def)
  show ?thesis
    by (rule exI [of _ s']) (insert getSmartContract_address [OF _ _ _ run], use run in
      \<open>simp add: empty_memory_def abi_env_def abi_ref_def\<close>)
qed

end
