(* ===== verification/Gov_Context.thy ===== *)
theory Gov_Context
  imports Gov_Chain
begin

text \<open>
  What the service reads from the network's API and keeps for a short time:
  \<open>src/services/multiversx-communication/mx.api.service.ts\<close> with its retries,
  \<open>src/services/context/context.getter.service.ts\<close> (epochs, first blocks, rounds and the quorum of the
  staking contract), \<open>src/modules/tokens/services/token.service.ts\<close> and the energy services.
\<close>

section \<open>MXApiService\<close>

text \<open>
  A request that timed out is repeated, at most twice; every other error is wrapped in a new one,
  which keeps the message only. An error that did not come from the client has no \<open>inner\<close>, and
  reading it throws.
\<close>

function doGetGeneric :: "'s env \<Rightarrow> string \<Rightarrow> string \<Rightarrow> nat \<Rightarrow> ('s, jsval) prog" where
  "doGetGeneric E name resourceUrl retries =
     mtry (apiProviderGet E resourceUrl) (\<lambda>error.
       case error of
         RemoteError r \<Rightarrow>
           (if isAxiosError r \<and> code r = ''ECONNABORTED'' \<and> retries < 3
            then mthen (delay E (500 * int retries)) (doGetGeneric E name resourceUrl (retries + 1))
            else mthrow (PlainError (''Error: '' @ message r)))
       | _ \<Rightarrow> mthrow TypeError)"
  by pat_completeness auto
termination by (relation "measure (\<lambda>(_, _, _, retries). 3 - retries)") auto

declare doGetGeneric.simps [simp del]

definition js_opt_string :: "jsval \<Rightarrow> string option" where
  "js_opt_string v = (case v of JStr s \<Rightarrow> Some s | _ \<Rightarrow> None)"

definition js_opt_int :: "jsval \<Rightarrow> int option" where
  "js_opt_int v = (case js_int v of Inr n \<Rightarrow> Some n | Inl _ \<Rightarrow> None)"

definition js_opt_bool :: "jsval \<Rightarrow> bool option" where
  "js_opt_bool v = (case v of JBool b \<Rightarrow> Some b | _ \<Rightarrow> None)"

definition js_opt :: "jsval \<Rightarrow> jsval option" where
  "js_opt v = (if v = JUndef then None else Some v)"

definition stats_of_json :: "jsval \<Rightarrow> exn + stats" where
  "stats_of_json v =
     rbind (rbind (js_get ''epoch'' v) js_int) (\<lambda>e.
     rbind (rbind (js_get ''roundsPassed'' v) js_int) (\<lambda>p.
     rbind (rbind (js_get ''roundsPerEpoch'' v) js_int) (\<lambda>r.
       Inr \<lparr>st_shards = js_opt_int (js_field ''shards'' v), st_blocks = js_opt_int (js_field ''blocks'' v),
            st_accounts = js_opt_int (js_field ''accounts'' v), st_transactions = js_opt_int (js_field ''transactions'' v),
            st_scResults = js_opt_int (js_field ''scResults'' v), st_refreshRate = js_opt_int (js_field ''refreshRate'' v),
            epoch = e, roundsPassed = p, roundsPerEpoch = r\<rparr>)))"

definition api_getStats :: "'s env \<Rightarrow> ('s, stats) prog" where
  "api_getStats E = mbind (doGetGeneric E ''getStats'' ''stats'' 1) (\<lambda>v. mlift (stats_of_json v))"

definition block_of_json :: "jsval \<Rightarrow> exn + block_data" where
  "block_of_json v =
     rbind (rbind (js_get ''timestamp'' v) js_int) (\<lambda>t.
     rbind (rbind (js_get ''nonce'' v) js_int) (\<lambda>n.
       Inr \<lparr>timestamp = t, blk_nonce = n\<rparr>))"

definition api_getFirstBlockData :: "'s env \<Rightarrow> int \<Rightarrow> string \<Rightarrow> ('s, block_data) prog" where
  "api_getFirstBlockData E ep shardId =
     mbind (doGetGeneric E ''getFirstBlockDataByEpochAndShard''
        (''blocks?size=1&epoch='' @ show_int ep @ ''&shard='' @ shardId @ ''&order=asc'') 1)
       (\<lambda>v. mlift (rbind (js_index 0 v) block_of_json))"

text \<open>The constructor of \<open>AssetsModel\<close> copies the fields it is given, none from \<open>undefined\<close>.\<close>

definition assets_of_json :: "jsval \<Rightarrow> assets_model" where
  "assets_of_json v =
     \<lparr>as_website = js_opt_string (js_field ''website'' v), as_description = js_opt_string (js_field ''description'' v),
      as_status = js_opt_string (js_field ''status'' v), as_pngUrl = js_opt_string (js_field ''pngUrl'' v),
      as_svgUrl = js_opt_string (js_field ''svgUrl'' v), as_lockedAccounts = js_opt (js_field ''lockedAccounts'' v),
      as_extraTokens = js_opt (js_field ''extraTokens'' v)\<rparr>"

text \<open>
  The constructor of \<open>EsdtToken\<close> copies every field and makes an object of the assets; an answer that is
  \<open>undefined\<close> or \<open>null\<close> has no assets to read.
\<close>

definition token_of_json :: "jsval \<Rightarrow> exn + esdt_token" where
  "token_of_json v =
     rbind (js_get ''assets'' v) (\<lambda>assets.
       let str = (\<lambda>k. js_opt_string (js_field k v)); num = (\<lambda>k. js_opt_int (js_field k v));
           flag = (\<lambda>k. js_opt_bool (js_field k v))
       in Inr \<lparr>tok_identifier = str ''identifier'', tok_name = str ''name'', tok_ticker = str ''ticker'',
            tok_owner = str ''owner'', tok_minted = str ''minted'', tok_burnt = str ''burnt'',
            tok_initialMinted = str ''initialMinted'', decimals = num ''decimals'', tok_price = str ''price'',
            tok_supply = str ''supply'', tok_circulatingSupply = str ''circulatingSupply'',
            tok_assets = assets_of_json assets, tok_transactions = num ''transactions'', tok_accounts = num ''accounts'',
            tok_isPaused = flag ''isPaused'', tok_canUpgrade = flag ''canUpgrade'', tok_canMint = flag ''canMint'',
            tok_canBurn = flag ''canBurn'', tok_canChangeOwner = flag ''canChangeOwner'',
            tok_canPause = flag ''canPause'', tok_canFreeze = flag ''canFreeze'', tok_canWipe = flag ''canWipe'',
            tok_type = str ''type'', tok_balance = str ''balance''\<rparr>)"

text \<open>\<open>TokensResolver.assets\<close> makes the same object once more.\<close>

definition res_token_assets :: "esdt_token \<Rightarrow> assets_model" where
  "res_token_assets parent = tok_assets parent"

text \<open>\<open>src/utils/token.type.compare.ts\<close>: a token without a name or without decimals is not valid.\<close>

definition isEsdtToken :: "esdt_token \<Rightarrow> bool" where
  "isEsdtToken token \<longleftrightarrow> tok_identifier token \<noteq> None"

definition isEsdtTokenValid :: "esdt_token \<Rightarrow> bool" where
  "isEsdtTokenValid token \<longleftrightarrow>
     \<not> (tok_identifier token = None \<or> tok_identifier token = Some [] \<or>
        decimals token = None \<or> decimals token = Some 0)"

definition api_getToken :: "'s env \<Rightarrow> string \<Rightarrow> ('s, esdt_token option) prog" where
  "api_getToken E tokenID =
     mtry (mbind (doGetGeneric E ''getToken'' (''tokens/'' @ tokenID) 1) (\<lambda>rawToken.
           mbind (mlift (token_of_json rawToken)) (\<lambda>esdtToken.
             if \<not> isEsdtToken esdtToken then mret None
             else if \<not> isEsdtTokenValid esdtToken
             then mbind (fungibleToken E tokenID) (\<lambda>gatewayToken.
                    mret (Some (esdtToken\<lparr>tok_identifier := Some (fst gatewayToken),
                                          decimals := Some (snd gatewayToken)\<rparr>)))
             else mret (Some esdtToken))))
          (\<lambda>error. mret None)"

definition error_statusCode :: "exn \<Rightarrow> int option" where
  "error_statusCode e = (case e of RemoteError r \<Rightarrow> statusCode r | _ \<Rightarrow> None)"

definition api_getTokenBalanceForAddress :: "'s env \<Rightarrow> string \<Rightarrow> string \<Rightarrow> ('s, string option) prog" where
  "api_getTokenBalanceForAddress E userAddress tokenID =
     mtry (mbind (doGetGeneric E ''getTokenBalanceForAddress''
             (''accounts/'' @ userAddress @ ''/tokens/'' @ tokenID @ ''?fields=balance'') 1)
             (\<lambda>v. mbind (mlift (js_get ''balance'' v)) (\<lambda>b. mret (js_opt_string b))))
          (\<lambda>error. if error_statusCode error = Some 404 then mret (Some ''0'') else mthrow error)"

definition api_getTokenForUser :: "'s env \<Rightarrow> string \<Rightarrow> string \<Rightarrow> ('s, jsval) prog" where
  "api_getTokenForUser E addr tokenID =
     doGetGeneric E ''getTokenForUser'' (''accounts/'' @ addr @ ''/tokens/'' @ tokenID) 1"

definition api_getCurrentNonce :: "'s env \<Rightarrow> int \<Rightarrow> ('s, jsval) prog" where
  "api_getCurrentNonce E shardId =
     doGetGeneric E ''getCurrentNonce'' (''network/status/'' @ show_int shardId) 1"

definition api_getCurrentBlockNonce :: "'s env \<Rightarrow> int \<Rightarrow> ('s, jsval) prog" where
  "api_getCurrentBlockNonce E shardId =
     mbind (doGetGeneric E ''getCurrentBlockNonce'' (''blocks?size=1&shard='' @ show_int shardId) 1)
       (\<lambda>latestBlock. mlift (rbind (js_index 0 latestBlock) (js_get ''nonce'')))"

definition api_getBalanceForAddress :: "'s env \<Rightarrow> string \<Rightarrow> ('s, string) prog" where
  "api_getBalanceForAddress E addr =
     mbind (doGetGeneric E ''getBalanceForAddress'' (''accounts/'' @ addr @ ''?fields=balance'') 1)
       (\<lambda>v. mlift (rbind (js_get ''balance'' v) js_string))"


section \<open>ContextGetterService\<close>

definition context_key :: "string \<Rightarrow> string" where
  "context_key name = getCacheKey ''context'' [KStr name]"

definition getCurrentEpoch :: "'s env \<Rightarrow> ('s, int) prog" where
  "getCurrentEpoch E =
     getData E (context_key ''currentEpoch'') numC (mbind (api_getStats E) (\<lambda>st. mret (epoch st)))
       (oneMinute E, None)"

definition getStats :: "'s env \<Rightarrow> ('s, stats) prog" where
  "getStats E = getData E (context_key ''stats'') statsC (api_getStats E) (oneSecond E * 6, None)"

definition getFirstBlockData :: "'s env \<Rightarrow> int \<Rightarrow> string \<Rightarrow> ('s, block_data) prog" where
  "getFirstBlockData E ep shardID =
     getData E (context_key (''first-block-data:'' @ shardID @ '':'' @ show_int ep)) blockC
       (api_getFirstBlockData E ep shardID) (oneMinute E, None)"

definition getFirstBlockTimestampByEpochAndShard :: "'s env \<Rightarrow> int \<Rightarrow> string \<Rightarrow> ('s, int) prog" where
  "getFirstBlockTimestampByEpochAndShard E targetEpoch shardID =
     mbind (getStats E) (\<lambda>st.
       let currentEpoch = epoch st in
       if targetEpoch \<le> currentEpoch
       then mbind (getFirstBlockData E targetEpoch shardID) (\<lambda>b. mret (timestamp b))
       else mbind (getFirstBlockData E currentEpoch shardID) (\<lambda>b.
              let epochDiff = targetEpoch - currentEpoch;
                  epochTime = (if chainID E = ''1'' then oneDay E else oneHour E * 4)
              in mret (timestamp b + epochDiff * epochTime)))"

definition getFirstBlockNonceByEpochAndShard :: "'s env \<Rightarrow> int \<Rightarrow> string \<Rightarrow> ('s, int) prog" where
  "getFirstBlockNonceByEpochAndShard E targetEpoch shardID =
     mbind (getStats E) (\<lambda>st.
       let currentEpoch = epoch st in
       if targetEpoch \<le> currentEpoch
       then mbind (getFirstBlockData E targetEpoch shardID) (\<lambda>b. mret (blk_nonce b))
       else mbind (getFirstBlockData E currentEpoch shardID) (\<lambda>b.
              let epochDiff = targetEpoch - currentEpoch
              in mret (blk_nonce b + epochDiff * roundsPerEpoch st)))"

definition rounds_left :: "int \<Rightarrow> stats \<Rightarrow> int" where
  "rounds_left ep st =
     (let epochDiff = ep - epoch st
      in if 0 < epochDiff then roundsPerEpoch st * epochDiff - roundsPassed st else 0)"

definition getRoundsLeftUntilEpoch :: "'s env \<Rightarrow> int \<Rightarrow> ('s, int) prog" where
  "getRoundsLeftUntilEpoch E ep =
     mbind (getStats E) (\<lambda>st.
       getData E (context_key (''rounds-until-epoch:'' @ show_int ep)) numC
         (mret (rounds_left ep st)) (oneMinute E, None))"

definition getTotalQuorum :: "'s env \<Rightarrow> ('s, string) prog" where
  "getTotalQuorum E =
     getData E (context_key ''total-quorum'') strC
       (api_getBalanceForAddress E (stakingContract E)) (oneMinute E * 5, None)"


section \<open>TokenService\<close>

definition getTokenMetadata :: "'s env \<Rightarrow> string option \<Rightarrow> ('s, esdt_token option) prog" where
  "getTokenMetadata E tokenID =
     (case tokenID of
        None \<Rightarrow> mret None
      | Some t \<Rightarrow>
         (let cacheKey = ''token.'' @ t in
          mbind (cacheGet E cacheKey) (\<lambda>found.
            case found of
              Some v \<Rightarrow>
                mbind (mlift (snd tokenC v)) (\<lambda>cachedToken.
                mthen (cacheSet E cacheKey (fst tokenC cachedToken) (fst (ttl_Token E)) (snd (ttl_Token E)))
                      (mret (Some cachedToken)))
            | None \<Rightarrow>
                mbind (api_getToken E t) (\<lambda>token.
                  case token of
                    Some tk \<Rightarrow>
                      mthen (cacheSet E cacheKey (fst tokenC tk) (fst (ttl_Token E)) (snd (ttl_Token E)))
                            (mret (Some tk))
                  | None \<Rightarrow> mret None))))"

definition getTokenBalanceForAddress ::
  "'s env \<Rightarrow> string option \<Rightarrow> string option \<Rightarrow> ('s, string option) prog" where
  "getTokenBalanceForAddress E userAddress tokenID =
     (case (userAddress, tokenID) of
        (Some u, Some t) \<Rightarrow>
         (let cacheKey = ''user.'' @ u @ ''.token.'' @ t in
          mbind (cacheGet E cacheKey) (\<lambda>found.
            case (case found of Some (VStr b) \<Rightarrow> if b \<noteq> [] then Some b else None | _ \<Rightarrow> None) of
              Some b \<Rightarrow> mret (Some b)
            | None \<Rightarrow>
                mbind (api_getTokenBalanceForAddress E u t) (\<lambda>balance.
                  case balance of
                    Some b \<Rightarrow>
                      mthen (cacheSet E cacheKey (VStr b) (fst (ttl_Token E)) (snd (ttl_Token E)))
                            (mret (Some b))
                  | None \<Rightarrow> mret None)))
      | _ \<Rightarrow> mret None)"


section \<open>Retries and lost status codes\<close>

definition timed_out :: "exn \<Rightarrow> bool" where
  "timed_out e = (case e of RemoteError r \<Rightarrow> isAxiosError r \<and> code r = ''ECONNABORTED'' | _ \<Rightarrow> False)"

lemma doGetGeneric_Inr [simp]:
  "apiProviderGet E u s = (Inr v, s') \<Longrightarrow> doGetGeneric E n u k s = (Inr v, s')"
  by (subst doGetGeneric.simps) simp

lemma doGetGeneric_final:
  assumes "apiProviderGet E u s = (Inl (RemoteError r), s')" "\<not> timed_out (RemoteError r) \<or> 3 \<le> k"
  shows "doGetGeneric E n u k s = (Inl (PlainError (''Error: '' @ message r)), s')"
  using assms by (subst doGetGeneric.simps) (auto simp: timed_out_def)

lemma doGetGeneric_retry:
  assumes "apiProviderGet E u s = (Inl e, s1)" "timed_out e" "k < 3"
    and "delay E (500 * int k) s1 = (Inr (), s2)"
  shows "doGetGeneric E n u k s = doGetGeneric E n u (k + 1) s2"
proof -
  obtain r where r: "e = RemoteError r" using assms(2) by (cases e) (auto simp: timed_out_def)
  then have "isAxiosError r \<and> code r = ''ECONNABORTED''" using assms(2) by (simp add: timed_out_def)
  then show ?thesis using assms r by (subst doGetGeneric.simps) simp
qed

text \<open>
  C32: a request is made at most three times. If the first two requests time out, the third one
  settles the matter after waits of 500 and 1000 milliseconds: its answer is returned, and its error
  is thrown with its message only, a third time-out included.
\<close>

theorem doGetGeneric_three_times:
  assumes "apiProviderGet E u s0 = (Inl e1, s1)" "timed_out e1" "delay E 500 s1 = (Inr (), s2)"
    and "apiProviderGet E u s2 = (Inl e2, s3)" "timed_out e2" "delay E 1000 s3 = (Inr (), s4)"
    and "apiProviderGet E u s4 = (r3, s5)"
  shows "(\<forall>v. r3 = Inr v \<longrightarrow> doGetGeneric E n u 1 s0 = (Inr v, s5)) \<and>
    (\<forall>r. r3 = Inl (RemoteError r) \<longrightarrow>
      doGetGeneric E n u 1 s0 = (Inl (PlainError (''Error: '' @ message r)), s5))"
proof -
  have "doGetGeneric E n u 1 s0 = doGetGeneric E n u 2 s2"
    using doGetGeneric_retry [OF assms(1,2), of 1 s2 n] assms(3) by (simp add: numeral_2_eq_2)
  also have "\<dots> = doGetGeneric E n u 3 s4"
    using doGetGeneric_retry [OF assms(4,5), of 2 s4 n] assms(6) by (simp add: numeral_3_eq_3)
  finally have eq: "doGetGeneric E n u 1 s0 = doGetGeneric E n u 3 s4" .
  show ?thesis
    unfolding eq using assms(7) doGetGeneric_final [of E u s4 _ s5 3 n] by auto
qed

definition timeout_error :: exn where
  "timeout_error = RemoteError \<lparr>message = ''timeout'', statusCode = None, isAxiosError = True,
     code = ''ECONNABORTED''\<rparr>"

definition slow_env :: "memory_state env" where
  "slow_env = example_env\<lparr>apiProviderGet := \<lambda>u. mthrow timeout_error\<rparr>"

theorem doGetGeneric_three_times_witness:
  "doGetGeneric slow_env ''getStats'' ''stats'' 1 empty_memory = (Inl (PlainError ''Error: timeout''), empty_memory)"
  using doGetGeneric_three_times [of slow_env "''stats''" empty_memory timeout_error empty_memory
      empty_memory timeout_error empty_memory empty_memory "Inl timeout_error" empty_memory "''getStats''"]
  by (simp add: slow_env_def timeout_error_def timed_out_def example_env_def memory_env_def)

text \<open>
  The status code of a failed balance request is lost. When the request for a token balance fails
  and was not a time-out, the method throws, whatever the status: the branch that turns a 404 into
  the balance \<open>0\<close> cannot be reached, because \<open>doGetGeneric\<close> wraps the error.
\<close>

theorem balance_404_throws:
  assumes "apiProviderGet E (''accounts/'' @ u @ ''/tokens/'' @ t @ ''?fields=balance'') s = (Inl (RemoteError r), s')"
    and "\<not> timed_out (RemoteError r)"
  shows "api_getTokenBalanceForAddress E u t s = (Inl (PlainError (''Error: '' @ message r)), s')"
  using doGetGeneric_final [OF assms(1), of 1 "''getTokenBalanceForAddress''"] assms(2)
  by (simp add: api_getTokenBalanceForAddress_def error_statusCode_def)

definition missing_error :: remote_error where
  "missing_error = \<lparr>message = ''not found'', statusCode = Some 404, isAxiosError = True, code = ''ERR_BAD_REQUEST''\<rparr>"

theorem balance_404_throws_witness:
  "api_getTokenBalanceForAddress (example_env\<lparr>apiProviderGet := \<lambda>u. mthrow (RemoteError missing_error)\<rparr>)
     ''erdU'' ''T-1'' empty_memory = (Inl (PlainError ''Error: not found''), empty_memory)"
  using balance_404_throws [of "example_env\<lparr>apiProviderGet := \<lambda>u. mthrow (RemoteError missing_error)\<rparr>"
      "''erdU''" "''T-1''" empty_memory missing_error empty_memory]
  by (simp add: missing_error_def timed_out_def)


section \<open>Epochs to come\<close>

text \<open>
  C33: the three extrapolations to a future epoch agree. With the network's figures and the first block
  of the current epoch at hand, the first block of a later epoch is expected a whole number of epochs
  after it, in time and in rounds, and the rounds left until then are the distance from the current
  round, which is \<open>roundsPassed\<close> after the first block.
\<close>

theorem future_epoch_consistent:
  assumes "caching E visible"
    and "visible s (context_key ''stats'') = Some (VStats st)"
    and "visible s (context_key (''first-block-data:'' @ shard @ '':'' @ show_int (epoch st))) = Some (VBlock b)"
    and "visible s (context_key (''rounds-until-epoch:'' @ show_int target)) = None"
    and "epoch st < target"
  shows "\<exists>n left s'.
    getFirstBlockTimestampByEpochAndShard E target shard s =
      (Inr (timestamp b + (target - epoch st) * (if chainID E = ''1'' then oneDay E else oneHour E * 4)), s) \<and>
    getFirstBlockNonceByEpochAndShard E target shard s = (Inr n, s) \<and>
    getRoundsLeftUntilEpoch E target s = (Inr left, s') \<and>
    n = blk_nonce b + (target - epoch st) * roundsPerEpoch st \<and>
    n = (blk_nonce b + roundsPassed st) + left"
proof -
  have st: "getStats E s = (Inr st, s)"
    unfolding getStats_def getData_eq
    by (rule cached_hit [OF assms(1)]) (use assms(2) in simp_all)
  have b: "getFirstBlockData E (epoch st) shard s = (Inr b, s)"
    unfolding getFirstBlockData_def getData_eq
    by (rule cached_hit [OF assms(1)]) (use assms(3) in simp_all)
  obtain s' where "cached E (context_key (''rounds-until-epoch:'' @ show_int target)) (oneMinute E, None) numC
      (mret (rounds_left target st)) s = (Inr (rounds_left target st), s')"
    using cached_miss_ex [where visible = visible and s = s and body = "mret (rounds_left target st)"
        and a = "rounds_left target st" and t = "(oneMinute E, None)", OF assms(1) codecs_ok(2) assms(4)]
    by auto
  then have left: "getRoundsLeftUntilEpoch E target s = (Inr (rounds_left target st), s')"
    by (simp add: getRoundsLeftUntilEpoch_def getData_eq st)
  let ?n = "blk_nonce b + (target - epoch st) * roundsPerEpoch st"
  have "getFirstBlockNonceByEpochAndShard E target shard s = (Inr ?n, s)"
    using st b assms(5) by (simp add: getFirstBlockNonceByEpochAndShard_def Let_def)
  moreover have "?n = (blk_nonce b + roundsPassed st) + rounds_left target st"
    using assms(5) by (simp add: rounds_left_def Let_def)
  moreover note left
  ultimately show ?thesis
    using st b assms(5) unfolding getFirstBlockTimestampByEpochAndShard_def Let_def
    by (intro exI [of _ ?n] exI [of _ "rounds_left target st"] exI [of _ s'] conjI) simp_all
qed

definition stats_at :: "int \<Rightarrow> int \<Rightarrow> int \<Rightarrow> stats" where
  "stats_at e p r = \<lparr>st_shards = None, st_blocks = None, st_accounts = None, st_transactions = None, st_scResults = None,
     st_refreshRate = None, epoch = e, roundsPassed = p, roundsPerEpoch = r\<rparr>"

lemma stats_at_simps [simp]: "epoch (stats_at e p r) = e" "roundsPassed (stats_at e p r) = p" "roundsPerEpoch (stats_at e p r) = r"
  by (simp_all add: stats_at_def)

definition epoch_memory :: memory_state where
  "epoch_memory = empty_memory\<lparr>store :=
     [context_key ''stats'' \<mapsto> VStats (stats_at 10 100 2400),
      context_key ''first-block-data:1:10'' \<mapsto> VBlock \<lparr>timestamp = 1000, blk_nonce = 500\<rparr>]\<rparr>"

theorem future_epoch_consistent_witness:
  "\<exists>n left s'.
    getFirstBlockTimestampByEpochAndShard example_env 12 ''1'' epoch_memory = (Inr (1000 + 2 * (3600 * 4)), epoch_memory) \<and>
    getFirstBlockNonceByEpochAndShard example_env 12 ''1'' epoch_memory = (Inr n, epoch_memory) \<and>
    getRoundsLeftUntilEpoch example_env 12 epoch_memory = (Inr left, s') \<and>
    n = 500 + 2 * 2400 \<and> n = (500 + 100) + left"
proof -
  have keys: "context_key ''stats'' = ''context.stats''"
    "context_key ''first-block-data:1:10'' = ''context.first-block-data:1:10''"
    "context_key ''rounds-until-epoch:12'' = ''context.rounds-until-epoch:12''"
    "show_int 10 = ''10''" "show_int 12 = ''12''"
    by code_simp+
  show ?thesis
    using future_epoch_consistent [OF example_caching, of epoch_memory
        "stats_at 10 100 2400" "''1''" "\<lparr>timestamp = 1000, blk_nonce = 500\<rparr>" 12]
    by (simp add: epoch_memory_def empty_memory_def keys example_env_def memory_env_def)
qed

end
