(* ===== verification/Gov_Energy.thy ===== *)
theory Gov_Energy
  imports Gov_Context
begin

text \<open>
  Energy of a user: \<open>src/modules/energy/services\<close>. The contract's entry is read (through the cache
  or by a fresh query), and its amount is reduced by the locked tokens times the epochs since the
  entry was written.
\<close>

definition energyContractFor :: "('x st) env \<Rightarrow> string \<Rightarrow> ('x st, smart_contract) prog" where
  "energyContractFor E userAddress =
     mbind (getSimpleLockEnergySmartContract E) (\<lambda>contract.
     mbind (mlift (addressHex E userAddress)) (\<lambda>_. mret contract))"

definition getEnergyEntryForUserRaw :: "('x st) env \<Rightarrow> string \<Rightarrow> ('x st, energy) prog" where
  "getEnergyEntryForUserRaw E userAddress =
     query_first E (energyContractFor E userAddress) ''getEnergyEntryForUser'' [AddressValue userAddress]
       (energyFromDecoded E)"

definition energyEntryForUser :: "('x st) env \<Rightarrow> string \<Rightarrow> ('x st, energy) prog" where
  "energyEntryForUser E userAddress =
     GetOrSetCache E ''energy'' (oneMinute E, None) ''energyEntryForUser'' [KStr userAddress] energyC
       (getEnergyEntryForUserRaw E userAddress)"

definition getEnergyAmountForUserRaw :: "('x st) env \<Rightarrow> string \<Rightarrow> ('x st, string) prog" where
  "getEnergyAmountForUserRaw E userAddress =
     query_first E (energyContractFor E userAddress) ''getEnergyAmountForUser'' [AddressValue userAddress]
       sc_toFixed"

definition energyAmountForUser :: "('x st) env \<Rightarrow> string \<Rightarrow> ('x st, string) prog" where
  "energyAmountForUser E userAddress =
     GetOrSetCache E ''energy'' (oneSecond E, Some (oneSecond E)) ''energyAmountForUser'' [KStr userAddress] strC
       (getEnergyAmountForUserRaw E userAddress)"

definition isPausedRaw :: "('x st) env \<Rightarrow> ('x st, bool) prog" where
  "isPausedRaw E = query_first E (getSimpleLockEnergySmartContract E) ''isPaused'' [] sc_bool"

definition isPaused :: "('x st) env \<Rightarrow> ('x st, bool) prog" where
  "isPaused E = GetOrSetCache E ''energy'' (ttl_ContractState E) ''isPaused'' [] boolC (isPausedRaw E)"

text \<open>
  \<open>depleteUserEnergy\<close>: the first \<open>if\<close> of the source evaluates its entry and does not return it, so it
  has no effect and does not appear here.
\<close>

definition depleteUserEnergy :: "energy \<Rightarrow> int \<Rightarrow> energy" where
  "depleteUserEnergy energyEntry currentEpoch =
     (if bn_isPositive (bn_of_string (totalLockedTokens energyEntry)) \<and> 0 < lastUpdateEpoch energyEntry
      then (if currentEpoch \<le> lastUpdateEpoch energyEntry then energyEntry
            else
              (let epochDiff = currentEpoch - lastUpdateEpoch energyEntry;
                   energyDecrease = bn_times (bn_of_string (totalLockedTokens energyEntry)) (bn_int epochDiff)
               in energyEntry\<lparr>en_amount := bn_toFixed (bn_minus (bn_of_string (en_amount energyEntry)) energyDecrease)\<rparr>))
      else energyEntry)"

text \<open>\<open>Promise.all\<close> of two promises of different types.\<close>

definition promise_both :: "('s, 'a) prog \<Rightarrow> ('s, 'b) prog \<Rightarrow> ('s, 'a \<times> 'b) prog" where
  "promise_both m1 m2 =
     mbind (mattempt m1) (\<lambda>r1. mbind (mattempt m2) (\<lambda>r2.
       mlift (rbind r1 (\<lambda>a. rbind r2 (\<lambda>b. Inr (a, b))))))"

definition getUserEnergy :: "('x st) env \<Rightarrow> string \<Rightarrow> bool \<Rightarrow> ('x st, energy) prog" where
  "getUserEnergy E userAddress vmQuery =
     (if vmQuery then getEnergyEntryForUserRaw E userAddress
      else mbind (promise_both (energyEntryForUser E userAddress) (getCurrentEpoch E))
             (\<lambda>(userEnergyEntry, currentEpoch). mret (depleteUserEnergy userEnergyEntry currentEpoch)))"

lemma promise_both_Inr:
  "m1 s = (Inr a, s1) \<Longrightarrow> m2 s1 = (Inr b, s2) \<Longrightarrow> promise_both m1 m2 s = (Inr (a, b), s2)"
  by (simp add: promise_both_def)

text \<open>The setter of an energy event and the getter share their key.\<close>

interpretation energy_entry: cached_entry E "\<lambda>u. getCacheKey ''energy'' [KStr ''energyEntryForUser'', KStr u]"
    energyC "energyEntryForUser E" "setEnergyEntryForUser E"
  for E :: "('x st) env"
  by unfold_locales
     (auto simp: energyEntryForUser_def GetOrSetCache_def getCacheKey_def setEnergyEntryForUser_def)

text \<open>
  C28: energy decays linearly with the epochs. For an entry with \<open>locked\<close> tokens written in a positive
  epoch, the energy read later is the amount minus \<open>locked\<close> for every epoch since, in full decimal
  text; reading in two steps (moving the entry to the epoch in between) gives the same; an entry of
  the current or of a later epoch, and one with no valid epoch, is returned as it is.
\<close>

theorem depleteUserEnergy_linear:
  assumes "en_amount e = show_int a" "totalLockedTokens e = show_int locked" "0 \<le> locked"
    and "0 < lastUpdateEpoch e" "lastUpdateEpoch e \<le> m" "m \<le> n"
  shows "en_amount (depleteUserEnergy e n) = show_int (a - locked * (n - lastUpdateEpoch e)) \<and>
    depleteUserEnergy ((depleteUserEnergy e m)\<lparr>lastUpdateEpoch := m\<rparr>) n =
      (depleteUserEnergy e n)\<lparr>lastUpdateEpoch := m\<rparr> \<and>
    depleteUserEnergy e (lastUpdateEpoch e) = e \<and>
    depleteUserEnergy (e\<lparr>lastUpdateEpoch := 0\<rparr>) n = e\<lparr>lastUpdateEpoch := 0\<rparr>"
proof -
  have step: "en_amount (depleteUserEnergy x k) = show_int (b - locked * (k - lastUpdateEpoch x))"
    if "en_amount x = show_int b" "totalLockedTokens x = show_int locked" "0 < lastUpdateEpoch x"
      "lastUpdateEpoch x \<le> k" for x b k
    using that assms(3) by (auto simp: depleteUserEnergy_def bn_minus_def Let_def)
  have frame: "totalLockedTokens (depleteUserEnergy x k) = totalLockedTokens x \<and>
      lastUpdateEpoch (depleteUserEnergy x k) = lastUpdateEpoch x" for x k
    by (simp add: depleteUserEnergy_def Let_def)
  let ?x = "(depleteUserEnergy e m)\<lparr>lastUpdateEpoch := m\<rparr>"
  have "en_amount (depleteUserEnergy ?x n) = show_int (a - locked * (m - lastUpdateEpoch e) - locked * (n - m))"
    using step [of ?x _ n] step [of e a m] frame assms by simp
  also have "\<dots> = en_amount (depleteUserEnergy e n)"
    using step [of e a n] assms by (simp add: algebra_simps)
  finally have "en_amount (depleteUserEnergy ?x n) = en_amount (depleteUserEnergy e n)" .
  moreover have "depleteUserEnergy ?x n = (depleteUserEnergy e n)\<lparr>lastUpdateEpoch := m\<rparr>"
    if "en_amount (depleteUserEnergy ?x n) = en_amount (depleteUserEnergy e n)"
    by (rule energy.equality) (use that frame in simp_all)
  ultimately show ?thesis
    using step [of e a n] assms by (simp add: depleteUserEnergy_def)
qed

theorem depleteUserEnergy_linear_witness:
  "en_amount (depleteUserEnergy \<lparr>en_amount = ''100'', lastUpdateEpoch = 10, totalLockedTokens = ''7''\<rparr> 13) = ''79''"
proof -
  have s: "show_int 100 = ''100''" "show_int 7 = ''7''" "show_int 79 = ''79''" by code_simp+
  show ?thesis
    using depleteUserEnergy_linear [of "\<lparr>en_amount = ''100'', lastUpdateEpoch = 10, totalLockedTokens = ''7''\<rparr>"
        100 7 11 13] by (simp add: s)
qed

text \<open>
  An energy event is seen by the next reader. After the handler stored the entry of an event, the
  energy of the user is that entry, depleted to the current epoch, without a query to the contract.
\<close>

theorem energy_event_visible:
  assumes "caching E visible" and "setEnergyEntryForUser E u e s = (r, s1)"
    and "getCurrentEpoch E s1 = (Inr cur, s2)"
  shows "getUserEnergy E u False s1 = (Inr (depleteUserEnergy e cur), s2)"
proof -
  have "energyEntryForUser E u s1 = (Inr e, s1)"
    by (rule energy_entry.write_then_read(2) [OF assms(1,2)])
  then have "promise_both (energyEntryForUser E u) (getCurrentEpoch E) s1 = (Inr (e, cur), s2)"
    using assms(3) by (rule promise_both_Inr)
  then show ?thesis by (simp add: getUserEnergy_def)
qed

definition some_energy :: energy where
  "some_energy = \<lparr>en_amount = ''100'', lastUpdateEpoch = 10, totalLockedTokens = ''7''\<rparr>"

definition energy_memory :: memory_state where
  "energy_memory = empty_memory\<lparr>store := [''context.currentEpoch'' \<mapsto> VNum 13]\<rparr>"

theorem energy_event_visible_witness:
  "\<exists>s1. setEnergyEntryForUser example_env ''erdU'' some_energy energy_memory = (Inr ''energy.energyEntryForUser.erdU'', s1) \<and>
     getUserEnergy example_env ''erdU'' False s1 = (Inr (depleteUserEnergy some_energy 13), s1)"
proof -
  have keys: "getCacheKey ''energy'' [KStr ''energyEntryForUser'', KStr ''erdU''] = ''energy.energyEntryForUser.erdU''"
    "context_key ''currentEpoch'' = ''context.currentEpoch''" by code_simp+
  let ?s1 = "energy_memory\<lparr>store := (store energy_memory)(''energy.energyEntryForUser.erdU'' \<mapsto> VEnergy some_energy)\<rparr>"
  have set: "setEnergyEntryForUser example_env ''erdU'' some_energy energy_memory = (Inr ''energy.energyEntryForUser.erdU'', ?s1)"
    by (simp add: setEnergyEntryForUser_def setData_def keys mthen_apply example_env_def memory_env_def)
  have "getCurrentEpoch example_env ?s1 = (Inr 13, ?s1)"
    unfolding getCurrentEpoch_def getData_eq keys
    by (rule cached_hit [OF example_caching]) (simp_all add: energy_memory_def empty_memory_def)
  from energy_event_visible [OF example_caching set this] set show ?thesis by blast
qed

end
