(* ===== verification/Gov_Compute.thy ===== *)
theory Gov_Compute
  imports Gov_Energy
begin

text \<open>
  How the service finds out what a user voted: from the event index
  (\<open>src/helpers/elastic.service.ts\<close>, \<open>governance.compute.service.ts\<close>) for contracts and on-chain
  proposals, and from the user's transactions (\<open>pulse.compute.service.ts\<close>) for polls and ideas. The
  static lookups of \<open>delegate-governance.service.ts\<close> that the first one needs are here, too.
\<close>

section \<open>Providers\<close>

definition getDelegateStakingProviders :: "'s env \<Rightarrow> delegate_staking_provider list" where
  "getDelegateStakingProviders E = delegateStakingProviders E"

definition getEnabledDelegateStakingProviders :: "'s env \<Rightarrow> delegate_staking_provider list" where
  "getEnabledDelegateStakingProviders E = filter isEnabled (delegateStakingProviders E)"

definition getDelegateStakingProvider :: "'s env \<Rightarrow> string \<Rightarrow> delegate_staking_provider option" where
  "getDelegateStakingProvider E providerAddress =
     List.find (\<lambda>provider. voteScAddress provider = providerAddress \<or> stakeScAddress provider = providerAddress)
       (delegateStakingProviders E)"

section \<open>ElasticService\<close>

definition elastic_get :: "'s env \<Rightarrow> elastic_query \<Rightarrow> ('s, elastic_event list) prog" where
  "elastic_get E q = mtry (elasticSearch E q) (\<lambda>error. mthrow error)"

section \<open>GovernanceComputeService\<close>

text \<open>\<open>governanceConfig.onChain.linear[0]\<close>, which may be \<open>undefined\<close> for an empty list.\<close>

definition onChain_linear_0 :: "'s env \<Rightarrow> exn + string option" where
  "onChain_linear_0 E =
     (case map_of (governanceConfig E) ''onChain'' of
        None \<Rightarrow> Inl TypeError
      | Some sms \<Rightarrow>
         (case map_of sms ''linear'' of
            None \<Rightarrow> Inl TypeError
          | Some as \<Rightarrow> Inr (case as of [] \<Rightarrow> None | a # _ \<Rightarrow> Some a)))"

definition topic_is :: "nat \<Rightarrow> string \<Rightarrow> elastic_event \<Rightarrow> bool" where
  "topic_is i t event \<longleftrightarrow> i < length (ev_topics event) \<and> ev_topics event ! i = t"

text \<open>\<open>Buffer.from(topics[i], 'hex').toString()\<close> throws when there is no such topic.\<close>

definition topic_text :: "nat \<Rightarrow> elastic_event \<Rightarrow> exn + string" where
  "topic_text i event =
     (if i < length (ev_topics event) then Inr (from_hex (ev_topics event ! i)) else Inl TypeError)"

definition getVoteEventOnChain ::
  "'s env \<Rightarrow> string \<Rightarrow> string \<Rightarrow> string \<Rightarrow> int \<Rightarrow> string option \<Rightarrow> ('s, elastic_event option) prog" where
  "getVoteEventOnChain E eventName scAddress callerAddress pid logAddress =
     (let proposalIdHex = decimalToHex pid in
      mbind (mlift (addressHex E callerAddress)) (\<lambda>callerAddressHex.
      mbind (elastic_get E
              \<lparr>eq_collection = ''events'',
               eq_must = [(''logAddress'', case logAddress of None \<Rightarrow> ''undefined'' | Some a \<Rightarrow> a),
                          (''identifier'', eventName), (''topics'', proposalIdHex)] @
                 (if eventName = ''delegateVote''
                  then [(''address'', scAddress), (''topics'', callerAddressHex)]
                  else [(''address'', callerAddress)])\<rparr>)
        (\<lambda>found. mret (List.find (topic_is 0 proposalIdHex) found))))"

definition getUserVoteOnChainBody :: "'s env \<Rightarrow> string \<Rightarrow> string \<Rightarrow> int \<Rightarrow> ('s, VoteType) prog" where
  "getUserVoteOnChainBody E scAddress userAddress pid =
     mbind (mlift (onChain_linear_0 E)) (\<lambda>onChainScAddress.
       let isDelegateVote = (onChainScAddress \<noteq> Some scAddress) in
       mbind (mlift (if isDelegateVote
                     then (case getDelegateStakingProvider E scAddress of
                             None \<Rightarrow> Inl TypeError
                           | Some provider \<Rightarrow> Inr (\<not> isEnabled provider))
                     else Inr False)) (\<lambda>disabled.
         if disabled then mret NotVoted
         else
           mbind (getVoteEventOnChain E (if isDelegateVote then ''delegateVote'' else ''vote'')
                    scAddress userAddress pid onChainScAddress) (\<lambda>event.
             case event of
               None \<Rightarrow> mret NotVoted
             | Some ev \<Rightarrow> mlift (rbind (topic_text 1 ev) (\<lambda>decodedVoteType. Inr (toVoteType E decodedVoteType))))))"

definition vote_key :: "string \<Rightarrow> string \<Rightarrow> int \<Rightarrow> string" where
  "vote_key scAddress userAddress pid =
     getCacheKey ''governance'' [KStr ''getUserVoteOnChain'', KStr scAddress, KStr userAddress, KNum pid]"

definition getUserVoteOnChain :: "'s env \<Rightarrow> string \<Rightarrow> string \<Rightarrow> int \<Rightarrow> ('s, vote_value) prog" where
  "getUserVoteOnChain E scAddress userAddress pid =
     GetOrSetCache E ''governance'' (ttl_ContractState E) ''getUserVoteOnChain''
       [KStr scAddress, KStr userAddress, KNum pid] voteC
       (mbind (getUserVoteOnChainBody E scAddress userAddress pid) (\<lambda>v. mret (VoteNum v)))"

definition userVoteTypesForContract :: "'s env \<Rightarrow> string \<Rightarrow> string \<Rightarrow> ('s, (int \<times> VoteType) list) prog" where
  "userVoteTypesForContract E scAddress userAddress =
     GetOrSetCache E ''governance'' (ttl_ContractState E) ''userVoteTypesForContract''
       [KStr scAddress, KStr userAddress] voteTypesC (mret [])"

definition getVoteEvent :: "'s env \<Rightarrow> string \<Rightarrow> string \<Rightarrow> string \<Rightarrow> int \<Rightarrow> ('s, elastic_event option) prog" where
  "getVoteEvent E eventName scAddress callerAddress pid =
     (let proposalIdHex = decimalToHex pid in
      mbind (mlift (addressHex E callerAddress)) (\<lambda>callerAddressHex.
      mbind (elastic_get E
              \<lparr>eq_collection = ''events'',
               eq_must = [(''address'', scAddress), (''identifier'', eventName),
                          (''topics'', proposalIdHex), (''topics'', callerAddressHex)]\<rparr>)
        (\<lambda>found. mret (List.find (topic_is 2 proposalIdHex) found))))"

definition userVotedProposalsWithVoteType :: "'s env \<Rightarrow> string \<Rightarrow> string \<Rightarrow> int \<Rightarrow> ('s, VoteType) prog" where
  "userVotedProposalsWithVoteType E scAddress userAddress pid =
     mbind (userVoteTypesForContract E scAddress userAddress) (\<lambda>current.
       case map_of current pid of
         Some v \<Rightarrow> mret v
       | None \<Rightarrow>
           mbind (getVoteEvent E ''vote'' scAddress userAddress pid) (\<lambda>event.
           mbind (case event of
                    None \<Rightarrow> mret NotVoted
                  | Some ev \<Rightarrow> mlift (rbind (topic_text 0 ev) (\<lambda>decoded. Inr (toVoteType E decoded)))) (\<lambda>voteType.
           mthen (set_userVoteTypesForContract E scAddress userAddress (current @ [(pid, voteType)]))
                 (mret voteType))))"

section \<open>PulseComputeService\<close>

text \<open>The arguments of a transaction: its data, decoded and split at \<open>@\<close>.\<close>

definition tx_args :: "jsval \<Rightarrow> exn + string list" where
  "tx_args tx = rbind (rbind (js_get ''data'' tx) js_string) (\<lambda>d. Inr (split_char (CHR ''@'') (from_base64 d)))"

text \<open>An argument as a number; a missing or empty one is 0, one that is not hexadecimal is \<open>NaN\<close>.\<close>

definition hex_arg :: "nat \<Rightarrow> string list \<Rightarrow> int option" where
  "hex_arg i args = (if i < length args \<and> args ! i \<noteq> [] then js_parseHex (args ! i) else Some 0)"

fun find_idea_vote :: "int \<Rightarrow> jsval list \<Rightarrow> exn + bool" where
  "find_idea_vote searched [] = Inr False"
| "find_idea_vote searched (tx # txs) =
     rbind (tx_args tx) (\<lambda>txArgs.
       if hex_arg 1 txArgs = Some searched then Inr True else find_idea_vote searched txs)"

definition js_list :: "jsval \<Rightarrow> exn + jsval list" where
  "js_list v = (case v of JArr xs \<Rightarrow> Inr xs | _ \<Rightarrow> Inl TypeError)"

definition transactions_url :: "'s env \<Rightarrow> string \<Rightarrow> string \<Rightarrow> string \<Rightarrow> string" where
  "transactions_url E userAddress func scAddress =
     apiUrl E @ ''/accounts/'' @ userAddress @ ''/transactions?status=success&function='' @ func @
     ''&receiver='' @ scAddress"

definition hasUserVotedIdeaRaw :: "'s env \<Rightarrow> string \<Rightarrow> string \<Rightarrow> int \<Rightarrow> ('s, bool) prog" where
  "hasUserVotedIdeaRaw E scAddress userAddress searchedIdeaId =
     mtry (mbind (apiServiceGet E (transactions_url E userAddress ''vote_up_proposal'' scAddress)) (\<lambda>response.
           mbind (mlift (rbind (js_get ''data'' response) js_list)) (\<lambda>txs.
             if length txs = 0 then mret False else mlift (find_idea_vote searchedIdeaId txs))))
          (\<lambda>err. mret False)"

definition hasUserVotedIdea :: "'s env \<Rightarrow> string \<Rightarrow> string \<Rightarrow> int \<Rightarrow> ('s, bool) prog" where
  "hasUserVotedIdea E scAddress userAddress iid =
     GetOrSetCache E ''pulse'' (fst (ttl_ContractState E), Some (fst (ttl_ContractState E)))
       ''hasUserVotedIdea'' [KStr scAddress, KStr userAddress, KNum iid] boolC
       (hasUserVotedIdeaRaw E scAddress userAddress iid)"

text \<open>The option is a number, or \<open>NaN\<close> when the argument is not hexadecimal.\<close>

definition bn_of_hex_arg :: "int option \<Rightarrow> bn" where
  "bn_of_hex_arg n = (case n of None \<Rightarrow> BNaN | Some i \<Rightarrow> bn_int i)"

fun find_poll_vote :: "int \<Rightarrow> jsval list \<Rightarrow> exn + bn" where
  "find_poll_vote searched [] = Inr (bn_int (- 1))"
| "find_poll_vote searched (tx # txs) =
     rbind (tx_args tx) (\<lambda>txArgs.
       if hex_arg 1 txArgs = Some searched then Inr (bn_of_hex_arg (hex_arg 2 txArgs))
       else find_poll_vote searched txs)"

definition getUserVotePulseRaw :: "'s env \<Rightarrow> string \<Rightarrow> string \<Rightarrow> int \<Rightarrow> ('s, bn) prog" where
  "getUserVotePulseRaw E scAddress userAddress searchedPollId =
     mtry (mbind (apiServiceGet E (transactions_url E userAddress ''vote_poll'' scAddress)) (\<lambda>response.
           mbind (mlift (rbind (js_get ''data'' response) js_list)) (\<lambda>txs.
             if length txs = 0 then mret (bn_int (- 1)) else mlift (find_poll_vote searchedPollId txs))))
          (\<lambda>err. mret (bn_int (- 1)))"

definition getUserVotePulse :: "'s env \<Rightarrow> string \<Rightarrow> string \<Rightarrow> int \<Rightarrow> ('s, bn) prog" where
  "getUserVotePulse E scAddress userAddress pid =
     GetOrSetCache E ''pulse'' (fst (ttl_ContractState E), Some (fst (ttl_ContractState E)))
       ''getUserVotePulse'' [KStr scAddress, KStr userAddress, KNum pid] bnC
       (getUserVotePulseRaw E scAddress userAddress pid)"


section \<open>Getters and setters\<close>

interpretation onchain_vote_entry: cached_entry E "\<lambda>(a, u, p). vote_key a u p" voteC
    "\<lambda>(a, u, p). getUserVoteOnChain E a u p"
    "\<lambda>(a, u, p) v. case v of VoteText t \<Rightarrow> set_getUserVoteOnChain E a u p t
       | VoteNum n \<Rightarrow> setData E (vote_key a u p) (VVote n) (ttl_ContractState E)"
  for E :: "'s env"
  by unfold_locales
     (auto simp: getUserVoteOnChain_def GetOrSetCache_def vote_key_def getCacheKey_def
       set_getUserVoteOnChain_def simp del: split_paired_Ex split: vote_value.split)

interpretation vote_types_entry: cached_entry E
    "\<lambda>(a, u). getCacheKey ''governance'' [KStr ''userVoteTypesForContract'', KStr a, KStr u]" voteTypesC
    "\<lambda>(a, u). userVoteTypesForContract E a u" "\<lambda>(a, u). set_userVoteTypesForContract E a u"
  for E :: "'s env"
  by unfold_locales
     (auto simp: userVoteTypesForContract_def GetOrSetCache_def getCacheKey_def set_userVoteTypesForContract_def simp del: split_paired_Ex)

interpretation poll_vote_entry: cached_entry E
    "\<lambda>(a, u, p). getCacheKey ''pulse'' [KStr ''getUserVotePulse'', KStr a, KStr u, KNum p]" bnC
    "\<lambda>(a, u, p). getUserVotePulse E a u p" "\<lambda>(a, u, p). set_getUserVotePulse E a u p"
  for E :: "'s env"
  by unfold_locales
     (auto simp: getUserVotePulse_def GetOrSetCache_def getCacheKey_def set_getUserVotePulse_def simp del: split_paired_Ex)

interpretation idea_vote_entry: cached_entry E
    "\<lambda>(a, u, p). getCacheKey ''pulse'' [KStr ''hasUserVotedIdea'', KStr a, KStr u, KNum p]" boolC
    "\<lambda>(a, u, p). hasUserVotedIdea E a u p" "\<lambda>(a, u, p). set_hasUserVotedIdea E a u p"
  for E :: "'s env"
  by unfold_locales
     (auto simp: hasUserVotedIdea_def GetOrSetCache_def getCacheKey_def set_hasUserVotedIdea_def simp del: split_paired_Ex)

section \<open>Votes read from events and transactions\<close>

text \<open>
  The direct on-chain vote of a user, decoded. When the index answers with events whose topics
  are the hexadecimal proposal number and the hexadecimal vote name, and the user's address is valid,
  the vote found is the one of the first event of exactly this proposal, under the names of the
  on-chain contract, and \<open>NotVoted\<close> when there is none. Events of other proposals that the search
  also matched are ignored.
\<close>

theorem direct_vote_decoded:
  assumes "onChain_linear_0 E = Inr (Some sc)" and "addressHex E user = Inr h"
    and "elasticSearch E \<lparr>eq_collection = ''events'',
            eq_must = [(''logAddress'', sc), (''identifier'', ''vote''),
              (''topics'', decimalToHex pid), (''address'', user)]\<rparr> s = (Inr found, s')"
    and "found = map (\<lambda>(n, vote). \<lparr>ev_topics = [decimalToHex n, to_hex vote]\<rparr>) votes"
    and "0 \<le> pid" "\<forall>(n, v)\<in>set votes. 0 \<le> n"
  shows "getUserVoteOnChainBody E sc user pid s =
    (Inr (case map_of votes pid of None \<Rightarrow> NotVoted | Some v \<Rightarrow> toVoteType E v), s')"
proof -
  have hex_inj: "decimalToHex n = decimalToHex pid \<longleftrightarrow> n = pid" if "0 \<le> n" for n
    using decimalToHex_parse [of n] decimalToHex_parse [of pid] assms(5) that by auto
  have find: "List.find (topic_is 0 (decimalToHex pid)) (map (\<lambda>(n, vote). \<lparr>ev_topics = [decimalToHex n, to_hex vote]\<rparr>) vs) =
      map_option (\<lambda>v. \<lparr>ev_topics = [decimalToHex pid, to_hex v]\<rparr>) (map_of vs pid)"
    if "\<forall>(n, v)\<in>set vs. 0 \<le> n" for vs
    using that by (induction vs) (auto simp: topic_is_def hex_inj)
  have "getVoteEventOnChain E ''vote'' sc user pid (Some sc) s =
      (Inr (map_option (\<lambda>v. \<lparr>ev_topics = [decimalToHex pid, to_hex v]\<rparr>) (map_of votes pid)), s')"
    using assms(2,3) find [OF assms(6)] by (simp add: getVoteEventOnChain_def elastic_get_def assms(4) mtry_def Let_def)
  then show ?thesis
    using assms(1) by (simp add: getUserVoteOnChainBody_def topic_text_def split: option.split)
qed

definition event_env :: "memory_state env" where
  "event_env = example_env\<lparr>elasticSearch := \<lambda>q. mret
     [\<lparr>ev_topics = [''02'', to_hex ''no'']\<rparr>, \<lparr>ev_topics = [''01'', to_hex ''yes'']\<rparr>]\<rparr>"

theorem direct_vote_decoded_witness:
  "getUserVoteOnChainBody event_env ''erdC'' ''erdU'' 1 empty_memory = (Inr UpVote, empty_memory)"
proof -
  have hex: "decimalToHex 1 = ''01''" "decimalToHex 2 = ''02''" by code_simp+
  have "getUserVoteOnChainBody event_env ''erdC'' ''erdU'' 1 empty_memory =
      (Inr (case map_of [(2::int, ''no''), (1, ''yes'')] 1 of None \<Rightarrow> NotVoted | Some v \<Rightarrow> toVoteType event_env v), empty_memory)"
    by (rule direct_vote_decoded)
       (simp_all add: event_env_def onChain_linear_0_def example_config_def hex, simp add: example_env_def memory_env_def)
  then show ?thesis by (simp add: toVoteType_def event_env_def example_env_def memory_env_def)
qed

text \<open>
  C26: a vote found in a contract's events is remembered. When the lookup answers, the answer is the
  entry of the proposal in the user's cached list; a second lookup finds it there and returns it
  without touching the index or the cache.
\<close>

theorem vote_lookup_remembered:
  assumes "caching E visible"
    and "visible s (getCacheKey ''governance'' [KStr ''userVoteTypesForContract'', KStr sc, KStr u]) = Some (VVoteTypes l)"
    and "userVotedProposalsWithVoteType E sc u pid s = (Inr v, s')"
  shows "userVotedProposalsWithVoteType E sc u pid s' = (Inr v, s') \<and>
    visible s' (getCacheKey ''governance'' [KStr ''userVoteTypesForContract'', KStr sc, KStr u]) =
      Some (VVoteTypes (case map_of l pid of Some _ \<Rightarrow> l | None \<Rightarrow> l @ [(pid, v)]))"
proof -
  let ?k = "getCacheKey ''governance'' [KStr ''userVoteTypesForContract'', KStr sc, KStr u]"
  have read: "userVoteTypesForContract E sc u s1 = (Inr l1, s1)" if "visible s1 ?k = Some (VVoteTypes l1)" for s1 l1
    unfolding userVoteTypesForContract_def GetOrSetCache_def getCacheKey_def [symmetric]
    by (rule cached_hit [OF assms(1)]) (use that in \<open>simp_all add: getCacheKey_def\<close>)
  have hit: "userVotedProposalsWithVoteType E sc u pid s1 = (Inr w, s1)"
    if "visible s1 ?k = Some (VVoteTypes l1)" "map_of l1 pid = Some w" for s1 l1 w
    using read [OF that(1)] that(2) by (simp add: userVotedProposalsWithVoteType_def)
  show ?thesis
  proof (cases "map_of l pid")
    case (Some w)
    then show ?thesis using hit [OF assms(2) Some] assms(2,3) by simp
  next
    case None
    obtain voteType s2 where stored:
        "mthen (set_userVoteTypesForContract E sc u (l @ [(pid, voteType)])) (mret voteType) s2 = (Inr v, s')"
      using assms(3) None read [OF assms(2)]
      by (auto simp: userVotedProposalsWithVoteType_def elim!: mbind_InrE)
    obtain s3 where "set_userVoteTypesForContract E sc u (l @ [(pid, voteType)]) s2 = (Inr ?k, s3)"
      "visible s3 = (visible s2)(?k \<mapsto> VVoteTypes (l @ [(pid, voteType)]))"
      using vote_types_entry.write_visible [OF assms(1), of "(sc, u)" "l @ [(pid, voteType)]" s2] by auto
    with stored have "visible s' ?k = Some (VVoteTypes (l @ [(pid, v)]))" by simp
    then show ?thesis using hit [of s' "l @ [(pid, v)]" v] None by (simp add: map_add_def)
  qed
qed

definition remembered_memory :: memory_state where
  "remembered_memory = empty_memory\<lparr>store :=
     [''governance.userVoteTypesForContract.erdA.erdU'' \<mapsto> VVoteTypes [(1, DownVote)]]\<rparr>"

theorem vote_lookup_remembered_witness:
  "userVotedProposalsWithVoteType example_env ''erdA'' ''erdU'' 1 remembered_memory = (Inr DownVote, remembered_memory)"
proof -
  have key: "getCacheKey ''governance'' [KStr ''userVoteTypesForContract'', KStr ''erdA'', KStr ''erdU''] =
      ''governance.userVoteTypesForContract.erdA.erdU''" by code_simp
  have stored: "store remembered_memory (getCacheKey ''governance'' [KStr ''userVoteTypesForContract'', KStr ''erdA'', KStr ''erdU'']) =
      Some (VVoteTypes [(1, DownVote)])"
    unfolding key by (simp add: remembered_memory_def empty_memory_def)
  have "userVoteTypesForContract example_env ''erdA'' ''erdU'' remembered_memory = (Inr [(1, DownVote)], remembered_memory)"
    unfolding userVoteTypesForContract_def GetOrSetCache_def
    by (rule cached_hit [OF example_caching]) (use stored in \<open>simp_all add: getCacheKey_def\<close>)
  then have run: "userVotedProposalsWithVoteType example_env ''erdA'' ''erdU'' 1 remembered_memory = (Inr DownVote, remembered_memory)"
    by (simp add: userVotedProposalsWithVoteType_def)
  show ?thesis
    using vote_lookup_remembered [OF example_caching stored run] by simp
qed

text \<open>How a transaction writes the arguments of a vote: the number 0 is an empty argument.\<close>

definition chain_arg :: "int \<Rightarrow> string" where
  "chain_arg n = (if n = 0 then [] else decimalToHex n)"

definition vote_tx :: "string list \<Rightarrow> jsval" where
  "vote_tx args = JObj [(''data'', JStr (to_base64 (join ''@'' args)))]"

lemma decimalToHex_digits: "0 \<le> n \<Longrightarrow> list_all (is_digit 16) (decimalToHex n)"
  using show_nat_digits [of 16 "nat n"]
  by (auto simp: decimalToHex_def Let_def signed_def is_digit_def char_digit_def)

lemma decimalToHex_not_empty [simp]: "decimalToHex n \<noteq> []"
  by (auto simp: decimalToHex_def Let_def signed_def)

lemma chain_arg_no_at: "0 \<le> n \<Longrightarrow> CHR ''@'' \<notin> set (chain_arg n)"
  using decimalToHex_digits [of n] by (auto simp: chain_arg_def list_all_iff is_digit_def char_digit_def)

lemma tx_args_vote_tx:
  "args \<noteq> [] \<Longrightarrow> \<forall>a\<in>set args. CHR ''@'' \<notin> set a \<Longrightarrow> tx_args (vote_tx args) = Inr args"
  by (simp add: tx_args_def vote_tx_def js_get_def js_string_def split_char_join)

lemma hex_arg_chain:
  assumes "i < length args" "args ! i = chain_arg n" "0 \<le> n"
  shows "hex_arg i args = Some n"
proof (cases "n = 0")
  case False
  have "read_digits 16 (decimalToHex n) = nat n"
    using decimalToHex_parse [OF assms(3)] by (simp add: parse_nat_def split: if_splits)
  then show ?thesis
    using False assms js_parseHex_digits [OF decimalToHex_not_empty decimalToHex_digits [OF assms(3)]]
    by (simp add: hex_arg_def chain_arg_def)
qed (use assms in \<open>simp add: hex_arg_def chain_arg_def\<close>)

text \<open>
  The option a user chose in a poll, decoded. When the API answers with the user's vote
  transactions, whatever further arguments they carry, the option is the one of the first listed
  transaction for this poll, and \<open>-1\<close> when there is none; a poll or option 0, which a transaction
  writes as an empty argument, is read as 0. Any failure of the request gives \<open>-1\<close>.
\<close>

theorem poll_vote_decoded:
  assumes "apiServiceGet E (transactions_url E user ''vote_poll'' sc) s = (r, s')"
    and "r = Inr (JObj [(''data'', JArr (map (\<lambda>(p, opt, ext). vote_tx (''vote_poll'' # chain_arg p # chain_arg opt # ext)) votes))])
         \<or> (\<exists>e. r = Inl e \<and> votes = [])"
    and "\<forall>(p, opt, ext)\<in>set votes. 0 \<le> p \<and> 0 \<le> opt \<and> (\<forall>a\<in>set ext. CHR ''@'' \<notin> set a)"
  shows "getUserVotePulseRaw E sc user poll s =
    (Inr (bn_int (case map_of votes poll of None \<Rightarrow> - 1 | Some (opt, ext) \<Rightarrow> opt)), s')"
proof -
  have scan: "find_poll_vote poll (map (\<lambda>(p, opt, ext). vote_tx (''vote_poll'' # chain_arg p # chain_arg opt # ext)) vs) =
      Inr (bn_int (case map_of vs poll of None \<Rightarrow> - 1 | Some (opt, ext) \<Rightarrow> opt))"
    if "\<forall>(p, opt, ext)\<in>set vs. 0 \<le> p \<and> 0 \<le> opt \<and> (\<forall>a\<in>set ext. CHR ''@'' \<notin> set a)" for vs
    using that
  proof (induction vs)
    case (Cons x vs)
    obtain p opt ext where x: "x = (p, opt, ext)" by (cases x)
    let ?args = "''vote_poll'' # chain_arg p # chain_arg opt # ext"
    have "tx_args (vote_tx ?args) = Inr ?args"
      using Cons.prems x by (intro tx_args_vote_tx) (auto simp: chain_arg_no_at)
    moreover have "hex_arg 1 ?args = Some p" "hex_arg 2 ?args = Some opt"
      using Cons.prems x by (auto intro: hex_arg_chain)
    ultimately show ?case using Cons x by (cases "p = poll") (auto simp: bn_of_hex_arg_def)
  qed simp
  from assms(2) show ?thesis
  proof
    assume r: "r = Inr (JObj [(''data'', JArr (map (\<lambda>(p, opt, ext). vote_tx (''vote_poll'' # chain_arg p # chain_arg opt # ext)) votes))])"
    show ?thesis
      using assms(1) scan [OF assms(3)]
      by (cases "votes = []") (simp_all add: getUserVotePulseRaw_def r js_get_def js_list_def mtry_def)
  next
    assume "\<exists>e. r = Inl e \<and> votes = []"
    then show ?thesis using assms(1) by (auto simp: getUserVotePulseRaw_def mtry_def mbind_def)
  qed
qed

definition poll_env :: "memory_state env" where
  "poll_env = example_env\<lparr>apiServiceGet := \<lambda>u. mret (JObj [(''data'', JArr
     [vote_tx [''vote_poll'', ''05'', ''01''], vote_tx [''vote_poll'', [], ''02'']])])\<rparr>"

theorem poll_vote_decoded_witness:
  "getUserVotePulseRaw poll_env ''erdD'' ''erdU'' 0 empty_memory = (Inr (bn_int 2), empty_memory)"
proof -
  have hex: "chain_arg 5 = ''05''" "chain_arg 1 = ''01''" "chain_arg 2 = ''02''" "chain_arg 0 = []" by code_simp+
  show ?thesis
    using poll_vote_decoded [of poll_env "''erdU''" "''erdD''" empty_memory _ empty_memory "[(5, 1, []), (0, 2, [])]" 0]
    by (simp add: poll_env_def hex)
qed

text \<open>
  A user has voted for an idea exactly when one of the user's vote transactions names it, however
  many there are and whatever else they carry; a failed request counts as no vote.
\<close>

theorem idea_vote_decoded:
  assumes "apiServiceGet E (transactions_url E user ''vote_up_proposal'' sc) s = (r, s')"
    and "r = Inr (JObj [(''data'', JArr (map (\<lambda>(i, ext). vote_tx (''vote_up_proposal'' # chain_arg i # ext)) votes))])
         \<or> (\<exists>e. r = Inl e \<and> votes = [])"
    and "\<forall>(i, ext)\<in>set votes. 0 \<le> i \<and> (\<forall>a\<in>set ext. CHR ''@'' \<notin> set a)"
  shows "hasUserVotedIdeaRaw E sc user idea s = (Inr (idea \<in> fst ` set votes), s')"
proof -
  have scan: "find_idea_vote idea (map (\<lambda>(i, ext). vote_tx (''vote_up_proposal'' # chain_arg i # ext)) vs) =
      Inr (idea \<in> fst ` set vs)"
    if "\<forall>(i, ext)\<in>set vs. 0 \<le> i \<and> (\<forall>a\<in>set ext. CHR ''@'' \<notin> set a)" for vs
    using that
  proof (induction vs)
    case (Cons x vs)
    obtain i ext where x: "x = (i, ext)" by (cases x)
    let ?args = "''vote_up_proposal'' # chain_arg i # ext"
    have "tx_args (vote_tx ?args) = Inr ?args"
      using Cons.prems x by (intro tx_args_vote_tx) (auto simp: chain_arg_no_at)
    moreover have "hex_arg 1 ?args = Some i"
      using Cons.prems x by (auto intro: hex_arg_chain)
    ultimately show ?case using Cons x by simp
  qed simp
  from assms(2) show ?thesis
  proof
    assume r: "r = Inr (JObj [(''data'', JArr (map (\<lambda>(i, ext). vote_tx (''vote_up_proposal'' # chain_arg i # ext)) votes))])"
    show ?thesis
      using assms(1) scan [OF assms(3)]
      by (cases "votes = []") (simp_all add: hasUserVotedIdeaRaw_def r js_get_def js_list_def mtry_def)
  next
    assume "\<exists>e. r = Inl e \<and> votes = []"
    then show ?thesis using assms(1) by (auto simp: hasUserVotedIdeaRaw_def mtry_def mbind_def)
  qed
qed

definition idea_env :: "memory_state env" where
  "idea_env = example_env\<lparr>apiServiceGet := \<lambda>u. mret (JObj [(''data'', JArr
     [vote_tx [''vote_up_proposal'', []], vote_tx [''vote_up_proposal'', ''05'']])])\<rparr>"

theorem idea_vote_decoded_witness:
  "hasUserVotedIdeaRaw idea_env ''erdD'' ''erdU'' 5 empty_memory = (Inr True, empty_memory)"
proof -
  have hex: "chain_arg 5 = ''05''" "chain_arg 0 = []" by code_simp+
  show ?thesis
    using idea_vote_decoded [of idea_env "''erdU''" "''erdD''" empty_memory _ empty_memory "[(0, []), (5, [])]" 5]
    by (simp add: idea_env_def hex)
qed

end
