(* ===== verification/Gov_Github.thy ===== *)
theory Gov_Github
  imports Gov_Compute
begin

text \<open>
  Proposals kept as files of a GitHub repository: \<open>github.service.ts\<close> (a clone of the repository, the
  proposals of its open pull requests and of its history, the text of a file taken apart) and
  \<open>src/modules/gov-github/gov-github.service.ts\<close> (which writes such a file through GitHub's API).
  Git and the API are parameters; the files and the JSON answers they give are taken apart here.
\<close>

section \<open>The text of a proposal\<close>

definition newline :: char where
  "newline = CHR 0x0A"

definition strip_comment :: "string \<Rightarrow> string" where
  "strip_comment line = replace_first ''--->'' [] (replace_first ''<!---'' [] (trim line))"

definition economics_old :: string where
  "economics_old = ''https://github.com/multiversx/multiversx-improvement-documents/blob/extended/economicsV2.md''"

definition economics_new :: string where
  "economics_new = ''https://github.com/multiversx/multiversx-improvement-documents/blob/main/extended/economicsV2.md''"

definition emptyLinesAtTheEnd :: "string list \<Rightarrow> nat" where
  "emptyLinesAtTheEnd lines = length (takeWhile (\<lambda>l. trim l = []) (rev lines))"

text \<open>
  The first line is the title, the second the description, the last one that is not blank the
  proposer, and what is between them the content. If every line is blank, the proposer's line does
  not exist and reading it throws.
\<close>

definition parseFileContent :: "string \<Rightarrow> exn + file_content" where
  "parseFileContent fileContentRaw =
     (let lines = split_char newline fileContentRaw in
      if length lines < 4 then Inl (PlainError ''Input must have at least 4 lines'')
      else
        (let k = emptyLinesAtTheEnd lines in
         if length lines \<le> k then Inl TypeError
         else Inr \<lparr>fc_title = strip_comment (lines ! 0),
                   fc_description = strip_comment (lines ! 1),
                   fc_content = replace_first economics_old economics_new
                      (join [newline] (js_slice 2 (- int (1 + k)) lines)),
                   fc_rationale = None,
                   fc_proposer = strip_comment (lines ! (length lines - 1 - k))\<rparr>))"


section \<open>GithubService\<close>

definition cloneAndCheckout :: "('x st) env \<Rightarrow> string \<Rightarrow> string \<Rightarrow> ('x st, unit) prog" where
  "cloneAndCheckout E repoSlug branch =
     (case githubToken E of
        None \<Rightarrow> mthrow (PlainError ''GITHUB_TOKEN must be set in .env'')
      | Some token \<Rightarrow>
         if token = [] then mthrow (PlainError ''GITHUB_TOKEN must be set in .env'')
         else
          mtry (mthen (fileAccess E (repoPath E))
               (mthen (mmodify (\<lambda>s. s\<lparr>gitReady := True\<rparr>))
               (mthen (gitFetch E) (mthen (gitCheckout E branch) (gitPull E branch)))))
            (\<lambda>_. mthen (gitClone E (''https://'' @ token @ ''@github.com/'' @ repoSlug @ ''.git''))
                 (mthen (mmodify (\<lambda>s. s\<lparr>gitReady := True\<rparr>)) (gitCheckout E branch))))"

definition repoSlug :: "'s env \<Rightarrow> string" where
  "repoSlug E = githubOwner E @ ''/'' @ githubRepository E"

definition cloneOrUpdate :: "('x st) env \<Rightarrow> ('x st, unit) prog" where
  "cloneOrUpdate E = mtry (cloneAndCheckout E (repoSlug E) (githubBranch E)) (\<lambda>error. mret ())"

text \<open>It runs when the module starts and then every twenty seconds, in one process at a time.\<close>

definition github_onModuleInit :: "('x st) env \<Rightarrow> ('x st, unit) prog" where
  "github_onModuleInit E = cloneOrUpdate E"

definition fetchGithubBranchUpdates :: "('x st) env \<Rightarrow> ('x st, unit) prog" where
  "fetchGithubBranchUpdates E = cloneOrUpdate E"

definition cleanup :: "('x st) env \<Rightarrow> ('x st, unit) prog" where
  "cleanup E = mtry (removePath E (repoPath E)) (\<lambda>err. mret ())"

definition getOpenPullRequests :: "'s env \<Rightarrow> ('s, jsval list) prog" where
  "getOpenPullRequests E =
     mbind (fetchUrl E (''https://api.github.com/repos/'' @ githubOwner E @ ''/'' @ githubRepository E @
              ''/pulls?state=open&base='' @ githubBranch E) (githubToken E)) (\<lambda>response.
       if \<not> fr_ok response
       then mthrow (PlainError (''Failed to fetch open PRs: '' @ fr_statusText response))
       else mlift (rbind (fr_json response) js_list))"

definition proposalsFolder :: string where "proposalsFolder = ''proposals''"

definition rationaleFolder :: string where "rationaleFolder = ''rationales''"

fun rfilter :: "('a \<Rightarrow> exn + bool) \<Rightarrow> 'a list \<Rightarrow> exn + 'a list" where
  "rfilter p [] = Inr []"
| "rfilter p (x # xs) = rbind (p x) (\<lambda>b. rbind (rfilter p xs) (\<lambda>ys. Inr (if b then x # ys else ys)))"

definition pr_file_added :: "jsval \<Rightarrow> exn + bool" where
  "pr_file_added f =
     rbind (js_get ''status'' f) (\<lambda>status.
       if status \<noteq> JStr ''added'' then Inr False
       else rbind (rbind (js_get ''filename'' f) js_string) (\<lambda>name.
              Inr (suffix ''.md'' name \<and> prefix (proposalsFolder @ ''/'') name)))"

text \<open>The proposal of a pull request, if it adds exactly one proposal file that can be read.\<close>

definition proposal_of_pr :: "'s env \<Rightarrow> jsval \<Rightarrow> ('s, github_proposal option) prog" where
  "proposal_of_pr E pr =
     mbind (mlift (rbind (js_get ''url'' pr) js_string)) (\<lambda>url.
     mbind (fetchUrl E (url @ ''/files'') (githubToken E)) (\<lambda>prFilesResp.
       if \<not> fr_ok prFilesResp then mret None
       else
         mbind (mlift (rbind (fr_json prFilesResp) js_list)) (\<lambda>prFiles.
         mbind (mlift (rfilter pr_file_added prFiles)) (\<lambda>addedFiles.
           case addedFiles of
             [f] \<Rightarrow>
               mbind (mlift (rbind (js_get ''raw_url'' f) js_string)) (\<lambda>raw_url.
               mbind (fetchUrl E raw_url None) (\<lambda>fileRawResp.
                 if \<not> fr_ok fileRawResp then mret None
                 else
                   mbind (mlift (parseFileContent (fr_text fileRawResp))) (\<lambda>fileContent.
                   mbind (mlift (rbind (rbind (js_get ''head'' pr) (js_get ''sha'')) js_string)) (\<lambda>sha.
                   mbind (mlift (rbind (js_get ''filename'' f) js_string)) (\<lambda>name.
                     mret (Some \<lparr>fileName = name, gh_commitHash = sha, gh_fileContent = fileContent,
                                 chainInfo = None, prMerged = Some False, prNumber = None,
                                 prUrl = js_opt_string (js_field ''html_url'' pr)\<rparr>))))))
           | _ \<Rightarrow> mret None))))"

text \<open>
  The state of the collection: the results so far, and the names of their files. A pull request that
  fails in any way is skipped.
\<close>

type_synonym collected = "github_proposal list \<times> string list"

definition collect :: "collected \<Rightarrow> github_proposal option \<Rightarrow> collected" where
  "collect acc p = (case p of None \<Rightarrow> acc | Some g \<Rightarrow> (fst acc @ [g], fileName g # snd acc))"

definition collect_pr :: "'s env \<Rightarrow> collected \<Rightarrow> jsval \<Rightarrow> ('s, collected) prog" where
  "collect_pr E acc pr =
     mtry (mbind (proposal_of_pr E pr) (\<lambda>p. mret (collect acc p))) (\<lambda>err. mret acc)"

definition added_files :: "string \<Rightarrow> string list \<Rightarrow> string \<Rightarrow> string list" where
  "added_files folder seenFiles diffOutput =
     filter (\<lambda>f. suffix ''.md'' f \<and> prefix (folder @ ''/'') f \<and> f \<notin> set seenFiles \<and>
                  \<not> str_includes (toLowerCase f) ''readme'')
       (map trim (split_char newline diffOutput))"

definition github_fileExists :: "'s env \<Rightarrow> string \<Rightarrow> ('s, bool) prog" where
  "github_fileExists E filePath = mtry (mthen (fileAccess E filePath) (mret True)) (\<lambda>_. mret False)"

definition collect_file :: "'s env \<Rightarrow> string \<Rightarrow> collected \<Rightarrow> string \<Rightarrow> ('s, collected) prog" where
  "collect_file E hash acc file =
     mtry (mbind (github_fileExists E (repoPath E @ ''/'' @ file)) (\<lambda>present.
           if \<not> present then mret acc
           else mbind (gitShow E (hash @ '':'' @ file)) (\<lambda>fileContentRaw.
                mbind (mlift (parseFileContent fileContentRaw)) (\<lambda>fileContent.
                  mret (collect acc (Some \<lparr>fileName = file, gh_commitHash = hash,
                     gh_fileContent = fileContent, chainInfo = None, prMerged = Some True,
                     prNumber = None, prUrl = None\<rparr>))))))
          (\<lambda>err. mret acc)"

fun set_rationale :: "string \<Rightarrow> string \<Rightarrow> github_proposal list \<Rightarrow> github_proposal list" where
  "set_rationale name text [] = []"
| "set_rationale name text (g # gs) =
     (if fileName g = name then g\<lparr>gh_fileContent := (gh_fileContent g)\<lparr>fc_rationale := Some text\<rparr>\<rparr> # gs
      else g # set_rationale name text gs)"

definition collect_rationale :: "'s env \<Rightarrow> string \<Rightarrow> collected \<Rightarrow> string \<Rightarrow> ('s, collected) prog" where
  "collect_rationale E hash acc file =
     (let parts = split_str (rationaleFolder @ ''/'') file;
          name = (if 1 < length parts then parts ! 1 else ''n/a'');
          target = proposalsFolder @ ''/'' @ name
      in if filter (\<lambda>r. fileName r = target) (fst acc) = [] then mret acc
         else mbind (gitShow E (hash @ '':'' @ file)) (\<lambda>text. mret (set_rationale target text (fst acc), snd acc)))"

definition collect_commit :: "'s env \<Rightarrow> collected \<Rightarrow> string \<Rightarrow> ('s, collected) prog" where
  "collect_commit E acc hash =
     mbind (gitRaw E [''rev-list'', ''--parents'', ''-n'', ''1'', hash]) (\<lambda>parentsRaw.
       let parentHashes = drop 1 (split_char (CHR '' '') (trim parentsRaw)) in
       if length parentHashes = 0 then mret acc
       else
         mbind (gitDiff E [''--diff-filter=A'', ''--name-only'', hash @ ''~1'', hash]) (\<lambda>diffOutput.
           let addedMdFiles = added_files proposalsFolder (snd acc) diffOutput;
               addedRationaleMdFiles = added_files rationaleFolder (snd acc) diffOutput
           in mbind (mfold (collect_file E hash) acc addedMdFiles) (\<lambda>acc1.
                mfold (collect_rationale E hash) acc1 addedRationaleMdFiles)))"

definition getGithubProposalsRaw :: "('x st) env \<Rightarrow> ('x st, github_proposal list) prog" where
  "getGithubProposalsRaw E =
     mbind (mget gitReady) (\<lambda>ready.
     mthen (mwhen (\<not> ready) (cloneAndCheckout E (repoSlug E) (githubBranch E)))
     (mthen (gitCheckout E (githubBranch E))
     (mbind (gitLog E) (\<lambda>commits.
      mbind (getOpenPullRequests E) (\<lambda>openPRs.
      mbind (mfold (collect_pr E) ([], []) openPRs) (\<lambda>acc.
      mbind (mfold (collect_commit E) acc commits) (\<lambda>acc1. mret (fst acc1))))))))"

definition getGithubProposals :: "('x st) env \<Rightarrow> ('x st, github_proposal list) prog" where
  "getGithubProposals E =
     cached E (snd (ttl_GithubProposals E)) (fst (fst (ttl_GithubProposals E)), None) githubC
       (getGithubProposalsRaw E)"

definition no_file_content :: file_content where
  "no_file_content = \<lparr>fc_title = ''No title found'', fc_description = ''No description found'',
     fc_content = ''No content found'', fc_rationale = None, fc_proposer = ''No proposer found''\<rparr>"

definition getDescription :: "('x st) env \<Rightarrow> string \<Rightarrow> ('x st, description) prog" where
  "getDescription E commitHash =
     mbind (getGithubProposals E) (\<lambda>gitProposals.
       mret (DescriptionV3 3
         (case List.find (\<lambda>proposal. gh_commitHash proposal = commitHash) gitProposals of
            Some target \<Rightarrow> gh_fileContent target
          | None \<Rightarrow> no_file_content)))"

text \<open>\<open>github.proposals.cache.warmer.ts\<close>: refresh the cached list and drop the local copies.\<close>

definition warmGithubProposals :: "('x st) env \<Rightarrow> ('x st, unit) prog" where
  "warmGithubProposals E =
     mbind (getGithubProposalsRaw E) (\<lambda>githubProposals.
     let cacheKey = snd (ttl_GithubProposals E) in
     mthen (cacheSet E cacheKey (VGithub githubProposals) (fst (fst (ttl_GithubProposals E))) None)
           (publishKeys E ''deleteCacheKeys'' [cacheKey]))"


section \<open>GovGithubService\<close>

text \<open>A JavaScript value in a template string, and a property reached through several objects.\<close>

fun js_text :: "jsval \<Rightarrow> string" where
  "js_text JUndef = ''undefined''"
| "js_text JNull = ''null''"
| "js_text (JBool b) = (if b then ''true'' else ''false'')"
| "js_text (JNum x) = bn_toString x"
| "js_text (JBig n) = show_int n"
| "js_text (JStr s) = s"
| "js_text (JAddr a) = a"
| "js_text (JArr xs) = join '','' (map js_text xs)"
| "js_text (JObj fs) = ''[object Object]''"

fun js_path :: "string list \<Rightarrow> jsval \<Rightarrow> exn + jsval" where
  "js_path [] v = Inr v"
| "js_path (k # ks) v = rbind (js_get k v) (js_path ks)"

text \<open>
  The handler of both methods. A rejected request carries the body of the answer as its message and
  its status; without an answer, and for an error raised in the block itself, neither is found.
\<close>

definition api_failure :: "exn \<Rightarrow> exn" where
  "api_failure err =
     (case err of
        RemoteError r \<Rightarrow>
          (case statusCode r of
             Some st \<Rightarrow> HttpException (message r) st
           | None \<Rightarrow> HttpException ''GitHub API request failed'' 500)
      | _ \<Rightarrow> HttpException ''GitHub API request failed'' 500)"

definition js_optional :: "string option \<Rightarrow> jsval" where
  "js_optional s = (case s of None \<Rightarrow> JUndef | Some t \<Rightarrow> JStr t)"

definition exchangeCodeForToken :: "'s env \<Rightarrow> string \<Rightarrow> ('s, jsval) prog" where
  "exchangeCodeForToken E authCode =
     mtry (mbind (axiosRequest E ''post'' ''https://github.com/login/oauth/access_token''
             (JObj [(''client_id'', js_optional (githubClientId E)),
                    (''client_secret'', js_optional (githubClientSecret E)),
                    (''code'', JStr authCode)]) None) (\<lambda>data.
           mbind (mlift (js_get ''access_token'' data)) (\<lambda>token.
             if \<not> js_bool token
             then mthrow (HttpException
                    (if js_bool (js_field ''error_description'' data) then js_text (js_field ''error_description'' data)
                     else if js_bool (js_field ''error'' data) then js_text (js_field ''error'' data)
                     else ''No access token returned from GitHub'') 400)
             else mret token)))
          (\<lambda>err. mthrow (api_failure err))"

record proposal_dto =
  dto_title :: string
  dto_description :: string
  dto_proposal :: string
  dto_accessToken :: string
  dto_user :: string

definition blob_content :: "proposal_dto \<Rightarrow> string" where
  "blob_content dto =
     to_base64 (dto_title dto @ [newline] @ dto_description dto @ [newline] @ dto_proposal dto @ [newline] @ dto_user dto)"

definition createGithubProposal :: "'s env \<Rightarrow> proposal_dto \<Rightarrow> ('s, jsval) prog" where
  "createGithubProposal E dto =
     (let apiBase = ''https://api.github.com'';
          post = (\<lambda>url body. axiosRequest E ''post'' url body (Some (dto_accessToken dto)));
          patch = (\<lambda>url body. axiosRequest E ''patch'' url body (Some (dto_accessToken dto)));
          fetch = (\<lambda>url. axiosRequest E ''get'' url JUndef (Some (dto_accessToken dto)))
      in
      mtry
       (mbind (post (apiBase @ ''/repos/'' @ githubOwner E @ ''/'' @ githubRepository E @ ''/forks'') (JObj [])) (\<lambda>forkRes.
        mbind (mlift (js_path [''owner'', ''login''] forkRes)) (\<lambda>forkOwner.
        mbind (mlift (js_path [''name''] forkRes)) (\<lambda>forkRepo.
        let fork = apiBase @ ''/repos/'' @ js_text forkOwner @ ''/'' @ js_text forkRepo in
        mthen (delay E 10000)
        (mbind (fetch (fork @ ''/git/ref/heads/'' @ githubBranch E)) (\<lambda>refRes.
        mbind (mlift (js_path [''object'', ''sha''] refRes)) (\<lambda>baseCommitSha.
        mbind (now E) (\<lambda>time.
        let branchName = ''proposal-'' @ show_int time in
        mthen (post (fork @ ''/git/refs'')
                 (JObj [(''ref'', JStr (''refs/heads/'' @ branchName)), (''sha'', baseCommitSha)]))
        (mbind (post (fork @ ''/git/blobs'')
                 (JObj [(''content'', JStr (blob_content dto)), (''encoding'', JStr ''base64'')])) (\<lambda>blobRes.
        mbind (fetch (fork @ ''/git/commits/'' @ js_text baseCommitSha)) (\<lambda>commitRes.
        mbind (mlift (js_path [''tree'', ''sha''] commitRes)) (\<lambda>baseTreeSha.
        let filePath = ''proposals/'' @ branchName @ ''.md'' in
        mbind (mlift (js_path [''sha''] blobRes)) (\<lambda>blobSha.
        mbind (post (fork @ ''/git/trees'')
                 (JObj [(''base_tree'', baseTreeSha),
                        (''tree'', JArr [JObj [(''path'', JStr filePath), (''mode'', JStr ''100644''),
                                            (''type'', JStr ''blob''), (''sha'', blobSha)]])])) (\<lambda>treeRes.
        mbind (mlift (js_path [''sha''] treeRes)) (\<lambda>treeSha.
        mbind (post (fork @ ''/git/commits'')
                 (JObj [(''message'', JStr (''Add proposal: '' @ dto_title dto)), (''tree'', treeSha),
                        (''parents'', JArr [baseCommitSha])])) (\<lambda>newCommitRes.
        mbind (mlift (js_path [''sha''] newCommitRes)) (\<lambda>newCommitSha.
        mthen (patch (fork @ ''/git/refs/heads/'' @ branchName)
                 (JObj [(''sha'', newCommitSha), (''force'', JBool True)]))
        (mbind (post (apiBase @ ''/repos/'' @ githubOwner E @ ''/'' @ githubRepository E @ ''/pulls'')
                 (JObj [(''title'', JStr (dto_title dto)), (''head'', JStr (js_text forkOwner @ '':'' @ branchName)),
                        (''base'', JStr (githubBranch E)), (''body'', JStr (dto_description dto))])) (\<lambda>prRes.
          mlift (js_path [''html_url''] prRes))))))))))))))))))))
       (\<lambda>err. mthrow (api_failure err)))"


section \<open>Texts that are written and read back\<close>

lemma split_char_aux_app:
  "split_char_aux c acc (a @ c # b) = split_char_aux c acc a @ split_char_aux c [] b"
  by (induction a arbitrary: acc) auto

lemma split_char_app: "split_char c (a @ c # b) = split_char c a @ split_char c b"
  by (simp add: split_char_def split_char_aux_app)

lemma join_Cons: "ss \<noteq> [] \<Longrightarrow> join sep (s # ss) = s @ sep @ join sep ss"
  by (cases ss) auto

lemma join_split_char_aux: "join [c] (split_char_aux c acc s) = rev acc @ s"
  by (induction c acc s rule: split_char_aux.induct) (auto simp: join_Cons)

lemma join_split_char [simp]: "join [c] (split_char c s) = s"
  by (simp add: split_char_def join_split_char_aux)

lemma replace_first_absent: "\<not> sublist pat s \<Longrightarrow> replace_first pat by s = s"
proof (induction s)
  case Nil
  then show ?case by (cases pat) auto
next
  case (Cons x xs)
  have "\<not> prefix pat (x # xs)" using Cons.prems by (meson prefix_imp_sublist)
  moreover have "\<not> sublist pat xs" using Cons.prems by (meson sublist_Cons_right)
  ultimately show ?case using Cons.IH by simp
qed

text \<open>A line that is written without white space around it and without the marks of a comment.\<close>

definition plain_line :: "string \<Rightarrow> bool" where
  "plain_line t \<longleftrightarrow> newline \<notin> set t \<and> trim t = t \<and> \<not> sublist ''<!---'' t \<and> \<not> sublist ''--->'' t"

lemma strip_plain: "plain_line t \<Longrightarrow> strip_comment t = t"
  by (simp add: plain_line_def strip_comment_def replace_first_absent)

text \<open>
  C8: a proposal's file is read back as it was written. The text that \<open>createProposal\<close> uploads, decoded
  and parsed, gives the title, the description, the proposal and the proposer, whatever the number of
  lines of the proposal, if title, description and user are plain lines, the user is not empty, and
  the proposal does not hold the outdated link that the parser rewrites.
\<close>

theorem proposal_file_roundtrip:
  assumes "plain_line (dto_title d)" "plain_line (dto_description d)" "plain_line (dto_user d)"
    and "dto_user d \<noteq> []" and "\<not> sublist economics_old (dto_proposal d)"
  shows "parseFileContent (from_base64 (blob_content d)) =
    Inr \<lparr>fc_title = dto_title d, fc_description = dto_description d, fc_content = dto_proposal d,
         fc_rationale = None, fc_proposer = dto_user d\<rparr>"
proof -
  let ?ls = "split_char newline (dto_proposal d)"
  let ?lines = "dto_title d # dto_description d # ?ls @ [dto_user d]"
  have content: "from_base64 (blob_content d) =
      dto_title d @ newline # dto_description d @ newline # dto_proposal d @ newline # dto_user d"
    by (simp add: blob_content_def)
  have lines: "split_char newline (from_base64 (blob_content d)) = ?lines"
    using assms(1-3) unfolding content by (simp add: plain_line_def split_char_cons split_char_app split_char_single)
  have len: "4 \<le> length ?lines" by (cases ?ls) simp_all
  have empty: "emptyLinesAtTheEnd ?lines = 0"
    using assms(3,4) by (simp add: emptyLinesAtTheEnd_def plain_line_def)
  have slice: "js_slice 2 (- 1) ?lines = ?ls"
    by (simp add: js_slice_def slice_index_def)
  show ?thesis
    using len assms(1-3,5) unfolding parseFileContent_def lines Let_def empty
    by (simp add: slice strip_plain replace_first_absent nth_append)
qed

definition example_dto :: proposal_dto where
  "example_dto = \<lparr>dto_title = ''T'', dto_description = ''D'', dto_proposal = ''a'' @ [newline] @ ''b'',
     dto_accessToken = ''t'', dto_user = ''u''\<rparr>"

theorem proposal_file_roundtrip_witness:
  "parseFileContent (from_base64 (blob_content example_dto)) =
    Inr \<lparr>fc_title = ''T'', fc_description = ''D'', fc_content = ''a'' @ [newline] @ ''b'',
         fc_rationale = None, fc_proposer = ''u''\<rparr>"
proof -
  have plain: "plain_line ''T''" "plain_line ''D''" "plain_line ''u''" by code_simp+
  have link: "\<not> sublist economics_old (''a'' @ [newline] @ ''b'')" by code_simp
  show ?thesis
    using proposal_file_roundtrip [of example_dto] plain link by (simp add: example_dto_def)
qed


lemma length_split_char: "length (split_char c s) = Suc (count_list s c)"
proof -
  have "length (split_char_aux c acc s) = Suc (count_list s c)" for acc
    by (induction c acc s rule: split_char_aux.induct) auto
  then show ?thesis by (simp add: split_char_def)
qed

lemma takeWhile_rev_all: "length xs \<le> length (takeWhile P (rev xs)) \<longleftrightarrow> (\<forall>x\<in>set xs. P x)"
  by (metis length_rev length_takeWhile_le le_antisym set_rev takeWhile_eq_all_conv takeWhile_eq_take take_all_iff)

text \<open>
  which files are proposals. The parser accepts a text exactly when it has three line breaks and a
  line that is not blank, and otherwise throws.
\<close>

theorem parseFileContent_accepts:
  "(\<exists>fc. parseFileContent raw = Inr fc) \<longleftrightarrow>
     3 \<le> count_list raw newline \<and> (\<exists>l\<in>set (split_char newline raw). trim l \<noteq> [])"
  using takeWhile_rev_all [of "split_char newline raw" "\<lambda>l. trim l = []"]
  by (auto simp: parseFileContent_def Let_def length_split_char emptyLinesAtTheEnd_def)

text \<open>
  The branch that reports a failed exchange is never seen. When GitHub answers without an access
  token, the code throws an error with GitHub's explanation and status 400 inside its own \<open>try\<close>, and
  the handler turns it into a general failure with status 500.
\<close>

theorem exchange_explanation_lost:
  assumes "axiosRequest E ''post'' ''https://github.com/login/oauth/access_token''
      (JObj [(''client_id'', js_optional (githubClientId E)), (''client_secret'', js_optional (githubClientSecret E)),
             (''code'', JStr c)]) None s = (Inr (JObj fs), s')"
    and "map_of fs ''access_token'' = None"
  shows "exchangeCodeForToken E c s = (Inl (HttpException ''GitHub API request failed'' 500), s')"
  using assms by (simp add: exchangeCodeForToken_def mbind_def js_get_def js_bool_def mtry_def api_failure_def)

definition refusing_env :: "memory_state env" where
  "refusing_env = memory_env\<lparr>axiosRequest := \<lambda>m u b t. mret (JObj [(''error'', JStr ''bad_verification_code'')])\<rparr>"

theorem exchange_explanation_lost_witness:
  "exchangeCodeForToken refusing_env ''x'' empty_memory =
    (Inl (HttpException ''GitHub API request failed'' 500), empty_memory)"
  by (rule exchange_explanation_lost [where fs = "[(''error'', JStr ''bad_verification_code'')]"])
     (simp_all add: refusing_env_def)


section \<open>The proposals of the history\<close>

lemma set_rationale_names [simp]: "map fileName (set_rationale n t gs) = map fileName gs"
  by (induction gs) auto

lemma set_rationale_append:
  "set_rationale n t (xs @ ys) =
     (if n \<in> fileName ` set xs then set_rationale n t xs @ ys else xs @ set_rationale n t ys)"
  by (induction xs) auto

lemma set_rationale_merged: "map prMerged (set_rationale n t gs) = map prMerged gs"
  by (induction gs) auto

text \<open>
  What the collection keeps: the proposals found so far stay (a rationale may be added to them), the
  new ones are merged files of the proposals folder, each seen once, and the names seen are those of
  the results.
\<close>

definition proposal_file :: "string \<Rightarrow> bool" where
  "proposal_file f \<longleftrightarrow> suffix ''.md'' f \<and> prefix ''proposals/'' f \<and> \<not> str_includes (toLowerCase f) ''readme''"

definition grows :: "collected \<Rightarrow> collected \<Rightarrow> bool" where
  "grows acc acc' \<longleftrightarrow>
     (set (snd acc) = fileName ` set (fst acc) \<longrightarrow>
       set (snd acc') = fileName ` set (fst acc') \<and>
       (\<exists>old new. fst acc' = old @ new \<and> map fileName old = map fileName (fst acc) \<and>
          map prMerged old = map prMerged (fst acc) \<and>
          distinct (map fileName new) \<and> fileName ` set new \<inter> fileName ` set old = {} \<and>
          (\<forall>g\<in>set new. prMerged g = Some True \<and> proposal_file (fileName g))))"

lemma grows_refl [simp]: "grows acc acc"
  unfolding grows_def by (intro impI conjI exI [of _ "fst acc"] exI [of _ "[]"]) auto

lemma map_append_split: "map f zs = map f xs @ ys \<Longrightarrow> \<exists>as bs. zs = as @ bs \<and> map f as = map f xs \<and> map f bs = ys"
  by (metis map_eq_append_conv)

lemma image_eq_map: "map f as = map f bs \<Longrightarrow> f ` set as = f ` set bs"
  by (metis list.set_map)

lemma grows_trans:
  assumes "grows a b" "grows b c"
  shows "grows a c"
  unfolding grows_def
proof (intro impI)
  assume a: "set (snd a) = fileName ` set (fst a)"
  obtain o1 n1 where 1: "fst b = o1 @ n1" "map fileName o1 = map fileName (fst a)" "map prMerged o1 = map prMerged (fst a)"
      "distinct (map fileName n1)" "fileName ` set n1 \<inter> fileName ` set o1 = {}"
      "\<forall>g\<in>set n1. prMerged g = Some True \<and> proposal_file (fileName g)"
    and b: "set (snd b) = fileName ` set (fst b)"
    using assms(1) a by (auto simp: grows_def)
  obtain o2 n2 where 2: "fst c = o2 @ n2" "map fileName o2 = map fileName (fst b)" "map prMerged o2 = map prMerged (fst b)"
      "distinct (map fileName n2)" "fileName ` set n2 \<inter> fileName ` set o2 = {}"
      "\<forall>g\<in>set n2. prMerged g = Some True \<and> proposal_file (fileName g)"
    and c: "set (snd c) = fileName ` set (fst c)"
    using assms(2) b by (auto simp: grows_def)
  define p q where "p = take (length o1) o2" and "q = drop (length o1) o2"
  have pq: "o2 = p @ q" by (simp add: p_def q_def)
  have names: "map fileName p = map fileName o1" "map fileName q = map fileName n1"
    using 2(2) by (simp_all add: p_def q_def 1(1) take_map [symmetric] drop_map [symmetric])
  have merged: "map prMerged p = map prMerged o1" "map prMerged q = map prMerged n1"
    using 2(3) by (simp_all add: p_def q_def 1(1) take_map [symmetric] drop_map [symmetric])
  have new: "prMerged g = Some True \<and> proposal_file (fileName g)" if "g \<in> set q" for g
  proof -
    have "Some True = prMerged g" if "g \<in> set q" for g
      using that merged(2) 1(6) image_eq_map [OF merged(2)] by (metis (no_types, lifting) image_iff)
    moreover have "fileName g \<in> fileName ` set n1" if "g \<in> set q" for g
      using that image_eq_map [OF names(2)] by blast
    ultimately show ?thesis using that 1(6) by (metis (no_types, lifting) image_iff)
  qed
  show "set (snd c) = fileName ` set (fst c) \<and>
      (\<exists>old new. fst c = old @ new \<and> map fileName old = map fileName (fst a) \<and>
          map prMerged old = map prMerged (fst a) \<and>
          distinct (map fileName new) \<and> fileName ` set new \<inter> fileName ` set old = {} \<and>
          (\<forall>g\<in>set new. prMerged g = Some True \<and> proposal_file (fileName g)))"
  proof (rule conjI [OF c], rule exI [of _ p], rule exI [of _ "q @ n2"], intro conjI)
    show "distinct (map fileName (q @ n2))"
      using names(2) 1(4) 2(4,5) pq image_eq_map [OF names(2)] by (simp add: image_Un) blast
    show "fileName ` set (q @ n2) \<inter> fileName ` set p = {}"
      using 1(5) 2(5) pq image_eq_map [OF names(1)] image_eq_map [OF names(2)] by (auto simp: image_Un)
  qed (use pq 2(1,6) names merged 1(2,3) new in auto)
qed


lemma grows_collect:
  assumes "fileName g \<notin> set (snd acc)" "proposal_file (fileName g)" "prMerged g = Some True"
  shows "grows acc (collect acc (Some g))"
  unfolding grows_def
  by (intro impI conjI exI [of _ "fst acc"] exI [of _ "[g]"]) (use assms in \<open>auto simp: collect_def\<close>)

lemma grows_rationale: "grows acc (set_rationale n t (fst acc), snd acc)"
  unfolding grows_def
  by (intro impI conjI exI [of _ "set_rationale n t (fst acc)"] exI [of _ "[]"])
     (use image_eq_map [OF set_rationale_names] in \<open>auto simp: set_rationale_merged\<close>)

lemma collect_file_cases:
  assumes "collect_file E h acc f s = (Inr acc', s')"
  shows "acc' = acc \<or> (\<exists>g. acc' = collect acc (Some g) \<and> fileName g = f \<and> prMerged g = Some True)"
  using assms
  by (auto simp: collect_file_def mtry_def mbind_def mlift_def split: prod.splits sum.splits if_splits)

lemma collect_files_grow:
  "mfold (collect_file E h) acc files s = (Inr acc', s') \<Longrightarrow> distinct files \<Longrightarrow>
   \<forall>f\<in>set files. proposal_file f \<and> f \<notin> set (snd acc) \<Longrightarrow> grows acc acc'"
proof (induction files arbitrary: acc s)
  case Nil
  then show ?case by simp
next
  case (Cons f files)
  obtain acc1 s1 where 1: "collect_file E h acc f s = (Inr acc1, s1)"
      "mfold (collect_file E h) acc1 files s1 = (Inr acc', s')"
    using Cons.prems(1) by (auto elim: mbind_InrE)
  have step: "grows acc acc1 \<and> set (snd acc1) \<subseteq> insert f (set (snd acc))"
    using collect_file_cases [OF 1(1)] Cons.prems(3) grows_collect by (fastforce simp: collect_def)
  have "grows acc1 acc'"
    by (rule Cons.IH [OF 1(2)]) (use Cons.prems(2,3) step in auto)
  then show ?case using step grows_trans by blast
qed

lemma collect_rationales_grow:
  "mfold (collect_rationale E h) acc files s = (Inr acc', s') \<Longrightarrow> grows acc acc'"
proof (induction files arbitrary: acc s)
  case Nil
  then show ?case by simp
next
  case (Cons f files)
  obtain acc1 s1 where 1: "collect_rationale E h acc f s = (Inr acc1, s1)"
      "mfold (collect_rationale E h) acc1 files s1 = (Inr acc', s')"
    using Cons.prems by (auto elim: mbind_InrE)
  have "grows acc acc1"
    using 1(1)
    by (auto simp: collect_rationale_def Let_def split: if_splits elim!: mbind_InrE intro: grows_rationale)
  then show ?case using Cons.IH [OF 1(2)] grows_trans by blast
qed

text \<open>Git lists the name of a file once in a difference.\<close>

definition names_once :: "string \<Rightarrow> bool" where
  "names_once d \<longleftrightarrow> distinct (filter (\<lambda>f. f \<noteq> []) (map trim (split_char newline d)))"

definition git_names_once :: "'s env \<Rightarrow> bool" where
  "git_names_once E \<longleftrightarrow> (\<forall>args s d s'. gitDiff E args s = (Inr d, s') \<longrightarrow> names_once d)"

lemma git_names_onceD: "git_names_once E \<Longrightarrow> gitDiff E args s = (Inr d, s') \<Longrightarrow> names_once d"
  by (auto simp: git_names_once_def)

lemma added_files_distinct:
  assumes "names_once d"
  shows "distinct (added_files folder seen d)"
proof -
  have "added_files folder seen d =
      filter (\<lambda>f. suffix ''.md'' f \<and> prefix (folder @ ''/'') f \<and> f \<notin> set seen \<and>
                   \<not> str_includes (toLowerCase f) ''readme'')
        (filter (\<lambda>f. f \<noteq> []) (map trim (split_char newline d)))"
    by (auto simp: added_files_def intro!: filter_cong)
  then show ?thesis using distinct_filter [OF assms [unfolded names_once_def]] by (simp only:)
qed

lemma added_files_proposals:
  "f \<in> set (added_files proposalsFolder seen d) \<Longrightarrow> proposal_file f \<and> f \<notin> set seen"
  by (auto simp: added_files_def proposal_file_def proposalsFolder_def)

lemma collect_commit_grows:
  assumes "git_names_once E"
    and "collect_commit E acc h s = (Inr acc', s')"
  shows "grows acc acc'"
proof -
  have run: "grows acc a2" if "gitDiff E args s1 = (Inr d, s2)"
    "mfold (collect_file E h) acc (added_files proposalsFolder (snd acc) d) s2 = (Inr a1, s3)"
    "mfold (collect_rationale E h) a1 fs s3 = (Inr a2, s4)" for args s1 d s2 a1 s3 fs a2 s4
    by (rule grows_trans [OF collect_files_grow [OF that(2)] collect_rationales_grow [OF that(3)]])
       (use added_files_distinct [OF git_names_onceD [OF assms(1) that(1)]] added_files_proposals in auto)
  show ?thesis
    using assms(2) unfolding collect_commit_def Let_def
    by (elim mbind_InrE, split if_splits) (auto elim!: mbind_InrE dest: run)
qed

lemma collect_commits_grow:
  assumes "git_names_once E"
  shows "mfold (collect_commit E) acc hs s = (Inr acc', s') \<Longrightarrow> grows acc acc'"
proof (induction hs arbitrary: acc s)
  case Nil
  then show ?case by simp
next
  case (Cons h hs)
  obtain acc1 s1 where 1: "collect_commit E acc h s = (Inr acc1, s1)"
      "mfold (collect_commit E) acc1 hs s1 = (Inr acc', s')"
    using Cons.prems by (auto elim: mbind_InrE)
  show ?case
    by (rule grows_trans [OF collect_commit_grows [OF assms 1(1)] Cons.IH [OF 1(2)]])
qed

definition open_only :: "collected \<Rightarrow> bool" where
  "open_only acc \<longleftrightarrow> set (snd acc) = fileName ` set (fst acc) \<and> (\<forall>g\<in>set (fst acc). prMerged g = Some False)"

lemma proposal_of_pr_open: "proposal_of_pr E pr s = (Inr (Some g), s') \<Longrightarrow> prMerged g = Some False"
  by (auto simp: proposal_of_pr_def split: if_splits list.splits elim!: mbind_InrE)

lemma collect_prs_open:
  "mfold (collect_pr E) acc prs s = (Inr acc', s') \<Longrightarrow> open_only acc \<Longrightarrow> open_only acc'"
proof (induction prs arbitrary: acc s)
  case Nil
  then show ?case by simp
next
  case (Cons pr prs)
  obtain acc1 s1 where 1: "collect_pr E acc pr s = (Inr acc1, s1)"
      "mfold (collect_pr E) acc1 prs s1 = (Inr acc', s')"
    using Cons.prems by (auto elim: mbind_InrE)
  have "open_only acc1"
    using 1(1) Cons.prems(2) proposal_of_pr_open
    by (fastforce simp: collect_pr_def mtry_def mbind_def collect_def open_only_def
        split: prod.splits sum.splits option.splits)
  then show ?case using Cons.IH [OF 1(2)] by blast
qed

text \<open>
  C27: no file of the history is listed twice. The result is the proposals of the open pull requests,
  marked as not merged, followed by those of the history, marked as merged; the files of the second
  part are all different, none of them is the file of an open pull request, and each is a markdown
  file of the proposals folder that is not a readme. It needs what git documents of its list of
  names: a name occurs once.
\<close>

theorem merged_proposals_once:
  assumes "git_names_once E"
    and "getGithubProposalsRaw E s = (Inr gs, s')"
  shows "\<exists>prs merged. gs = prs @ merged \<and> (\<forall>g\<in>set prs. prMerged g = Some False) \<and>
    distinct (map fileName merged) \<and> fileName ` set merged \<inter> fileName ` set prs = {} \<and>
    (\<forall>g\<in>set merged. prMerged g = Some True \<and> proposal_file (fileName g))"
proof -
  obtain prs acc acc1 hs s1 s2 s3 where
      1: "mfold (collect_pr E) ([], []) prs s1 = (Inr acc, s2)"
      "mfold (collect_commit E) acc hs s2 = (Inr acc1, s3)" and gs: "gs = fst acc1"
    using assms(2) by (auto simp: getGithubProposalsRaw_def mthen_def elim!: mbind_InrE)
  have "open_only acc"
    by (rule collect_prs_open [OF 1(1)]) (simp add: open_only_def)
  moreover have "grows acc acc1" by (rule collect_commits_grow [OF assms(1) 1(2)])
  ultimately obtain old new where new: "fst acc1 = old @ new" "map prMerged old = map prMerged (fst acc)"
      "distinct (map fileName new)" "fileName ` set new \<inter> fileName ` set old = {}"
      "\<forall>g\<in>set new. prMerged g = Some True \<and> proposal_file (fileName g)"
    by (auto simp: grows_def open_only_def)
  have "prMerged g = Some False" if "g \<in> set old" for g
    using that image_eq_map [OF new(2)] \<open>open_only acc\<close>
    by (metis (no_types, lifting) image_iff open_only_def)
  then show ?thesis using new gs by blast
qed


definition git_env :: "memory_state env" where
  "git_env = memory_env\<lparr>fileAccess := \<lambda>p. mret (), gitLog := mret [''h1''], gitRaw := \<lambda>a. mret ''h1 h0'',
     gitDiff := \<lambda>a. mret (''proposals/a.md'' @ [newline]),
     gitShow := \<lambda>a. mret (''T'' @ [newline] @ ''D'' @ [newline] @ ''P'' @ [newline] @ ''u''),
     fetchUrl := \<lambda>u t. mret \<lparr>fr_ok = True, fr_statusText = [], fr_json = Inr (JArr []), fr_text = []\<rparr>\<rparr>"

definition names_of :: "exn + github_proposal list \<Rightarrow> string list" where
  "names_of r = (case r of Inl e \<Rightarrow> [] | Inr gs \<Rightarrow> map fileName gs)"

lemma git_run: "names_of (fst (getGithubProposalsRaw git_env empty_memory)) = [''proposals/a.md'']"
  by code_simp

theorem merged_proposals_once_witness:
  "\<exists>gs s'. getGithubProposalsRaw git_env empty_memory = (Inr gs, s') \<and> map fileName gs = [''proposals/a.md''] \<and>
    (\<exists>prs merged. gs = prs @ merged \<and> (\<forall>g\<in>set prs. prMerged g = Some False) \<and>
      distinct (map fileName merged) \<and> fileName ` set merged \<inter> fileName ` set prs = {} \<and>
      (\<forall>g\<in>set merged. prMerged g = Some True \<and> proposal_file (fileName g)))"
proof -
  have "names_once (''proposals/a.md'' @ [newline])" by code_simp
  then have diff: "git_names_once git_env" by (simp add: git_names_once_def git_env_def)
  obtain gs s' where run: "getGithubProposalsRaw git_env empty_memory = (Inr gs, s')" "map fileName gs = [''proposals/a.md'']"
    using git_run by (cases "getGithubProposalsRaw git_env empty_memory") (auto simp: names_of_def split: sum.splits)
  show ?thesis
    by (rule exI [of _ gs], rule exI [of _ s']) (rule conjI [OF run(1)], rule conjI [OF run(2)],
       rule merged_proposals_once [OF diff run(1)])
qed

end
