(* ===== verification/Gov_Delegate.thy ===== *)
theory Gov_Delegate
  imports Gov_Github
begin

text \<open>
  Votes through staking providers: \<open>src/modules/governance/services/delegate-governance.service.ts\<close>.
  A provider whose voting contract differs from its staking contract is liquid staking: the power
  comes from a snapshot file and its proof goes into the transaction. Otherwise the contract is asked.
\<close>

section \<open>DelegateGovernanceService\<close>

definition VOTE_POWER_FOR_NOT_IMPL :: string where
  "VOTE_POWER_FOR_NOT_IMPL = ''0''"

definition is_liquid :: "delegate_staking_provider \<Rightarrow> bool" where
  "is_liquid p \<longleftrightarrow> voteScAddress p \<noteq> stakeScAddress p"

definition required_provider :: "'s env \<Rightarrow> string \<Rightarrow> exn + delegate_staking_provider" where
  "required_provider E scAddress =
     (case getDelegateStakingProvider E scAddress of None \<Rightarrow> Inl TypeError | Some p \<Rightarrow> Inr p)"

definition getProofForProvider :: "('x st) env \<Rightarrow> string \<Rightarrow> string \<Rightarrow> int \<Rightarrow> ('x st, string) prog" where
  "getProofForProvider E userAddress voteSc pid =
     mbind (getMerkleTreeForProvider E voteSc (show_int pid)) (\<lambda>merkleTree.
       mlift (getProofBuffer E merkleTree (getUserLeaf merkleTree userAddress)))"

definition delegate_createVoteTransaction ::
  "('x st) env \<Rightarrow> string \<Rightarrow> string \<Rightarrow> int \<Rightarrow> sdk_vote \<Rightarrow> ('x st, sdk_transaction) prog" where
  "delegate_createVoteTransaction E sender voteSc pid v =
     mbind (mlift (required_provider E voteSc)) (\<lambda>provider.
     mbind (if is_liquid provider
            then
              mbind (provider_getAddressBalance E (voteScAddress provider) (show_int pid) sender) (\<lambda>raw.
              let balance = (if raw = ''-1'' then VOTE_POWER_FOR_NOT_IMPL else raw) in
              mbind (getProofForProvider E sender (voteScAddress provider) pid) (\<lambda>proofBuffer.
                mret (gas_onChainLiquidStakingDelegation (gasConfig E),
                      [StringValue (sdkVoteName E v), BigUIntValue (bn_of_string balance), BytesValue proofBuffer])))
            else mret (gas_onChainLegacyDelegation (gasConfig E), [StringValue (sdkVoteName E v)])) (\<lambda>(gas, more_args).
       mlift (executeTx E sender
         \<lparr>ce_contract = voteScAddress provider, ce_gasLimit = gas, ce_function = voteFunctionName provider,
          ce_arguments = BigUIntValue (bn_int pid) # more_args\<rparr>)))"

text \<open>The provider is an object, so it enters the key of the cache as JSON.\<close>

definition provider_json :: "delegate_staking_provider \<Rightarrow> jsval" where
  "provider_json p =
     JObj [(''providerName'', JStr (providerName p)), (''voteScAddress'', JStr (voteScAddress p)),
           (''stakeScAddress'', JStr (stakeScAddress p)), (''lsTokenId'', JStr (lsTokenId p)),
           (''voteFunctionName'', JStr (voteFunctionName p)),
           (''viewUserVotingPowerName'', JStr (viewUserVotingPowerName p)), (''isEnabled'', JBool (isEnabled p))]"

text \<open>The first buffer of the answer as a big-endian number; an answer without one throws.\<close>

definition power_of_result :: "string list \<Rightarrow> exn + bn" where
  "power_of_result resultRaw =
     (case resultRaw of [] \<Rightarrow> Inl TypeError | b # _ \<Rightarrow> Inr (bn_int (int (read_digits 16 (to_hex b)))))"

definition delegate_tokenBalance :: "'s env \<Rightarrow> string option \<Rightarrow> string option \<Rightarrow> ('s, bn) prog" where
  "delegate_tokenBalance E userAddress tokenID =
     mbind (getTokenBalanceForAddress E userAddress tokenID) (\<lambda>balance. mret (bn_of_optional balance))"

definition viewUserVotingPower :: "'s env \<Rightarrow> delegate_staking_provider \<Rightarrow> string \<Rightarrow> ('s, bn) prog" where
  "viewUserVotingPower E provider userAddress =
     GetOrSetCache E ''governance'' (ttl_DynamicInfo E) ''viewUserVotingPower''
       [KObj (provider_json provider), KStr userAddress] bnC
       (mbind (scController_query E (voteScAddress provider) (viewUserVotingPowerName provider)
                [AddressValue userAddress]) (\<lambda>resultRaw. mlift (power_of_result resultRaw)))"

definition getUserVotingPowerFromDelegate ::
  "('x st) env \<Rightarrow> string \<Rightarrow> string \<Rightarrow> int \<Rightarrow> ('x st, bn) prog" where
  "getUserVotingPowerFromDelegate E userAddress scAddress pid =
     mbind (mlift (required_provider E scAddress)) (\<lambda>provider.
       if \<not> isEnabled provider then mret (bn_of_string VOTE_POWER_FOR_NOT_IMPL)
       else if is_liquid provider
       then mbind (provider_getAddressBalance E (voteScAddress provider) (show_int pid) userAddress)
              (\<lambda>userVotingPower. mret (bn_of_string userVotingPower))
       else viewUserVotingPower E provider userAddress)"

end
