(* ===== verification/Gov_OnChain.thy ===== *)
theory Gov_OnChain
  imports Gov_Delegate
begin

text \<open>
  On-chain governance: \<open>src/modules/governance/services/governance.onchain.abi.service.ts\<close>, which reads
  the proposals and the configuration of the network's governance contract through the SDK, derives
  a proposal's status, votes and voting powers from them and builds the transactions of a vote; and
  the method of \<open>github.service.ts\<close> that joins its proposals with those of the repository.
\<close>

section \<open>Values that can be cached\<close>

text \<open>The SDK's objects with \<open>bigint\<close> and \<open>Address\<close> values replaced by texts.\<close>

fun convertToRedisTypes :: "jsval \<Rightarrow> jsval" where
  "convertToRedisTypes (JBig n) = JStr (show_int n)"
| "convertToRedisTypes (JAddr a) = JStr a"
| "convertToRedisTypes (JArr xs) = JArr (map convertToRedisTypes xs)"
| "convertToRedisTypes (JObj fs) = JObj (map (\<lambda>(k, v). (k, convertToRedisTypes v)) fs)"
| "convertToRedisTypes v = v"

text \<open>The fields that the SDK declares, at their types.\<close>

definition str_field :: "string \<Rightarrow> jsval \<Rightarrow> exn + string" where
  "str_field k v = rbind (js_get k v) js_string"

definition int_field :: "string \<Rightarrow> jsval \<Rightarrow> exn + int" where
  "int_field k v = rbind (js_get k v) js_int"

definition info_of_json :: "jsval \<Rightarrow> exn + proposal_info" where
  "info_of_json v =
     rbind (str_field ''cost'' v) (\<lambda>cost.
     rbind (str_field ''commitHash'' v) (\<lambda>commit.
     rbind (int_field ''nonce'' v) (\<lambda>nonce.
     rbind (str_field ''issuer'' v) (\<lambda>issuer.
     rbind (int_field ''startVoteEpoch'' v) (\<lambda>first.
     rbind (int_field ''endVoteEpoch'' v) (\<lambda>last.
     rbind (str_field ''quorumStake'' v) (\<lambda>stake.
     rbind (str_field ''numYesVotes'' v) (\<lambda>yes.
     rbind (str_field ''numNoVotes'' v) (\<lambda>no.
     rbind (str_field ''numVetoVotes'' v) (\<lambda>veto.
     rbind (str_field ''numAbstainVotes'' v) (\<lambda>abstain.
       Inr \<lparr>pi_cost = cost, pi_commitHash = commit, pi_nonce = nonce, pi_issuer = issuer,
            startVoteEpoch = first, endVoteEpoch = last, quorumStake = stake, numYesVotes = yes,
            numNoVotes = no, numVetoVotes = veto, numAbstainVotes = abstain,
            isClosed = js_bool (js_field ''isClosed'' v), isPassed = js_bool (js_field ''isPassed'' v)\<rparr>)))))))))))"

definition config_of_json :: "jsval \<Rightarrow> exn + governance_config_model" where
  "config_of_json v =
     rbind (str_field ''proposalFee'' v) (\<lambda>fee.
     rbind (str_field ''lostProposalFee'' v) (\<lambda>lost.
       Inr \<lparr>proposalFee = fee, lostProposalFee = lost, minQuorum = js_number (js_field ''minQuorum'' v),
            minPassThreshold = js_number (js_field ''minPassThreshold'' v),
            minVetoThreshold = js_number (js_field ''minVetoThreshold'' v),
            lastProposalNonce = js_number (js_field ''lastProposalNonce'' v)\<rparr>))"

definition getConfigRaw :: "'s env \<Rightarrow> ('s, governance_config_model) prog" where
  "getConfigRaw E = mbind (controller_getConfig E) (\<lambda>config. mlift (config_of_json (convertToRedisTypes config)))"

definition getConfig :: "'s env \<Rightarrow> ('s, governance_config_model) prog" where
  "getConfig E = GetOrSetCache E ''governance'' (ttl_ContractState E) ''getConfig'' [] configC (getConfigRaw E)"

definition getProposalRaw :: "'s env \<Rightarrow> int \<Rightarrow> ('s, proposal_info) prog" where
  "getProposalRaw E pid =
     mbind (controller_getProposal E pid) (\<lambda>proposal. mlift (info_of_json (convertToRedisTypes proposal)))"

definition getProposal :: "'s env \<Rightarrow> int \<Rightarrow> ('s, proposal_info) prog" where
  "getProposal E pid =
     GetOrSetCache E ''governance'' (ttl_ContractState E) ''getProposal'' [KNum pid] infoC (getProposalRaw E pid)"


section \<open>The contract's parameters\<close>

definition oc_getAddressShardID :: "string \<Rightarrow> string" where
  "oc_getAddressShardID scAddress = ''4294967295''"

definition oc_minFeeForPropose :: "'s env \<Rightarrow> string \<Rightarrow> ('s, string) prog" where
  "oc_minFeeForPropose E scAddress = mbind (getConfig E) (\<lambda>c. mret (proposalFee c))"

text \<open>\<open>Number.toFixed()\<close> rounds to an integer.\<close>

definition oc_quorum :: "'s env \<Rightarrow> string \<Rightarrow> ('s, string) prog" where
  "oc_quorum E scAddress = mbind (getConfig E) (\<lambda>c. mret (bn_toFixedDp 0 (minQuorum c)))"

definition oc_votingDelayInBlocks :: "'s env \<Rightarrow> string \<Rightarrow> ('s, int) prog" where
  "oc_votingDelayInBlocks E scAddress =
     GetOrSetCache E ''governance'' (ttl_ContractState E) ''votingDelayInBlocks'' [KStr scAddress] numC (mret 0)"

definition oc_votingPeriodInBlocksRaw :: "string \<Rightarrow> ('s, int) prog" where
  "oc_votingPeriodInBlocksRaw scAddress = mret 0"

definition oc_votingPeriodInBlocks :: "'s env \<Rightarrow> string \<Rightarrow> ('s, int) prog" where
  "oc_votingPeriodInBlocks E scAddress =
     GetOrSetCache E ''governance'' (ttl_ContractState E) ''votingPeriodInBlocks'' [KStr scAddress] numC
       (oc_votingPeriodInBlocksRaw scAddress)"

definition oc_feeTokenId :: "string \<Rightarrow> string" where
  "oc_feeTokenId scAddress = ''EGLD-000000''"

definition totalOnChainProposals :: "'s env \<Rightarrow> ('s, bn) prog" where
  "totalOnChainProposals E = mbind (getConfig E) (\<lambda>c. mret (lastProposalNonce c))"

text \<open>
  The quotient is kept as the decimal that \<open>BigNumber\<close> computes; the last step of the source, \<open>Number\<close> of its
  text, rounds it to the nearest double, which is not modelled.
\<close>

definition oc_withdrawPercentageDefeated :: "'s env \<Rightarrow> string \<Rightarrow> ('s, bn) prog" where
  "oc_withdrawPercentageDefeated E scAddress =
     mbind (getConfig E) (\<lambda>c.
       mret (bn_div (bn_times (bn_of_string (lostProposalFee c)) (bn_int 100)) (bn_of_string (proposalFee c))))"

definition oc_proposalRootHash :: "string \<Rightarrow> int \<Rightarrow> string" where
  "oc_proposalRootHash scAddress pid = []"


section \<open>Status and votes\<close>

definition getStatusForProposal :: "'s env \<Rightarrow> proposal_info \<Rightarrow> ('s, GovernanceProposalStatus) prog" where
  "getStatusForProposal E proposal =
     (if isPassed proposal then mret Succeeded
      else if isClosed proposal \<and> \<not> isPassed proposal then mret Defeated
      else mbind (getCurrentEpoch E) (\<lambda>currentEpoch.
        if startVoteEpoch proposal \<le> currentEpoch \<and> currentEpoch \<le> endVoteEpoch proposal \<and> \<not> isClosed proposal
        then mret Active
        else if endVoteEpoch proposal < currentEpoch \<and> \<not> isClosed proposal then mret PendingClose
        else if currentEpoch < startVoteEpoch proposal then mret Pending
        else mret StatusNone))"

definition oc_proposalStatusRaw :: "'s env \<Rightarrow> string \<Rightarrow> int \<Rightarrow> ('s, GovernanceProposalStatus) prog" where
  "oc_proposalStatusRaw E scAddress pid = mbind (getProposal E pid) (getStatusForProposal E)"

definition oc_proposalStatus :: "'s env \<Rightarrow> string \<Rightarrow> int \<Rightarrow> ('s, GovernanceProposalStatus option) prog" where
  "oc_proposalStatus E scAddress pid =
     GetOrSetCache E ''governance'' (ttl_ContractState E) ''proposalStatus'' [KStr scAddress, KNum pid] statusC
       (mbind (oc_proposalStatusRaw E scAddress pid) (\<lambda>st. mret (Some st)))"

definition oc_proposalVotesRaw :: "'s env \<Rightarrow> string \<Rightarrow> int \<Rightarrow> ('s, proposal_votes) prog" where
  "oc_proposalVotesRaw E scAddress pid = mbind (getProposal E pid) (\<lambda>info. mret (onchain_votes info))"

definition oc_proposalVotes :: "'s env \<Rightarrow> string \<Rightarrow> int \<Rightarrow> ('s, proposal_votes) prog" where
  "oc_proposalVotes E scAddress pid =
     GetOrSetCache E ''governance'' (ttl_ContractState E) ''proposalVotes'' [KStr scAddress, KNum pid] votesC
       (oc_proposalVotesRaw E scAddress pid)"


section \<open>The list of proposals\<close>

definition convertProposalInfoToGovernanceModel ::
  "('x st) env \<Rightarrow> proposal_info \<Rightarrow> string \<Rightarrow> governance_config_model \<Rightarrow> ('x st, governance_proposal) prog" where
  "convertProposalInfoToGovernanceModel E info scAddress config =
     (let shardId = oc_getAddressShardID scAddress in
      mbind (getStats E) (\<lambda>st.
      mbind (oc_withdrawPercentageDefeated E scAddress) (\<lambda>withdraw.
      mbind (getDescription E (pi_commitHash info)) (\<lambda>descr.
      mbind (oc_proposalStatus E scAddress (pi_nonce info)) (\<lambda>status.
      mbind (promise_both (getFirstBlockNonceByEpochAndShard E (startVoteEpoch info) shardId)
                          (getRoundsLeftUntilEpoch E (endVoteEpoch info + 1))) (\<lambda>(startEpochRound, roundsLeft).
      mbind (getFirstBlockTimestampByEpochAndShard E (startVoteEpoch info) shardId) (\<lambda>startTime.
      mbind (getFirstBlockTimestampByEpochAndShard E (endVoteEpoch info + 1) shardId) (\<lambda>endTime.
      mbind (getTotalQuorum E) (\<lambda>total_quorum.
        mret \<lparr>contractAddress = scAddress, proposalId = pi_nonce info, proposer = pi_issuer info,
              actions = None, gp_description = descr,
              feePayment = \<lparr>tokenIdentifierP = oc_feeTokenId scAddress, tokenNonce = 0, amount = pi_cost info\<rparr>,
              minimumQuorumPercentage = bn_toFixedDp 2 (bn_div (minQuorum config) (bn_int 100)),
              gp_votingDelayInBlocks = (if 0 < roundsLeft then roundsLeft + 10 else 0),
              gp_votingPeriodInBlocks = ((endVoteEpoch info + 1) - startVoteEpoch info) * roundsPerEpoch st,
              gp_withdrawPercentageDefeated = withdraw, totalQuorum = total_quorum,
              proposalStartBlock = startEpochRound, gp_status = status, gp_rootHash = None, gp_votes = None,
              gp_hasVoted = None, gp_userVoteType = None, gp_userVotingPower = None,
              gp_delegateUserVotingPowers = None, gp_userVotingPowerDirect = None,
              gp_commitHash = Some (pi_commitHash info), startVoteTimestamp = Some startTime,
              endVoteTimestamp = Some endTime, proposalIndex = Some (pi_nonce info + existingProposals E),
              gp_faq = map_option oc_faq (List.find (\<lambda>c. onChainId c = pi_nonce info) (onChainConfig E)),
              gp_excludedAddresses = None\<rparr>)))))))))"

definition PROPOSAL_NONCE_THRESHOLD :: int where
  "PROPOSAL_NONCE_THRESHOLD = 200"

text \<open>A nonce that is not a positive integer counts as 0, one above the threshold as the threshold.\<close>

definition proposal_count :: "bn \<Rightarrow> int" where
  "proposal_count nonce =
     (let n = (case nonce of BFin m 0 \<Rightarrow> if 0 < m then m else 0 | _ \<Rightarrow> 0)
      in if PROPOSAL_NONCE_THRESHOLD < n then PROPOSAL_NONCE_THRESHOLD else n)"

definition oc_proposalsRaw :: "('x st) env \<Rightarrow> string \<Rightarrow> ('x st, governance_proposal list) prog" where
  "oc_proposalsRaw E scAddress =
     mbind (getConfig E) (\<lambda>config.
     mbind (mmap (getProposal E) [1..proposal_count (lastProposalNonce config)]) (\<lambda>raw.
       promise_map (\<lambda>info. convertProposalInfoToGovernanceModel E info scAddress config) raw))"

definition oc_proposals :: "('x st) env \<Rightarrow> string \<Rightarrow> ('x st, governance_proposal list) prog" where
  "oc_proposals E scAddress =
     GetOrSetCache E ''governance'' (ttl_ContractState E) ''proposals'' [KStr scAddress] proposalsC
       (oc_proposalsRaw E scAddress)"


section \<open>Voting powers\<close>

definition no_stake :: "exn \<Rightarrow> bool" where
  "no_stake e = str_includes (exn_message e) ''not enough stake/delegate to vote''"

definition oc_userVotingPowerDirect :: "'s env \<Rightarrow> string \<Rightarrow> int \<Rightarrow> ('s, string) prog" where
  "oc_userVotingPowerDirect E addr pid =
     GetOrSetCache E ''governance'' (ttl_DynamicInfo E) ''userVotingPowerDirect'' [KStr addr, KNum pid] strC
       (mtry (mbind (controller_getVotingPower E addr) (\<lambda>raw. mret (show_int raw)))
             (\<lambda>error. if no_stake error then mret ''0'' else mthrow error))"

definition has_voted :: "vote_value \<Rightarrow> bool" where
  "has_voted v \<longleftrightarrow> v \<noteq> VoteNum NotVoted"

definition delegate_power ::
  "'s env \<Rightarrow> string \<Rightarrow> int \<Rightarrow> delegate_staking_provider \<times> bn \<Rightarrow> ('s, delegate_user_voting_power) prog" where
  "delegate_power E addr pid x =
     (let provider = fst x; power = bn_toString (snd x) in
      mtry (mbind (if isEnabled provider then getUserVoteOnChain E (stakeScAddress provider) addr pid
                   else mret (VoteNum NotVoted)) (\<lambda>voteType.
              mret \<lparr>du_providerName = providerName provider, du_scAddress = voteScAddress provider,
                    du_lsTokenId = lsTokenId provider,
                    du_userVotingPower = (if power = ''-1'' then VOTE_POWER_FOR_NOT_IMPL else power),
                    du_isEnabled = (if power = ''-1'' then False else isEnabled provider),
                    du_hasVoted = has_voted voteType, du_userVoteType = voteType\<rparr>))
           (\<lambda>error. mthrow error))"

definition delegateUserVotingPowersRaw ::
  "('x st) env \<Rightarrow> string \<Rightarrow> int \<Rightarrow> ('x st, delegate_user_voting_power list) prog" where
  "delegateUserVotingPowersRaw E addr pid =
     (let providers = getDelegateStakingProviders E in
      mbind (promise_map (\<lambda>p. getUserVotingPowerFromDelegate E addr (voteScAddress p) pid) providers) (\<lambda>powers.
        promise_map (delegate_power E addr pid) (zip providers powers)))"

definition delegateUserVotingPowers ::
  "('x st) env \<Rightarrow> string \<Rightarrow> int \<Rightarrow> ('x st, delegate_user_voting_power list) prog" where
  "delegateUserVotingPowers E addr pid = delegateUserVotingPowersRaw E addr pid"

definition sum_powers :: "delegate_user_voting_power list \<Rightarrow> bn" where
  "sum_powers ds = foldl (\<lambda>acc d. bn_plus acc (bn_of_string (du_userVotingPower d))) (bn_int 0) ds"

definition oc_userVotingPower :: "('x st) env \<Rightarrow> string \<Rightarrow> int \<Rightarrow> ('x st, string) prog" where
  "oc_userVotingPower E addr pid =
     mtry (mbind (oc_userVotingPowerDirect E addr pid) (\<lambda>direct.
           mbind (delegateUserVotingPowers E addr pid) (\<lambda>delegates.
             mret (bn_toString (bn_plus (bn_of_string direct) (sum_powers delegates))))))
          (\<lambda>error. if no_stake error then mret ''0'' else mthrow error)"


section \<open>Transactions\<close>

definition voteToSdkVoteType :: "int \<Rightarrow> exn + sdk_vote" where
  "voteToSdkVoteType voteType =
     (if voteType = vote_number UpVote then Inr YES
      else if voteType = vote_number DownVote then Inr NO
      else if voteType = vote_number DownVetoVote then Inr VETO
      else if voteType = vote_number AbstainVote then Inr ABSTAIN
      else Inl (BadRequestException ''Invalid vote type!''))"

text \<open>An empty byte array is not a missing one.\<close>

definition convertTransactionToModel :: "sdk_transaction \<Rightarrow> transaction_model" where
  "convertTransactionToModel t =
     \<lparr>tx_nonce = st_nonce t, tx_value = show_int (st_value t), tx_sender = st_sender t,
      tx_receiver = st_receiver t, tx_senderUsername = st_senderUsername t,
      tx_receiverUsername = st_receiverUsername t, tx_gasPrice = st_gasPrice t,
      tx_gasLimit = st_gasLimit t, tx_data = map_option to_base64 (st_data t), tx_chainID = st_chainID t,
      tx_version = st_version t, tx_options = st_options t, tx_guardian = st_guardian t,
      tx_signature = map_option to_hex (st_signature t),
      tx_guardianSignature = map_option to_hex (st_guardianSignature t)\<rparr>"

definition oc_createDelegateVoteTransaction ::
  "('x st) env \<Rightarrow> string \<Rightarrow> create_delegate_vote_args \<Rightarrow> ('x st, transaction_model) prog" where
  "oc_createDelegateVoteTransaction E sender args =
     mbind (mlift (voteToSdkVoteType (cd_vote args))) (\<lambda>v.
     mbind (delegate_createVoteTransaction E sender (cd_delegateContractAddress args) (cd_proposalId args) v)
       (\<lambda>tx. mret (convertTransactionToModel tx)))"

text \<open>
  \<open>BigInt(text)\<close>: decimal digits with a sign, digits of another base after its prefix, and 0 for a
  blank text; anything else throws.
\<close>

definition js_BigInt :: "string \<Rightarrow> exn + int" where
  "js_BigInt t =
     (let u = trim t; mark = toLowerCase (take 2 u);
          parsed = (if u = [] then Some 0
                    else if mark = ''0x'' then map_option int (parse_nat 16 (drop 2 u))
                    else if mark = ''0o'' then map_option int (parse_nat 8 (drop 2 u))
                    else if mark = ''0b'' then map_option int (parse_nat 2 (drop 2 u))
                    else if prefix ''+'' u then map_option int (parse_nat 10 (tl u))
                    else parse_int u)
      in case parsed of Some n \<Rightarrow> Inr n | None \<Rightarrow> Inl (PlainError ''Cannot convert to a BigInt''))"

definition oc_createProposal :: "'s env \<Rightarrow> string \<Rightarrow> create_proposal_args \<Rightarrow> ('s, transaction_model) prog" where
  "oc_createProposal E sender args =
     mlift (rbind (js_BigInt (cp_nativeTokenAmount args)) (\<lambda>n.
            rbind (newProposalTx E sender (args\<lparr>cp_nativeTokenAmount := show_int n\<rparr>)) (\<lambda>tx.
              Inr (convertTransactionToModel tx))))"

definition oc_closeProposal :: "'s env \<Rightarrow> string \<Rightarrow> int \<Rightarrow> ('s, transaction_model) prog" where
  "oc_closeProposal E sender pid =
     mlift (rbind (closingProposalTx E sender pid) (\<lambda>tx. Inr (convertTransactionToModel tx)))"

text \<open>The delegate votes that are still open for the user, one transaction each.\<close>

fun delegate_votes ::
  "('x st) env \<Rightarrow> string \<Rightarrow> vote_args \<Rightarrow> delegate_user_voting_power list \<Rightarrow> ('x st, transaction_model list) prog" where
  "delegate_votes E sender args [] = mret []"
| "delegate_votes E sender args (d # ds) =
     (if \<not> du_hasVoted d \<and> du_userVotingPower d \<noteq> ''0''
      then mbind (oc_createDelegateVoteTransaction E sender
                   \<lparr>cd_contractAddress = va_contractAddress args, cd_delegateContractAddress = du_scAddress d,
                    cd_proposalId = va_proposalId args, cd_vote = va_vote args\<rparr>) (\<lambda>tx.
           mbind (delegate_votes E sender args ds) (\<lambda>txs. mret (tx # txs)))
      else delegate_votes E sender args ds)"

definition oc_vote :: "('x st) env \<Rightarrow> string \<Rightarrow> vote_args \<Rightarrow> ('x st, transaction_model list) prog" where
  "oc_vote E sender args =
     mbind (mlift (voteToSdkVoteType (va_vote args))) (\<lambda>v.
     mbind (delegateUserVotingPowers E sender (va_proposalId args)) (\<lambda>powers.
     mbind (delegate_votes E sender args powers) (\<lambda>voteTxs.
     mbind (getUserVoteOnChain E (va_contractAddress args) sender (va_proposalId args)) (\<lambda>voteType.
     mbind (oc_userVotingPowerDirect E sender (va_proposalId args)) (\<lambda>direct.
       if voteType = VoteNum NotVoted \<and> direct \<noteq> ''0''
       then mbind (mlift (votingTx E sender (va_proposalId args) v)) (\<lambda>tx.
              mret (voteTxs @ [convertTransactionToModel (tx\<lparr>st_gasLimit := gas_onChainDirect (gasConfig E)\<rparr>)]))
       else mret voteTxs)))))"


section \<open>Proposals of the repository with their state on the chain\<close>

definition with_chain_info :: "governance_proposal list \<Rightarrow> github_proposal \<Rightarrow> github_proposal" where
  "with_chain_info onChainProposals git =
     git\<lparr>chainInfo := Some
       (case List.find (\<lambda>p. gp_commitHash p = Some (gh_commitHash git)) onChainProposals of
          Some p \<Rightarrow> \<lparr>existsOnChain = True, ci_status = gp_status p, ci_proposalId = Some (proposalId p)\<rparr>
        | None \<Rightarrow> \<lparr>existsOnChain = False, ci_status = Some StatusNone, ci_proposalId = None\<rparr>)\<rparr>"

definition getGithubProposalWithChainInfo :: "('x st) env \<Rightarrow> ('x st, github_proposal list) prog" where
  "getGithubProposalWithChainInfo E =
     mbind (mlift (onChain_linear_0 E)) (\<lambda>sc.
     mbind (oc_proposals E (case sc of Some a \<Rightarrow> a | None \<Rightarrow> ''undefined'')) (\<lambda>onChainProposals.
     mbind (getGithubProposals E) (\<lambda>githubProposals.
       mret (map (with_chain_info onChainProposals) githubProposals))))"


section \<open>Getters and setters\<close>

interpretation proposal_entry: cached_entry E "\<lambda>p. getCacheKey ''governance'' [KStr ''getProposal'', KNum p]" infoC
    "getProposal E" "set_getProposal E"
  for E :: "'s env"
  by unfold_locales
     (auto simp: getProposal_def GetOrSetCache_def getCacheKey_def set_getProposal_def simp del: split_paired_Ex)

interpretation config_entry: cached_entry E "\<lambda>_::unit. getCacheKey ''governance'' [KStr ''getConfig'']" configC
    "\<lambda>_. getConfig E" "\<lambda>_. set_getConfig E"
  for E :: "'s env"
  by unfold_locales
     (auto simp: getConfig_def GetOrSetCache_def getCacheKey_def set_getConfig_def simp del: split_paired_Ex)

interpretation oc_status_entry: cached_entry E
    "\<lambda>(a, p). getCacheKey ''governance'' [KStr ''proposalStatus'', KStr a, KNum p]" statusC
    "\<lambda>(a, p). oc_proposalStatus E a p" "\<lambda>(a, p). set_proposalStatus E a p"
  for E :: "'s env"
  by unfold_locales
     (auto simp: oc_proposalStatus_def GetOrSetCache_def getCacheKey_def set_proposalStatus_def simp del: split_paired_Ex)

interpretation oc_votes_entry: cached_entry E
    "\<lambda>(a, p). getCacheKey ''governance'' [KStr ''proposalVotes'', KStr a, KNum p]" votesC
    "\<lambda>(a, p). oc_proposalVotes E a p" "\<lambda>(a, p). set_proposalVotes E a p"
  for E :: "'s env"
  by unfold_locales
     (auto simp: oc_proposalVotes_def GetOrSetCache_def getCacheKey_def set_proposalVotes_def simp del: split_paired_Ex)

interpretation oc_proposals_entry: cached_entry E
    "\<lambda>a. getCacheKey ''governance'' [KStr ''proposals'', KStr a]" proposalsC "oc_proposals E" "set_proposals E"
  for E :: "('x st) env"
  by unfold_locales
     (auto simp: oc_proposals_def GetOrSetCache_def getCacheKey_def set_proposals_def simp del: split_paired_Ex)


section \<open>The life of a proposal\<close>

text \<open>
  What the status promises: a closed proposal is decided, an open one is before, in or after the
  epochs of its vote. Two of the seven members of the enumeration, \<open>None\<close> and \<open>DefeatedWithVeto\<close>, do
  not occur.
\<close>

definition status_at :: "proposal_info \<Rightarrow> int \<Rightarrow> GovernanceProposalStatus" where
  "status_at p n =
     (if isPassed p then Succeeded
      else if isClosed p then Defeated
      else if endVoteEpoch p < n then PendingClose
      else if n < startVoteEpoch p then Pending
      else Active)"

fun stage :: "GovernanceProposalStatus \<Rightarrow> int" where
  "stage Pending = 0"
| "stage Active = 1"
| "stage PendingClose = 2"
| "stage _ = 3"

lemma getStatus_eq:
  "getCurrentEpoch E s = (Inr n, s') \<Longrightarrow> fst (getStatusForProposal E p s) = Inr (status_at p n)"
  by (auto simp: getStatusForProposal_def status_at_def)

text \<open>
  C6: the status of a proposal is a function of its record and the current epoch, and time moves it
  forward. When the epoch can be read, the status is the one that \<open>status_at\<close> describes, so it is never
  \<open>None\<close> or \<open>DefeatedWithVeto\<close>; and a later reading of the same record, at a later epoch, never gives
  an earlier stage, if the vote does not end before it starts.
\<close>

theorem status_moves_forward:
  assumes "getCurrentEpoch E s = (Inr n, s1)" and "getCurrentEpoch E t = (Inr m, t1)"
    and "n \<le> m" and "startVoteEpoch p \<le> endVoteEpoch p + 1"
  shows "fst (getStatusForProposal E p s) = Inr (status_at p n) \<and>
    fst (getStatusForProposal E p t) = Inr (status_at p m) \<and>
    status_at p n \<noteq> StatusNone \<and> status_at p n \<noteq> DefeatedWithVeto \<and>
    stage (status_at p n) \<le> stage (status_at p m)"
  using assms getStatus_eq [of E s n s1 p] getStatus_eq [of E t m t1 p] by (simp add: status_at_def)

definition epoch_store :: "int \<Rightarrow> memory_state" where
  "epoch_store n = empty_memory\<lparr>store := [context_key ''currentEpoch'' \<mapsto> VNum n]\<rparr>"

lemma epoch_store_read: "getCurrentEpoch memory_env (epoch_store n) = (Inr n, epoch_store n)"
  unfolding getCurrentEpoch_def getData_eq
  by (rule cached_hit [where visible = store]) (simp_all add: memory_caching memory_cache_def memory_env_def epoch_store_def)

theorem status_moves_forward_witness:
  "fst (getStatusForProposal memory_env example_info (epoch_store 0)) = Inr (status_at example_info 0) \<and>
   stage (status_at example_info 0) \<le> stage (status_at example_info 7)"
  using status_moves_forward [OF epoch_store_read [of 0] epoch_store_read [of 7], of example_info]
  by (simp add: example_info_def)


section \<open>The transactions of a vote\<close>

text \<open>A provider whose vote is still open to the user, and the transaction of that vote.\<close>

definition open_delegate :: "delegate_user_voting_power \<Rightarrow> bool" where
  "open_delegate d \<longleftrightarrow> \<not> du_hasVoted d \<and> du_userVotingPower d \<noteq> ''0''"

definition votes_through ::
  "'s env \<Rightarrow> string \<Rightarrow> int \<Rightarrow> delegate_user_voting_power \<Rightarrow> transaction_model \<Rightarrow> bool" where
  "votes_through E sender pid d t \<longleftrightarrow>
     (\<exists>p gas others tx.
        required_provider E (du_scAddress d) = Inr p \<and>
        executeTx E sender \<lparr>ce_contract = voteScAddress p, ce_gasLimit = gas, ce_function = voteFunctionName p,
          ce_arguments = BigUIntValue (bn_int pid) # others\<rparr> = Inr tx \<and>
        t = convertTransactionToModel tx)"

lemma delegate_transaction:
  assumes "oc_createDelegateVoteTransaction E sender args s = (Inr t, s')"
    and "cd_delegateContractAddress args = du_scAddress d"
  shows "votes_through E sender (cd_proposalId args) d t"
proof -
  obtain v tx where tx: "delegate_createVoteTransaction E sender (du_scAddress d) (cd_proposalId args) v s = (Inr tx, s')"
      "t = convertTransactionToModel tx"
    using assms by (auto simp: oc_createDelegateVoteTransaction_def elim!: mbind_InrE)
  obtain p gas others where "required_provider E (du_scAddress d) = Inr p"
      "executeTx E sender \<lparr>ce_contract = voteScAddress p, ce_gasLimit = gas, ce_function = voteFunctionName p,
          ce_arguments = BigUIntValue (bn_int (cd_proposalId args)) # others\<rparr> = Inr tx"
    using tx(1) by (auto simp: delegate_createVoteTransaction_def elim!: mbind_InrE)
  then show ?thesis using tx(2) by (auto simp: votes_through_def)
qed

lemma delegate_votes_spec:
  "delegate_votes E sender args ds s = (Inr txs, s') \<Longrightarrow>
   list_all2 (votes_through E sender (va_proposalId args)) (filter open_delegate ds) txs"
proof (induction ds arbitrary: s txs)
  case Nil
  then show ?case by simp
next
  case (Cons d ds)
  show ?case
  proof (cases "open_delegate d")
    case True
    then obtain t ts s1 where 1: "oc_createDelegateVoteTransaction E sender
         \<lparr>cd_contractAddress = va_contractAddress args, cd_delegateContractAddress = du_scAddress d,
          cd_proposalId = va_proposalId args, cd_vote = va_vote args\<rparr> s = (Inr t, s1)"
        "delegate_votes E sender args ds s1 = (Inr ts, s')" "txs = t # ts"
      using Cons.prems by (auto simp: open_delegate_def elim!: mbind_InrE)
    then show ?thesis using True delegate_transaction [OF 1(1), of d] Cons.IH [OF 1(2)] by simp
  next
    case False
    then show ?thesis using Cons by (auto simp: open_delegate_def)
  qed
qed

text \<open>
  C2: the transactions of a vote. When voting succeeds, the result is one transaction for each provider
  with power through which the user has not voted, in the order of the providers and each calling the
  voting function of that provider's contract for this proposal, followed by at most one direct vote.
  The direct vote is there exactly if the user has not voted directly and has power of his own, and it
  is the SDK's transaction for this vote with the configured gas limit.
\<close>

theorem vote_transactions:
  assumes "oc_vote E sender args s = (Inr txs, s')"
  shows "\<exists>v ds s1 delegated s2 own cast s3 power s4.
    voteToSdkVoteType (va_vote args) = Inr v \<and>
    delegateUserVotingPowers E sender (va_proposalId args) s = (Inr ds, s1) \<and>
    delegate_votes E sender args ds s1 = (Inr delegated, s2) \<and>
    getUserVoteOnChain E (va_contractAddress args) sender (va_proposalId args) s2 = (Inr cast, s3) \<and>
    oc_userVotingPowerDirect E sender (va_proposalId args) s3 = (Inr power, s4) \<and>
    txs = delegated @ own \<and>
    list_all2 (votes_through E sender (va_proposalId args)) (filter open_delegate ds) delegated \<and>
    (if cast = VoteNum NotVoted \<and> power \<noteq> ''0''
     then \<exists>tx. votingTx E sender (va_proposalId args) v = Inr tx \<and>
            own = [convertTransactionToModel (tx\<lparr>st_gasLimit := gas_onChainDirect (gasConfig E)\<rparr>)]
     else own = [])"
proof -
  obtain v ds s1 delegated s2 cast s3 power s4 where
      v: "voteToSdkVoteType (va_vote args) = Inr v"
    and ds: "delegateUserVotingPowers E sender (va_proposalId args) s = (Inr ds, s1)"
    and dv: "delegate_votes E sender args ds s1 = (Inr delegated, s2)"
    and cast: "getUserVoteOnChain E (va_contractAddress args) sender (va_proposalId args) s2 = (Inr cast, s3)"
    and power: "oc_userVotingPowerDirect E sender (va_proposalId args) s3 = (Inr power, s4)"
    and rest: "(if cast = VoteNum NotVoted \<and> power \<noteq> ''0''
       then mbind (mlift (votingTx E sender (va_proposalId args) v)) (\<lambda>tx.
              mret (delegated @ [convertTransactionToModel (tx\<lparr>st_gasLimit := gas_onChainDirect (gasConfig E)\<rparr>)]))
       else mret delegated) s4 = (Inr txs, s')"
    using assms unfolding oc_vote_def by (elim mbind_InrE) (simp only: mlift_apply prod.inject)
  have "\<exists>own. txs = delegated @ own \<and>
    (if cast = VoteNum NotVoted \<and> power \<noteq> ''0''
     then \<exists>tx. votingTx E sender (va_proposalId args) v = Inr tx \<and>
            own = [convertTransactionToModel (tx\<lparr>st_gasLimit := gas_onChainDirect (gasConfig E)\<rparr>)]
     else own = [])"
  proof (cases "cast = VoteNum NotVoted \<and> power \<noteq> ''0''")
    case True
    with rest have "mbind (mlift (votingTx E sender (va_proposalId args) v)) (\<lambda>tx.
              mret (delegated @ [convertTransactionToModel (tx\<lparr>st_gasLimit := gas_onChainDirect (gasConfig E)\<rparr>)])) s4 = (Inr txs, s')"
      by simp
    then show ?thesis using True by (auto elim!: mbind_InrE)
  next
    case False
    with rest show ?thesis by (auto split: if_splits)
  qed
  then show ?thesis using v ds dv cast power delegate_votes_spec [OF dv] by blast
qed


definition tx_to :: "string \<Rightarrow> string \<Rightarrow> sdk_transaction" where
  "tx_to sender receiver =
     \<lparr>st_nonce = 0, st_value = 0, st_sender = sender, st_receiver = receiver, st_senderUsername = None,
      st_receiverUsername = None, st_gasPrice = 1, st_gasLimit = 1, st_data = Some ''d'', st_chainID = ''T'',
      st_version = 2, st_options = None, st_guardian = None, st_signature = None, st_guardianSignature = None\<rparr>"

definition legacy_provider :: delegate_staking_provider where
  "legacy_provider = \<lparr>providerName = ''P'', voteScAddress = ''erdP'', stakeScAddress = ''erdP'', lsTokenId = [],
     voteFunctionName = ''delegateVote'', viewUserVotingPowerName = ''getPower'', isEnabled = True\<rparr>"

definition vote_env :: "memory_state env" where
  "vote_env = example_env\<lparr>delegateStakingProviders := [legacy_provider],
     scController_query := \<lambda>c f a. mret [from_hex ''05''], controller_getVotingPower := \<lambda>a. mret 7,
     executeTx := \<lambda>sender i. Inr (tx_to sender (ce_contract i)),
     votingTx := \<lambda>sender n v. Inr (tx_to sender ''erdC'')\<rparr>"

definition yes_on_1 :: vote_args where
  "yes_on_1 = \<lparr>va_contractAddress = ''erdC'', va_proposalId = 1, va_vote = 0\<rparr>"

definition receivers :: "exn + transaction_model list \<Rightarrow> string list" where
  "receivers r = (case r of Inl e \<Rightarrow> [] | Inr ts \<Rightarrow> map tx_receiver ts)"

lemma vote_run: "receivers (fst (oc_vote vote_env ''erdU'' yes_on_1 empty_memory)) = [''erdP'', ''erdC'']"
  by code_simp

theorem vote_transactions_witness:
  "\<exists>txs s' ds s1. oc_vote vote_env ''erdU'' yes_on_1 empty_memory = (Inr txs, s') \<and>
    map tx_receiver txs = [''erdP'', ''erdC''] \<and>
    delegateUserVotingPowers vote_env ''erdU'' 1 empty_memory = (Inr ds, s1) \<and>
    length (filter open_delegate ds) \<le> length txs"
proof -
  obtain txs s' where run: "oc_vote vote_env ''erdU'' yes_on_1 empty_memory = (Inr txs, s')"
    using vote_run by (cases "oc_vote vote_env ''erdU'' yes_on_1 empty_memory") (auto simp: receivers_def split: sum.splits)
  have names: "map tx_receiver txs = [''erdP'', ''erdC'']"
    using vote_run by (simp add: run receivers_def)
  obtain ds s1 delegated own where d:
      "delegateUserVotingPowers vote_env ''erdU'' (va_proposalId yes_on_1) empty_memory = (Inr ds, s1)"
      "txs = delegated @ own"
      "list_all2 (votes_through vote_env ''erdU'' (va_proposalId yes_on_1)) (filter open_delegate ds) delegated"
    using vote_transactions [OF run] by (elim exE conjE)
  have "length (filter open_delegate ds) \<le> length txs"
    using d(2) list_all2_lengthD [OF d(3)] by simp
  then show ?thesis
    using run names d(1) by (intro exI [of _ txs] exI [of _ s'] exI [of _ ds] exI [of _ s1]) (simp add: yes_on_1_def)
qed


section \<open>Voting powers\<close>

lemma sum_powers_int:
  "list_all2 (\<lambda>d n. du_userVotingPower d = show_int n) ds ns \<Longrightarrow> sum_powers ds = bn_int (sum_list ns)"
proof -
  have "foldl (\<lambda>acc d. bn_plus acc (bn_of_string (du_userVotingPower d))) (bn_int a) ds = bn_int (a + sum_list ns)"
    if "list_all2 (\<lambda>d n. du_userVotingPower d = show_int n) ds ns" for a
    using that
  proof (induction ds ns arbitrary: a rule: list_all2_induct)
    case (Cons d ds n ns)
    then show ?case using Cons.IH [of "a + n"] by (simp add: add.assoc)
  qed simp
  from this [of 0] show "list_all2 (\<lambda>d n. du_userVotingPower d = show_int n) ds ns \<Longrightarrow> ?thesis"
    by (simp add: sum_powers_def)
qed

text \<open>
  C19: the voting power of a user is his own plus what he has through each provider. When the two
  readings give the texts of numbers whose sum is below ten to the power of 30, the answer is
  the text of the exact sum, without an exponent and without rounding.
\<close>

theorem total_voting_power:
  assumes "oc_userVotingPowerDirect E u pid s = (Inr (show_int own), s1)"
    and "delegateUserVotingPowers E u pid s1 = (Inr ds, s2)"
    and "list_all2 (\<lambda>d n. du_userVotingPower d = show_int n) ds ns"
    and "\<bar>own + sum_list ns\<bar> < 10 ^ 30"
  shows "oc_userVotingPower E u pid s = (Inr (show_int (own + sum_list ns)), s2)"
  using assms(1,2) sum_powers_int [OF assms(3)] toString_int [OF assms(4)]
  by (simp add: oc_userVotingPower_def)

definition result_of :: "('s, 'a) prog \<Rightarrow> 's \<Rightarrow> 'a option" where
  "result_of m s = (case fst (m s) of Inr x \<Rightarrow> Some x | Inl e \<Rightarrow> None)"

lemma result_of_SomeD: "result_of m s = Some x \<Longrightarrow> \<exists>s'. m s = (Inr x, s')"
  by (cases "m s") (simp add: result_of_def split: sum.splits)

lemma powers_run:
  "result_of
     (mbind (oc_userVotingPowerDirect vote_env ''erdU'' 1) (\<lambda>d.
      mbind (delegateUserVotingPowers vote_env ''erdU'' 1) (\<lambda>ds. mret (d, map du_userVotingPower ds)))) empty_memory =
   Some (''7'', [''5''])"
  by code_simp

theorem total_voting_power_witness:
  "\<exists>s2. oc_userVotingPower vote_env ''erdU'' 1 empty_memory = (Inr (show_int (7 + 5)), s2)"
proof -
  obtain s3 where "mbind (oc_userVotingPowerDirect vote_env ''erdU'' 1) (\<lambda>d.
      mbind (delegateUserVotingPowers vote_env ''erdU'' 1) (\<lambda>ds. mret (d, map du_userVotingPower ds))) empty_memory =
      (Inr (''7'', [''5'']), s3)"
    using result_of_SomeD [OF powers_run] by (elim exE)
  then obtain d s1 where own: "oc_userVotingPowerDirect vote_env ''erdU'' 1 empty_memory = (Inr d, s1)"
      and rest: "mbind (delegateUserVotingPowers vote_env ''erdU'' 1) (\<lambda>ds. mret (d, map du_userVotingPower ds)) s1 =
        (Inr (''7'', [''5'']), s3)"
    by (rule mbind_InrE)
  from rest obtain ds s2 where del: "delegateUserVotingPowers vote_env ''erdU'' 1 s1 = (Inr ds, s2)"
      and pair: "mret (d, map du_userVotingPower ds) s2 = (Inr (''7'', [''5'']), s3)"
    by (rule mbind_InrE)
  from pair have val: "d = ''7''" "map du_userVotingPower ds = [''5'']"
    by (simp_all only: mret_apply prod.inject sum.inject)
  have seven: "show_int 7 = ''7''" "show_int 5 = ''5''" by code_simp+
  have "list_all2 (\<lambda>d n. du_userVotingPower d = show_int n) ds [5]"
    using val(2) seven(2) by auto
  from total_voting_power [OF own [unfolded val(1) seven(1) [symmetric]] del this] show ?thesis by simp
qed


section \<open>Lists of proposals and providers\<close>

text \<open>What the cache may store.\<close>

fun storable :: "jsval \<Rightarrow> bool" where
  "storable (JBig n) = False"
| "storable (JAddr a) = False"
| "storable (JArr xs) = (\<forall>x\<in>set xs. storable x)"
| "storable (JObj fs) = (\<forall>x\<in>set fs. storable (snd x))"
| "storable v = True"

text \<open>
  C40: what the cache stores holds no \<open>bigint\<close> and no address object, at any depth, and converting it
  again changes nothing.
\<close>

theorem convertToRedisTypes_storable:
  "storable (convertToRedisTypes v) \<and> convertToRedisTypes (convertToRedisTypes v) = convertToRedisTypes v"
proof (induction v rule: convertToRedisTypes.induct)
  case (4 fs)
  have "storable (convertToRedisTypes (snd x)) \<and>
      convertToRedisTypes (convertToRedisTypes (snd x)) = convertToRedisTypes (snd x)" if "x \<in> set fs" for x
    using 4 [of x] that by (cases x) auto
  then show ?case by (auto simp: split_beta)
qed auto


text \<open>
  What the SDK promises of the contract: the record it gives for a nonce has that nonce, and its answers
  leave the cache alone. What the cache holds of proposals: the record under a nonce has that nonce.
\<close>

definition contract_numbers :: "'s env \<Rightarrow> ('s \<Rightarrow> string \<Rightarrow> cval option) \<Rightarrow> bool" where
  "contract_numbers E visible \<longleftrightarrow>
     (\<forall>i s p s'. controller_getProposal E i s = (Inr p, s') \<longrightarrow>
        js_get ''nonce'' p = Inr (JNum (bn_int i)) \<and> visible s' = visible s) \<and>
     (\<forall>s c s'. controller_getConfig E s = (Inr c, s') \<longrightarrow> visible s' = visible s)"

definition proposal_record_key :: "int \<Rightarrow> string" where
  "proposal_record_key i = generateCacheKeyFromParams [KStr ''governance'', KStr ''getProposal'', KNum i]"

definition config_record_key :: string where
  "config_record_key = generateCacheKeyFromParams [KStr ''governance'', KStr ''getConfig'']"

definition records_numbered :: "(string \<Rightarrow> cval option) \<Rightarrow> bool" where
  "records_numbered entries \<longleftrightarrow> (\<forall>i info. entries (proposal_record_key i) = Some (VInfo info) \<longrightarrow> pi_nonce info = i)"

lemma proposal_record_key_eq: "proposal_record_key i = proposal_record_key j \<longleftrightarrow> i = j"
proof
  assume "proposal_record_key i = proposal_record_key j"
  from cache_key_inj [OF this [unfolded proposal_record_key_def]] show "i = j"
    using show_int_inj show_int_no_dot by (simp add: dotless_def)
qed simp

lemma config_key_other: "config_record_key \<noteq> proposal_record_key i"
  by (simp add: config_record_key_def proposal_record_key_def generateCacheKeyFromParams_def cache_key_join)

lemma raw_record_numbered:
  assumes "contract_numbers E visible" and "getProposalRaw E i s = (Inr info, s')"
  shows "pi_nonce info = i \<and> visible s' = visible s"
proof -
  obtain p where p: "controller_getProposal E i s = (Inr p, s')" and info: "info_of_json (convertToRedisTypes p) = Inr info"
    using assms(2) by (auto simp: getProposalRaw_def elim!: mbind_InrE)
  have n: "js_get ''nonce'' p = Inr (JNum (bn_int i))" and v: "visible s' = visible s"
    using assms(1) p by (auto simp: contract_numbers_def)
  from n obtain fs where "p = JObj fs" "map_of fs ''nonce'' = Some (JNum (bn_int i))"
    by (auto simp: js_get_def split: jsval.splits option.splits)
  then have "js_get ''nonce'' (convertToRedisTypes p) = Inr (JNum (bn_int i))"
    by (simp add: js_get_def map_of_map)
  then have "int_field ''nonce'' (convertToRedisTypes p) = Inr i" by (simp add: int_field_def js_int_def)
  with info v show ?thesis by (auto simp: info_of_json_def rbind_Inr_iff)
qed

lemma record_numbered:
  assumes "caching E visible" and "contract_numbers E visible" and "records_numbered (visible s)"
    and "getProposal E i s = (Inr info, s')"
  shows "pi_nonce info = i \<and> records_numbered (visible s')"
proof (cases "visible s (proposal_record_key i)")
  case (Some v)
  then have "s' = s" "snd infoC v = Inr info" using assms(4) caching_hit [OF assms(1) Some]
    by (auto simp: getProposal_def GetOrSetCache_def cached_def proposal_record_key_def [symmetric] elim!: mbind_InrE)
  then show ?thesis using Some assms(3) by (auto simp: records_numbered_def infoC_def split: cval.splits)
next
  case None
  obtain a s1 where a: "getProposalRaw E i s = (Inr a, s1)"
  proof (cases "getProposalRaw E i s")
    case (Pair q s1)
    show thesis
    proof (cases q)
      case (Inl e)
      with Pair have "getProposal E i s = (Inl e, s1)"
        using cached_miss_error [where visible = visible and s = s and body = "getProposalRaw E i", OF assms(1) None]
        by (simp add: getProposal_def GetOrSetCache_def proposal_record_key_def [symmetric])
      with assms(4) show thesis by simp
    qed (use Pair that in simp)
  qed
  obtain s2 where "getProposal E i s = (Inr a, s2)" "visible s2 = (visible s1)(proposal_record_key i \<mapsto> VInfo a)"
    using cached_miss_ex [where visible = visible and s = s and k = "proposal_record_key i" and body = "getProposalRaw E i"
        and a = a and c = infoC and t = "ttl_ContractState E", OF assms(1) _ None a]
    by (auto simp: getProposal_def GetOrSetCache_def proposal_record_key_def)
  then show ?thesis using raw_record_numbered [OF assms(2) a] assms(3,4) by (auto simp: records_numbered_def proposal_record_key_eq)
qed

lemma config_keeps_records:
  assumes "caching E visible" and "contract_numbers E visible" and "records_numbered (visible s)"
    and "getConfig E s = (Inr config, s')"
  shows "records_numbered (visible s')"
proof -
  let ?k = config_record_key
  have "s' = s \<or> (\<exists>v. visible s' = (visible s)(?k \<mapsto> v))"
  proof (cases "visible s ?k")
    case (Some v)
    then show ?thesis using assms(4) caching_hit [OF assms(1) Some]
      by (auto simp: getConfig_def GetOrSetCache_def config_record_key_def [symmetric] cached_def elim!: mbind_InrE)
  next
    case None
    obtain q s1 where q: "getConfigRaw E s = (q, s1)" by (cases "getConfigRaw E s")
    show ?thesis
    proof (cases q)
      case (Inl e)
      then show ?thesis
        using cached_miss_error [where visible = visible and s = s and k = config_record_key and body = "getConfigRaw E",
            OF assms(1) None] assms(4) q
        by (simp add: getConfig_def GetOrSetCache_def config_record_key_def [symmetric])
    next
      case (Inr a)
      have "visible s1 = visible s" using q Inr assms(2) by (auto simp: getConfigRaw_def contract_numbers_def elim!: mbind_InrE)
      then show ?thesis
        using cached_miss_ex [where visible = visible and s = s and k = config_record_key and body = "getConfigRaw E" and a = a and c = configC
            and t = "ttl_ContractState E", OF assms(1) _ None q [unfolded Inr]] assms(4)
        by (auto simp: getConfig_def GetOrSetCache_def config_record_key_def [symmetric])
    qed
  qed
  with assms(3) config_key_other [THEN not_sym] show ?thesis by (auto simp: records_numbered_def)
qed

lemma records_listed:
  assumes "caching E visible" and "contract_numbers E visible" and "records_numbered (visible s)"
    and "mmap (getProposal E) ns s = (Inr infos, s')"
  shows "map pi_nonce infos = ns"
  using assms(3,4)
proof (induction ns arbitrary: s infos)
  case (Cons n ns)
  then show ?case using record_numbered [OF assms(1,2)] by (fastforce elim!: mbind_InrE)
qed simp

lemma convert_fields:
  assumes "convertProposalInfoToGovernanceModel E info sc config s = (Inr p, s')"
  shows "proposalId p = pi_nonce info \<and> contractAddress p = sc \<and>
    proposalIndex p = Some (pi_nonce info + existingProposals E)"
  using assms unfolding convertProposalInfoToGovernanceModel_def Let_def
  by (auto elim!: mbind_InrE)

lemma proposal_count_bounds: "0 \<le> proposal_count b \<and> proposal_count b \<le> 200"
  by (auto simp: proposal_count_def PROPOSAL_NONCE_THRESHOLD_def Let_def split: bn.splits nat.splits)

text \<open>
  C20: the list of proposals holds exactly the proposals 1 to n, in that order, where n is the last nonce
  of the contract's configuration, but at most 200, and 0 if the nonce is not a positive integer. Each
  carries the contract's address and an index that continues after the proposals of before. The records
  come from the contract or from the cache, as the entries happen to be there. The hypotheses are what the
  SDK promises of the contract's answers, and that the entries of proposals that are there at first are
  such answers.
\<close>

theorem proposals_numbered:
  assumes "caching E visible" and "contract_numbers E visible" and "records_numbered (visible s)"
    and "oc_proposalsRaw E sc s = (Inr ps, s')"
  shows "\<exists>config s1. getConfig E s = (Inr config, s1) \<and>
    map proposalId ps = [1..proposal_count (lastProposalNonce config)] \<and> length ps \<le> 200 \<and>
    list_all (\<lambda>p. contractAddress p = sc \<and> proposalIndex p = Some (proposalId p + existingProposals E)) ps"
proof -
  obtain config s1 infos s2 where config: "getConfig E s = (Inr config, s1)"
    and infos: "mmap (getProposal E) [1..proposal_count (lastProposalNonce config)] s1 = (Inr infos, s2)"
    and ps: "promise_map (\<lambda>info. convertProposalInfoToGovernanceModel E info sc config) infos s2 = (Inr ps, s')"
    using assms(4) by (auto simp: oc_proposalsRaw_def elim!: mbind_InrE)
  have nonces: "map pi_nonce infos = [1..proposal_count (lastProposalNonce config)]"
    by (rule records_listed [OF assms(1,2) config_keeps_records [OF assms(1-3) config] infos])
  have conv: "list_all2 (\<lambda>info p. proposalId p = pi_nonce info \<and> contractAddress p = sc \<and>
      proposalIndex p = Some (pi_nonce info + existingProposals E)) infos ps"
    using convert_fields by (intro list_all2_mono [OF promise_map_all2 [OF ps]]) blast
  then have "map proposalId ps = map pi_nonce infos"
    by (auto simp: list_all2_conv_all_nth intro: nth_equalityI)
  moreover have "list_all (\<lambda>p. contractAddress p = sc \<and> proposalIndex p = Some (proposalId p + existingProposals E)) ps"
    using conv by (auto simp: list_all2_conv_all_nth list_all_length)
  moreover have "length ps \<le> 200"
    using proposal_count_bounds [of "lastProposalNonce config"] list_all2_lengthD [OF conv] arg_cong [OF nonces, of length]
    by (simp add: nat_le_iff)
  ultimately show ?thesis using config nonces by auto
qed

text \<open>An environment that answers every request, with no proposal files.\<close>

definition example_proposal :: "int \<Rightarrow> jsval" where
  "example_proposal i = JObj [(''cost'', JBig 1), (''commitHash'', JStr ''c0''), (''nonce'', JNum (bn_int i)),
     (''issuer'', JAddr ''erdX''), (''startVoteEpoch'', JNum (bn_int 10)), (''endVoteEpoch'', JNum (bn_int 12)),
     (''quorumStake'', JBig 5), (''numYesVotes'', JBig 1), (''numNoVotes'', JBig 1), (''numVetoVotes'', JBig 1),
     (''numAbstainVotes'', JBig 0), (''isClosed'', JBool False), (''isPassed'', JBool False)]"

definition example_answer :: jsval where
  "example_answer = JObj [(''epoch'', JNum (bn_int 11)), (''roundsPassed'', JNum (bn_int 3)),
     (''roundsPerEpoch'', JNum (bn_int 100)), (''timestamp'', JNum (bn_int 1000)), (''nonce'', JNum (bn_int 50)),
     (''balance'', JStr ''7'')]"

definition chain_env :: "memory_state env" where
  "chain_env = git_env\<lparr>gitLog := mret [],
     controller_getProposal := \<lambda>i. mret (example_proposal i),
     controller_getConfig := mret (JObj [(''proposalFee'', JBig 2), (''lostProposalFee'', JBig 1),
       (''minQuorum'', JNum (bn_int 2000)), (''lastProposalNonce'', JNum (bn_int 2))]),
     apiProviderGet := \<lambda>u. mret (if prefix ''blocks'' u then JArr [example_answer] else example_answer)\<rparr>"

definition chain_info :: "int \<Rightarrow> proposal_info" where
  "chain_info i = \<lparr>pi_cost = ''1'', pi_commitHash = ''c0'', pi_nonce = i, pi_issuer = ''erdX'',
     startVoteEpoch = 10, endVoteEpoch = 12, quorumStake = ''5'', numYesVotes = ''1'', numNoVotes = ''1'',
     numVetoVotes = ''1'', numAbstainVotes = ''0'', isClosed = False, isPassed = False\<rparr>"

definition chain_config :: governance_config_model where
  "chain_config = \<lparr>proposalFee = ''2'', lostProposalFee = ''1'', minQuorum = bn_int 2000, minPassThreshold = BNaN,
     minVetoThreshold = BNaN, lastProposalNonce = bn_int 2\<rparr>"

text \<open>
  The cache of a process that has just shown the configuration, the figures of the chain, the list of files,
  the statuses and the second proposal; the record of the first proposal has expired.
\<close>

definition block_key :: "int \<Rightarrow> string" where
  "block_key ep = context_key (''first-block-data:'' @ ''4294967295'' @ '':'' @ show_int ep)"

definition rounds_key :: "int \<Rightarrow> string" where
  "rounds_key ep = context_key (''rounds-until-epoch:'' @ show_int ep)"

definition chain_status_key :: "int \<Rightarrow> string" where
  "chain_status_key i = generateCacheKeyFromParams [KStr ''governance'', KStr ''proposalStatus'', KStr ''erdC'', KNum i]"

definition chain_entries :: "(string \<times> cval) list" where
  "chain_entries = [(context_key ''stats'', VStats (stats_at 11 3 100)), (context_key ''total-quorum'', VStr ''7''),
     (block_key 10, VBlock \<lparr>timestamp = 1000, blk_nonce = 50\<rparr>), (block_key 11, VBlock \<lparr>timestamp = 1600, blk_nonce = 150\<rparr>),
     (rounds_key 13, VNum 197), (snd (ttl_GithubProposals chain_env), VGithub []),
     (chain_status_key 1, VStatus (Some Active)), (chain_status_key 2, VStatus (Some Active)),
     (config_record_key, VConfig chain_config), (proposal_record_key 2, VInfo (chain_info 2))]"

definition chain_state :: memory_state where
  "chain_state = empty_memory\<lparr>store := map_of chain_entries\<rparr>"

definition primed :: "memory_state \<Rightarrow> bool" where
  "primed s \<longleftrightarrow> (\<forall>(k, v) \<in> set chain_entries. store s k = Some v)"

lemma chain_keys: "distinct (map fst chain_entries)" "proposal_record_key 1 \<notin> fst ` set chain_entries"
  by code_simp+

lemma primed_state: "primed chain_state"
  using chain_keys(1) by (auto simp: primed_def chain_state_def)

lemma primed_entries:
  assumes "primed s"
  shows "store s (context_key ''stats'') = Some (fst statsC (stats_at 11 3 100))"
    "store s (context_key ''total-quorum'') = Some (fst strC ''7'')"
    "store s (block_key 10) = Some (fst blockC \<lparr>timestamp = 1000, blk_nonce = 50\<rparr>)"
    "store s (block_key 11) = Some (fst blockC \<lparr>timestamp = 1600, blk_nonce = 150\<rparr>)"
    "store s (rounds_key 13) = Some (fst numC 197)" "store s (snd (ttl_GithubProposals chain_env)) = Some (fst githubC [])"
    "i \<in> {1, 2} \<Longrightarrow> store s (chain_status_key i) = Some (fst statusC (Some Active))"
    "store s config_record_key = Some (fst configC chain_config)"
    "store s (proposal_record_key 2) = Some (fst infoC (chain_info 2))"
  using assms by (auto simp: primed_def chain_entries_def)

lemma chain_contract: "caching chain_env store" "contract_numbers chain_env store"
proof -
  show "caching chain_env store"
    by (rule memory_caching) (simp add: memory_cache_def chain_env_def git_env_def memory_env_def)
  show "contract_numbers chain_env store"
    by (simp add: contract_numbers_def chain_env_def example_proposal_def js_get_def)
qed

lemma chain_blocks:
  assumes "primed s"
  shows "getFirstBlockData chain_env 10 ''4294967295'' s = (Inr \<lparr>timestamp = 1000, blk_nonce = 50\<rparr>, s)"
    "getFirstBlockData chain_env 11 ''4294967295'' s = (Inr \<lparr>timestamp = 1600, blk_nonce = 150\<rparr>, s)"
  using primed_entries(3,4) [OF assms]
  by (simp_all add: getFirstBlockData_def getData_eq block_key_def cached_hit [OF chain_contract(1)])

lemma chain_getters:
  assumes "primed s"
  shows "getStats chain_env s = (Inr (stats_at 11 3 100), s)" "getTotalQuorum chain_env s = (Inr ''7'', s)"
    "getGithubProposals chain_env s = (Inr [], s)" "getConfig chain_env s = (Inr chain_config, s)"
    "i \<in> {1, 2} \<Longrightarrow> oc_proposalStatus chain_env ''erdC'' i s = (Inr (Some Active), s)"
    "getProposal chain_env 2 s = (Inr (chain_info 2), s)"
  using assms
  by (simp_all add: getStats_def getTotalQuorum_def getGithubProposals_def getConfig_def oc_proposalStatus_def
      getProposal_def getData_eq GetOrSetCache_def config_record_key_def [symmetric]
      chain_status_key_def [symmetric] proposal_record_key_def [symmetric] cached_hit [OF chain_contract(1)] primed_entries)

lemma chain_rounds: "primed s \<Longrightarrow> getRoundsLeftUntilEpoch chain_env 13 s = (Inr 197, s)"
  using primed_entries(5) [of s]
  by (simp add: getRoundsLeftUntilEpoch_def chain_getters mbind_def getData_eq rounds_key_def cached_hit [OF chain_contract(1)])

lemma chain_convert:
  assumes "primed s" and "i \<in> {1, 2}"
  shows "\<exists>p. convertProposalInfoToGovernanceModel chain_env (chain_info i) ''erdC'' config s = (Inr p, s)"
proof -
  obtain w where w: "oc_withdrawPercentageDefeated chain_env ''erdC'' s = (Inr w, s)"
    using assms(1) by (simp add: oc_withdrawPercentageDefeated_def mbind_def chain_getters)
  obtain d where d: "getDescription chain_env ''c0'' s = (Inr d, s)"
    using assms(1) by (simp add: getDescription_def mbind_def chain_getters)
  have "oc_getAddressShardID ''erdC'' = ''4294967295''" by (simp add: oc_getAddressShardID_def)
  moreover have "startVoteEpoch (chain_info i) = 10" "endVoteEpoch (chain_info i) = 12" "pi_commitHash (chain_info i) = ''c0''"
    "pi_nonce (chain_info i) = i" by (simp_all add: chain_info_def)
  moreover have "epoch (stats_at 11 3 100) = 11" by (simp add: stats_at_def)
  ultimately show ?thesis using assms w d
    by (simp add: convertProposalInfoToGovernanceModel_def Let_def mbind_def chain_getters chain_blocks chain_rounds
        promise_both_Inr getFirstBlockNonceByEpochAndShard_def getFirstBlockTimestampByEpochAndShard_def)
qed

lemma chain_asked:
  "\<exists>s1. getProposal chain_env 1 chain_state = (Inr (chain_info 1), s1) \<and> primed s1"
proof -
  have key: "store chain_state (proposal_record_key 1) = None"
    using chain_keys(2) by (simp add: chain_state_def map_of_eq_None_iff)
  have raw: "getProposalRaw chain_env 1 chain_state = (Inr (chain_info 1), chain_state)"
    by (simp add: getProposalRaw_def chain_env_def example_proposal_def info_of_json_def str_field_def int_field_def
       js_get_def js_string_def js_int_def js_field_def js_bool_def chain_info_def)
  obtain s1 where "getProposal chain_env 1 chain_state = (Inr (chain_info 1), s1)"
      "store s1 = (store chain_state)(proposal_record_key 1 \<mapsto> fst infoC (chain_info 1))"
    using cached_miss_ex [where visible = store and s = chain_state and k = "proposal_record_key 1" and body = "getProposalRaw chain_env 1"
        and a = "chain_info 1" and c = infoC and t = "ttl_ContractState chain_env", OF chain_contract(1) _ key raw]
    by (auto simp: getProposal_def GetOrSetCache_def proposal_record_key_def)
  moreover have "primed s1" if "store s1 = (store chain_state)(proposal_record_key 1 \<mapsto> v)" for s1 v
    unfolding primed_def
  proof (intro ballI, clarify)
    fix k w assume e: "(k, w) \<in> set chain_entries"
    then have "k \<noteq> proposal_record_key 1" using chain_keys(2) by (metis fst_conv image_eqI)
    then show "store s1 k = Some w" using that e primed_state by (auto simp: primed_def)
  qed
  ultimately show ?thesis by blast
qed

theorem proposals_numbered_witness:
  "\<exists>ps s' config s1. oc_proposalsRaw chain_env ''erdC'' chain_state = (Inr ps, s') \<and>
    getConfig chain_env chain_state = (Inr config, s1) \<and> map proposalId ps = [1..proposal_count (lastProposalNonce config)] \<and>
    proposal_count (lastProposalNonce config) = 2"
proof -
  let ?f = "\<lambda>info. convertProposalInfoToGovernanceModel chain_env info ''erdC'' chain_config"
  have two: "[1..2] = [1, 2::int]" "proposal_count (bn_int 2) = 2" by code_simp+
  have nonce: "lastProposalNonce chain_config = bn_int 2" by (simp add: chain_config_def)
  have config: "getConfig chain_env chain_state = (Inr chain_config, chain_state)" using chain_getters(4) [OF primed_state] .
  obtain s1 where s1: "getProposal chain_env 1 chain_state = (Inr (chain_info 1), s1)" "primed s1" using chain_asked by blast
  obtain p1 p2 where p: "?f (chain_info 1) s1 = (Inr p1, s1)" "?f (chain_info 2) s1 = (Inr p2, s1)"
    using chain_convert [OF s1(2)] by fastforce
  have "mmap (getProposal chain_env) [1, 2] chain_state = (Inr [chain_info 1, chain_info 2], s1)"
    using s1 chain_getters(6) [OF s1(2)] by (simp add: mbind_def)
  moreover have "promise_map ?f [chain_info 1, chain_info 2] s1 = (Inr [p1, p2], s1)"
    using p by (simp add: promise_map_def promise_all_def mbind_def mattempt_def)
  ultimately have run: "oc_proposalsRaw chain_env ''erdC'' chain_state = (Inr [p1, p2], s1)"
    using two config by (simp add: oc_proposalsRaw_def nonce del: mmap.simps)
  have "records_numbered (store chain_state)"
    unfolding records_numbered_def
  proof (intro allI impI)
    fix i info assume "store chain_state (proposal_record_key i) = Some (VInfo info)"
    then have "(proposal_record_key i, VInfo info) \<in> set chain_entries" by (simp add: chain_state_def map_of_SomeD)
    then have "proposal_record_key i = proposal_record_key 2 \<and> info = chain_info 2" by (auto simp: chain_entries_def)
    then show "pi_nonce info = i" by (simp add: proposal_record_key_eq chain_info_def)
  qed
  from proposals_numbered [OF chain_contract this run] obtain c s2 where c: "getConfig chain_env chain_state = (Inr c, s2)"
    and ids: "map proposalId [p1, p2] = [1..proposal_count (lastProposalNonce c)]" by (elim exE conjE)
  have "proposal_count (lastProposalNonce c) = 2" using c config two(2) nonce by simp
  then show ?thesis
    by (intro exI [of _ "[p1, p2]"] exI [of _ s1] exI [of _ c] exI [of _ s2] conjI run c ids)
qed

text \<open>An entry of the list of powers, for a provider.\<close>

definition power_entry :: "delegate_staking_provider \<Rightarrow> delegate_user_voting_power \<Rightarrow> bool" where
  "power_entry p d \<longleftrightarrow>
     du_scAddress d = voteScAddress p \<and> du_providerName d = providerName p \<and>
     du_userVotingPower d \<noteq> ''-1'' \<and> (du_isEnabled d \<longrightarrow> isEnabled p) \<and>
     (du_hasVoted d \<longrightarrow> isEnabled p) \<and> du_hasVoted d = has_voted (du_userVoteType d)"

lemma delegate_power_entry: "delegate_power E u pid (p, b) s = (Inr d, s') \<Longrightarrow> power_entry p d"
  by (auto simp: delegate_power_def power_entry_def VOTE_POWER_FOR_NOT_IMPL_def has_voted_def mtry_def mbind_def Let_def
      split: prod.splits sum.splits if_splits)

text \<open>
  C21: the powers of a user through the providers are listed one for each configured provider, in order,
  under the provider's voting contract. The mark \<open>-1\<close> of a provider without a snapshot never reaches
  the list, a disabled provider is never shown as enabled and never as one the user has voted through,
  and a vote counts as cast exactly if its type is not \<open>NotVoted\<close>.
\<close>

theorem delegate_powers_listed:
  assumes "delegateUserVotingPowersRaw E u pid s = (Inr ds, s')"
  shows "list_all2 power_entry (delegateStakingProviders E) ds"
proof -
  obtain powers s1 where 1: "promise_map (\<lambda>p. getUserVotingPowerFromDelegate E u (voteScAddress p) pid)
      (delegateStakingProviders E) s = (Inr powers, s1)"
    and 2: "promise_map (delegate_power E u pid) (zip (delegateStakingProviders E) powers) s1 = (Inr ds, s')"
    using assms by (auto simp: delegateUserVotingPowersRaw_def getDelegateStakingProviders_def Let_def elim!: mbind_InrE)
  have len: "length powers = length (delegateStakingProviders E)"
    using list_all2_lengthD [OF promise_map_all2 [OF 1]] by simp
  have "list_all2 (\<lambda>x d. power_entry (fst x) d) (zip (delegateStakingProviders E) powers) ds"
    by (rule list_all2_mono [OF promise_map_all2 [OF 2]]) (metis delegate_power_entry prod.collapse)
  then show ?thesis using len by (auto simp: list_all2_conv_all_nth)
qed

theorem delegate_powers_listed_witness:
  "\<exists>ds s'. delegateUserVotingPowersRaw vote_env ''erdU'' 1 empty_memory = (Inr ds, s') \<and>
    list_all2 power_entry [legacy_provider] ds"
proof -
  have "result_of (mbind (delegateUserVotingPowersRaw vote_env ''erdU'' 1) (\<lambda>ds. mret (map du_userVotingPower ds)))
      empty_memory = Some [''5'']"
    by code_simp
  then obtain s1 where "mbind (delegateUserVotingPowersRaw vote_env ''erdU'' 1)
      (\<lambda>ds. mret (map du_userVotingPower ds)) empty_memory = (Inr [''5''], s1)"
    by (elim exE [OF result_of_SomeD])
  then obtain ds s' where run: "delegateUserVotingPowersRaw vote_env ''erdU'' 1 empty_memory = (Inr ds, s')"
    by (rule mbind_InrE)
  have "delegateStakingProviders vote_env = [legacy_provider]" by (simp add: vote_env_def)
  with delegate_powers_listed [OF run] show ?thesis
    by (intro exI [of _ ds] exI [of _ s'] conjI [OF run]) (simp only:)
qed

end
