(* ===== verification/Gov_SnapshotAbi.thy ===== *)
theory Gov_SnapshotAbi
  imports Gov_OnChain
begin

text \<open>
  The governance contracts that are asked through their ABI:
  \<open>src/modules/governance/services/governance.abi.service.ts\<close> (token snapshot and energy),
  \<open>governance.old.energy.abi.service.ts\<close> (the constants of the first vote),
  \<open>governance.description.service.ts\<close>, \<open>governance.quorum.service.ts\<close>, and the dispatch by
  \<open>governance.abi.factory.ts\<close> that the resolvers use. The argument \<open>T\<close> is the field \<open>type\<close>
  of the service, which chooses the contract's ABI.
\<close>

section \<open>GovernanceDescriptionService\<close>

definition default_description :: jsval where
  "default_description =
     JObj [(''title'', JStr ''Andromeda 1.9 Protocol Upgrade''),
       (''shortDescription'', JStr ''Andromeda is the first major upgrade in a two-step roadmap to drastically reduce transaction time to finality on MultiversX. This release redesigns consensus mechanisms, finalization rules, and cross-shard execution, significantly improving the efficiency, security, and scalability of the network.''),
       (''strapiId'', JNum (bn_int 8)), (''version'', JNum (bn_int 1))]"

definition current_title :: "jsval \<Rightarrow> jsval" where
  "current_title t =
     (if t = JStr ''Vega 1.7 Protocol Upgrade - Evolving the MultiversX PoS Economy via Staking V4''
      then JStr ''Vega 1.7 Protocol Upgrade''
      else if t = JStr ''Spica 1.8.0 Protocol Upgrade'' then JStr ''Spica 1.8 Protocol Upgrade'' else t)"

definition getGovernanceDescription :: "'s env \<Rightarrow> string \<Rightarrow> exn + description" where
  "getGovernanceDescription E descriptionJson =
     (let d = (case JSON_parse E descriptionJson of Inr v \<Rightarrow> v | Inl _ \<Rightarrow> default_description) in
      rbind (js_get ''title'' d) (\<lambda>raw.
      let name = current_title raw; ver = js_field ''version'' d in
        if ver = JNum (bn_int 0)
        then rbind (js_string name) (\<lambda>t. rbind (int_field ''strapiId'' d) (\<lambda>sid. Inr (DescriptionV0 t sid 0)))
        else if ver = JNum (bn_int 1)
        then rbind (js_string name) (\<lambda>t. rbind (int_field ''strapiId'' d) (\<lambda>sid.
             rbind (str_field ''shortDescription'' d) (\<lambda>sh. Inr (DescriptionV1 t sid 1 sh))))
        else if ver = JNum (bn_int 2)
        then rbind (js_string name) (\<lambda>t. rbind (int_field ''strapiId'' d) (\<lambda>sid.
             rbind (str_field ''shortDescription'' d) (\<lambda>sh. rbind (str_field ''strapiHash'' d) (\<lambda>h.
               Inr (DescriptionV2 t sid 2 sh h)))))
        else Inl (PlainError (''Unknown description version: '' @ js_text ver))))"


section \<open>GovernanceTokenSnapshotAbiService\<close>

definition ask :: "('x st) env \<Rightarrow> GovernanceType \<Rightarrow> string \<Rightarrow> string \<Rightarrow> sc_arg list \<Rightarrow> (scval \<Rightarrow> exn + 'a) \<Rightarrow> ('x st, 'a) prog" where
  "ask E T scAddress endpoint args conv =
     query_first E (getGovernanceSmartContract E scAddress T) endpoint args conv"

text \<open>A decorated method of the service that takes the contract's address.\<close>

definition by_contract :: "'s env \<Rightarrow> string \<Rightarrow> string \<Rightarrow> 'a codec \<Rightarrow> ('s, 'a) prog \<Rightarrow> ('s, 'a) prog" where
  "by_contract E name scAddress c body =
     GetOrSetCache E ''governance'' (ttl_ContractState E) name [KStr scAddress] c body"

definition by_proposal :: "'s env \<Rightarrow> string \<Rightarrow> string \<Rightarrow> int \<Rightarrow> 'a codec \<Rightarrow> ('s, 'a) prog \<Rightarrow> ('s, 'a) prog" where
  "by_proposal E name scAddress pid c body =
     GetOrSetCache E ''governance'' (ttl_ContractState E) name [KStr scAddress, KNum pid] c body"

definition ts_getAddressShardID :: "('x st) env \<Rightarrow> string \<Rightarrow> ('x st, string) prog" where
  "ts_getAddressShardID E scAddress =
     by_contract E ''getAddressShardID'' scAddress strC (proxy_getAddressShardID E scAddress)"

definition ts_minFeeForPropose :: "('x st) env \<Rightarrow> GovernanceType \<Rightarrow> string \<Rightarrow> ('x st, string) prog" where
  "ts_minFeeForPropose E T scAddress =
     by_contract E ''minFeeForPropose'' scAddress strC (ask E T scAddress ''getMinFeeForPropose'' [] sc_toFixed)"

definition ts_quorum :: "('x st) env \<Rightarrow> GovernanceType \<Rightarrow> string \<Rightarrow> ('x st, string) prog" where
  "ts_quorum E T scAddress =
     by_contract E ''quorum'' scAddress strC (ask E T scAddress ''getQuorum'' [] sc_toFixed)"

definition ts_votingDelayInBlocks :: "('x st) env \<Rightarrow> GovernanceType \<Rightarrow> string \<Rightarrow> ('x st, int) prog" where
  "ts_votingDelayInBlocks E T scAddress =
     by_contract E ''votingDelayInBlocks'' scAddress numC (ask E T scAddress ''getVotingDelayInBlocks'' [] sc_toNumber)"

definition ts_votingPeriodInBlocks :: "('x st) env \<Rightarrow> GovernanceType \<Rightarrow> string \<Rightarrow> ('x st, int) prog" where
  "ts_votingPeriodInBlocks E T scAddress =
     by_contract E ''votingPeriodInBlocks'' scAddress numC (ask E T scAddress ''getVotingPeriodInBlocks'' [] sc_toNumber)"

definition ts_feeTokenId :: "('x st) env \<Rightarrow> GovernanceType \<Rightarrow> string \<Rightarrow> ('x st, string) prog" where
  "ts_feeTokenId E T scAddress =
     by_contract E ''feeTokenId'' scAddress strC (ask E T scAddress ''getFeeTokenId'' [] sc_string)"

definition ts_withdrawPercentageDefeated :: "('x st) env \<Rightarrow> GovernanceType \<Rightarrow> string \<Rightarrow> ('x st, int) prog" where
  "ts_withdrawPercentageDefeated E T scAddress =
     by_contract E ''withdrawPercentageDefeated'' scAddress numC
       (ask E T scAddress ''getWithdrawPercentageDefeated'' [] sc_toNumber)"

text \<open>One proposal of the contract's answer; an address whose quorum was recorded wrongly is corrected.\<close>

definition sc_action :: "scval \<Rightarrow> exn + governance_action" where
  "sc_action a =
     rbind (rbind (rbind (sc_field ''arguments'' a) sc_list) (rmap sc_string)) (\<lambda>args.
     rbind (rbind (sc_field ''dest_address'' a) sc_bech32) (\<lambda>dest.
     rbind (rbind (sc_field ''function_name'' a) sc_string) (\<lambda>func.
     rbind (sc_num_field ''gas_limit'' a) (\<lambda>gas.
       Inr \<lparr>gasLimit = gas, destAddress = dest, functionName = func,
            arguments = split_char (CHR '','') (join '','' args)\<rparr>))))"

definition sc_actions :: "scval \<Rightarrow> exn + governance_action list option" where
  "sc_actions p =
     (case sc_field ''actions'' p of
        Inl _ \<Rightarrow> Inr None
      | Inr v \<Rightarrow> rbind (rbind (sc_list v) (rmap sc_action)) (\<lambda>as. Inr (Some as)))"

definition corrected_quorum :: "string \<Rightarrow> string \<Rightarrow> string" where
  "corrected_quorum scAddress q =
     (if scAddress = ''erd1qqqqqqqqqqqqqpgq8xqp6c0kzwn3f2c5zsxfex6h69s2x9rwhg4smw0gfc''
      then ''14864643496672232664684799'' else q)"

definition proposal_of_sc :: "'s env \<Rightarrow> string \<Rightarrow> scval \<Rightarrow> exn + governance_proposal" where
  "proposal_of_sc E scAddress p =
     rbind (sc_actions p) (\<lambda>acts.
     rbind (rbind (sc_field ''total_quorum'' p) sc_toFixed) (\<lambda>tq.
     rbind (sc_num_field ''proposal_id'' p) (\<lambda>pid.
     rbind (rbind (sc_field ''proposer'' p) sc_bech32) (\<lambda>who.
     rbind (rbind (rbind (sc_field ''description'' p) sc_string) (getGovernanceDescription E)) (\<lambda>d.
     rbind (rbind (sc_field ''fee_payment'' p) (paymentFromDecoded E)) (\<lambda>fee.
     rbind (sc_num_field ''proposal_start_block'' p) (\<lambda>start.
     rbind (rbind (sc_field ''minimum_quorum'' p) sc_big) (\<lambda>minq.
     rbind (sc_num_field ''voting_delay_in_blocks'' p) (\<lambda>delay_blocks.
     rbind (sc_num_field ''voting_period_in_blocks'' p) (\<lambda>period.
     rbind (sc_num_field ''withdraw_percentage_defeated'' p) (\<lambda>withdraw.
       Inr \<lparr>contractAddress = scAddress, proposalId = pid, proposer = who, actions = acts,
            gp_description = d, feePayment = fee,
            minimumQuorumPercentage = bn_toFixedDp 2 (bn_div minq (bn_int 100)),
            gp_votingDelayInBlocks = delay_blocks, gp_votingPeriodInBlocks = period,
            gp_withdrawPercentageDefeated = bn_int withdraw,
            totalQuorum = corrected_quorum scAddress tq, proposalStartBlock = start,
            gp_status = None, gp_rootHash = None, gp_votes = None,
            gp_hasVoted = None, gp_userVoteType = None, gp_userVotingPower = None,
            gp_delegateUserVotingPowers = None, gp_userVotingPowerDirect = None,
            gp_commitHash = None,
            startVoteTimestamp = None, endVoteTimestamp = None, proposalIndex = None, gp_faq = None,
            gp_excludedAddresses = None\<rparr>)))))))))))"

definition ts_proposalsRaw :: "('x st) env \<Rightarrow> GovernanceType \<Rightarrow> string \<Rightarrow> ('x st, governance_proposal list) prog" where
  "ts_proposalsRaw E T scAddress =
     mbind (getGovernanceSmartContract E scAddress T) (\<lambda>contract.
     let i = interact contract ''getProposals'' [] in
     mbind (mlift (buildQuery E i)) (\<lambda>q.
     mbind (queryContract E q) (\<lambda>queryResponse.
     let kept = queryResponse\<lparr>returnData := filter (\<lambda>d. 0 < length d) (returnData queryResponse)\<rparr> in
     mlift (rbind (parseQueryResponse E kept contract ''getProposals'') (\<lambda>response.
            rbind (rbind (first_valueOf response) sc_list) (rmap (proposal_of_sc E scAddress)))))))"

definition ts_proposals :: "('x st) env \<Rightarrow> GovernanceType \<Rightarrow> string \<Rightarrow> ('x st, governance_proposal list) prog" where
  "ts_proposals E T scAddress = by_contract E ''proposals'' scAddress proposalsC (ts_proposalsRaw E T scAddress)"

definition userVotedProposals :: "('x st) env \<Rightarrow> GovernanceType \<Rightarrow> string \<Rightarrow> string \<Rightarrow> ('x st, int list) prog" where
  "userVotedProposals E T scAddress userAddress =
     GetOrSetCache E ''governance'' (ttl_ContractState E) ''userVotedProposals'' [KStr scAddress, KStr userAddress] numsC
       (ask E T scAddress ''getUserVotedProposals'' [PlainStr userAddress] (\<lambda>v. rbind (sc_list v) (rmap sc_toNumber)))"

definition ts_proposalVotesRaw :: "('x st) env \<Rightarrow> GovernanceType \<Rightarrow> string \<Rightarrow> int \<Rightarrow> ('x st, proposal_votes) prog" where
  "ts_proposalVotesRaw E T scAddress pid =
     mbind (getGovernanceSmartContract E scAddress T) (\<lambda>contract.
     mbind (getGenericData E (interact contract ''getProposalVotes'' [PlainNum pid])) (\<lambda>response.
       mlift (case firstValue response of
                None \<Rightarrow> Inr ProposalVotes_default
              | Some votes \<Rightarrow> snapshot_votes votes)))"

definition ts_proposalVotes :: "('x st) env \<Rightarrow> GovernanceType \<Rightarrow> string \<Rightarrow> int \<Rightarrow> ('x st, proposal_votes) prog" where
  "ts_proposalVotes E T scAddress pid = by_proposal E ''proposalVotes'' scAddress pid votesC (ts_proposalVotesRaw E T scAddress pid)"

definition ts_proposalStatus ::
  "('x st) env \<Rightarrow> GovernanceType \<Rightarrow> string \<Rightarrow> int \<Rightarrow> ('x st, GovernanceProposalStatus option) prog" where
  "ts_proposalStatus E T scAddress pid =
     by_proposal E ''proposalStatus'' scAddress pid statusC
       (ask E T scAddress ''getProposalStatus'' [PlainNum pid] (\<lambda>v. rbind (sc_name v) (\<lambda>n. Inr (toGovernanceProposalStatus n))))"

text \<open>The bytes of the root hash, each as two hexadecimal digits.\<close>

definition hash_text :: "scval \<Rightarrow> exn + string" where
  "hash_text v = rbind (rbind (sc_list v) (rmap sc_toNumber)) (\<lambda>ns. Inr (concat (map decimalToHex ns)))"

definition ts_proposalRootHash :: "('x st) env \<Rightarrow> GovernanceType \<Rightarrow> string \<Rightarrow> int \<Rightarrow> ('x st, string) prog" where
  "ts_proposalRootHash E T scAddress pid =
     by_proposal E ''proposalRootHash'' scAddress pid strC (ask E T scAddress ''getProposalRootHash'' [PlainNum pid] hash_text)"

definition ts_vote :: "('x st) env \<Rightarrow> GovernanceType \<Rightarrow> string \<Rightarrow> vote_args \<Rightarrow> ('x st, transaction_model) prog" where
  "ts_vote E T sender args =
     mbind (getGovernanceSmartContract E (va_contractAddress args) T) (\<lambda>contract.
     mbind (ts_proposalRootHash E T (va_contractAddress args) (va_proposalId args)) (\<lambda>rootHash.
     mbind (getMerkleTree E rootHash) (\<lambda>tree.
       case getUserLeaf tree sender of
         None \<Rightarrow> mthrow TypeError
       | Some leaf \<Rightarrow>
           mlift (rbind (getProofBuffer E tree (Some leaf)) (\<lambda>proof_bytes.
             buildTransaction E
               \<lparr>rq_interaction = interact contract ''vote''
                  [U64Value (bn_int (va_proposalId args)), U64Value (bn_int (va_vote args)),
                   U64Value (bn_of_string (av_balance leaf)), BytesValue proof_bytes],
                rq_gasLimit = gas_tokenSnapshot (gasConfig E), rq_chainID = chainID E\<rparr>)))))"


section \<open>GovernanceEnergyAbiService\<close>

definition minEnergyForPropose :: "('x st) env \<Rightarrow> GovernanceType \<Rightarrow> string \<Rightarrow> ('x st, string) prog" where
  "minEnergyForPropose E T scAddress =
     by_contract E ''minEnergyForPropose'' scAddress strC (ask E T scAddress ''getMinEnergyForPropose'' [] sc_toFixed)"

definition feesCollectorAddress :: "('x st) env \<Rightarrow> GovernanceType \<Rightarrow> string \<Rightarrow> ('x st, string) prog" where
  "feesCollectorAddress E T scAddress =
     by_contract E ''feesCollectorAddress'' scAddress strC (ask E T scAddress ''getFeesCollectorAddress'' [] sc_bech32)"

definition energyFactoryAddress :: "('x st) env \<Rightarrow> GovernanceType \<Rightarrow> string \<Rightarrow> ('x st, string) prog" where
  "energyFactoryAddress E T scAddress =
     by_contract E ''energyFactoryAddress'' scAddress strC (ask E T scAddress ''getEnergyFactoryAddress'' [] sc_bech32)"

definition energy_vote :: "('x st) env \<Rightarrow> GovernanceType \<Rightarrow> string \<Rightarrow> vote_args \<Rightarrow> ('x st, transaction_model) prog" where
  "energy_vote E T sender args =
     mbind (getGovernanceSmartContract E (va_contractAddress args) T) (\<lambda>contract.
       mlift (buildTransaction E
         \<lparr>rq_interaction = interact contract ''vote''
            [U64Value (bn_int (va_proposalId args)), U64Value (bn_int (va_vote args))],
          rq_gasLimit = gas_energy (gasConfig E), rq_chainID = chainID E\<rparr>))"


section \<open>GovernanceOldEnergyAbiService\<close>

text \<open>The vote of 2022, with its result written down (\<open>entities/lkmex.proposal.ts\<close>).\<close>

definition lkmex_votes :: proposal_votes where
  "lkmex_votes =
     \<lparr>upVotes = ''3615976209993000000000'', downVotes = ''210776056445000000000'', downVetoVotes = ''0'',
      abstainVotes = ''274849971635000000000'', totalVotes = Some ''4101602238073000000000'',
      upPercentage = Some ''88.16'', downPercentage = Some ''5.13'', downVetoPercentage = Some ''0'',
      abstainPercentage = Some ''6.70'', quorum = ''4101475400000000000000000000000''\<rparr>"

definition GovernanceLKMEXProposal :: "string \<Rightarrow> governance_proposal" where
  "GovernanceLKMEXProposal scAddress =
     \<lparr>contractAddress = scAddress, proposalId = 1,
      proposer = ''erd1ss6u80ruas2phpmr82r42xnkd6rxy40g9jl69frppl4qez9w2jpsqj8x97'', actions = Some [],
      gp_description = DescriptionV1 ''Maiar DEX to transform Into xExchange with New MEX 2.0 Economic Model'' 2 1
        ''xExchange (Maiar DEX 2.0) presents a set of significant improvements and benefits, while correcting the most important limitations residing in the previous economics model.'',
      feePayment = \<lparr>tokenIdentifierP = ''LKMEX-aab910'', tokenNonce = 0, amount = ''0''\<rparr>,
      minimumQuorumPercentage = ''0'', gp_votingDelayInBlocks = 0, gp_votingPeriodInBlocks = 101672,
      gp_withdrawPercentageDefeated = bn_int 8999, totalQuorum = ''6742520471308000000000000000000'',
      proposalStartBlock = 12247307, gp_status = Some Succeeded, gp_rootHash = Some [],
      gp_votes = Some lkmex_votes,
      gp_hasVoted = None, gp_userVoteType = None, gp_userVotingPower = None,
      gp_delegateUserVotingPowers = None, gp_userVotingPowerDirect = None,
      gp_commitHash = None, startVoteTimestamp = None, endVoteTimestamp = None,
      proposalIndex = None, gp_faq = None, gp_excludedAddresses = None\<rparr>"


section \<open>The service that the factory chooses\<close>

text \<open>A method of the chosen service; a contract without one is \<open>undefined\<close>, and calling it throws.\<close>

definition with_abi :: "'s env \<Rightarrow> string \<Rightarrow> (abi_class \<Rightarrow> ('s, 'a) prog) \<Rightarrow> ('s, 'a) prog" where
  "with_abi E scAddress method =
     (case useAbi E scAddress of None \<Rightarrow> mthrow TypeError | Some c \<Rightarrow> method c)"

definition abi_getAddressShardID :: "('x st) env \<Rightarrow> string \<Rightarrow> ('x st, string) prog" where
  "abi_getAddressShardID E sc = with_abi E sc (\<lambda>c. case c of
      OldEnergyAbi \<Rightarrow> mret ''1'' | OnChainAbi \<Rightarrow> mret (oc_getAddressShardID sc) | _ \<Rightarrow> ts_getAddressShardID E sc)"

definition abi_minFeeForPropose :: "('x st) env \<Rightarrow> string \<Rightarrow> ('x st, string) prog" where
  "abi_minFeeForPropose E sc = with_abi E sc (\<lambda>c. case c of
      EnergyAbi \<Rightarrow> ts_minFeeForPropose E ENERGY sc | TokenSnapshotAbi \<Rightarrow> ts_minFeeForPropose E TOKEN_SNAPSHOT sc
    | OldEnergyAbi \<Rightarrow> mret ''0'' | OnChainAbi \<Rightarrow> oc_minFeeForPropose E sc)"

definition abi_quorum :: "('x st) env \<Rightarrow> string \<Rightarrow> ('x st, string) prog" where
  "abi_quorum E sc = with_abi E sc (\<lambda>c. case c of
      EnergyAbi \<Rightarrow> ts_quorum E ENERGY sc | TokenSnapshotAbi \<Rightarrow> ts_quorum E TOKEN_SNAPSHOT sc
    | OldEnergyAbi \<Rightarrow> mret [] | OnChainAbi \<Rightarrow> oc_quorum E sc)"

definition abi_votingDelayInBlocks :: "('x st) env \<Rightarrow> string \<Rightarrow> ('x st, int) prog" where
  "abi_votingDelayInBlocks E sc = with_abi E sc (\<lambda>c. case c of
      EnergyAbi \<Rightarrow> ts_votingDelayInBlocks E ENERGY sc | TokenSnapshotAbi \<Rightarrow> ts_votingDelayInBlocks E TOKEN_SNAPSHOT sc
    | OldEnergyAbi \<Rightarrow> mret 0 | OnChainAbi \<Rightarrow> oc_votingDelayInBlocks E sc)"

definition abi_votingPeriodInBlocks :: "('x st) env \<Rightarrow> string \<Rightarrow> ('x st, int) prog" where
  "abi_votingPeriodInBlocks E sc = with_abi E sc (\<lambda>c. case c of
      EnergyAbi \<Rightarrow> ts_votingPeriodInBlocks E ENERGY sc | TokenSnapshotAbi \<Rightarrow> ts_votingPeriodInBlocks E TOKEN_SNAPSHOT sc
    | OldEnergyAbi \<Rightarrow> mret 0 | OnChainAbi \<Rightarrow> oc_votingPeriodInBlocks E sc)"

definition abi_feeTokenId :: "('x st) env \<Rightarrow> string \<Rightarrow> ('x st, string) prog" where
  "abi_feeTokenId E sc = with_abi E sc (\<lambda>c. case c of
      EnergyAbi \<Rightarrow> ts_feeTokenId E ENERGY sc | TokenSnapshotAbi \<Rightarrow> ts_feeTokenId E TOKEN_SNAPSHOT sc
    | OldEnergyAbi \<Rightarrow> getLockedTokenID E | OnChainAbi \<Rightarrow> mret (oc_feeTokenId sc))"

definition abi_withdrawPercentageDefeated :: "('x st) env \<Rightarrow> string \<Rightarrow> ('x st, bn) prog" where
  "abi_withdrawPercentageDefeated E sc = with_abi E sc (\<lambda>c. case c of
      EnergyAbi \<Rightarrow> mbind (ts_withdrawPercentageDefeated E ENERGY sc) (\<lambda>n. mret (bn_int n))
    | TokenSnapshotAbi \<Rightarrow> mbind (ts_withdrawPercentageDefeated E TOKEN_SNAPSHOT sc) (\<lambda>n. mret (bn_int n))
    | OldEnergyAbi \<Rightarrow> mret (bn_int 0) | OnChainAbi \<Rightarrow> oc_withdrawPercentageDefeated E sc)"

definition abi_proposals :: "('x st) env \<Rightarrow> string \<Rightarrow> ('x st, governance_proposal list) prog" where
  "abi_proposals E sc = with_abi E sc (\<lambda>c. case c of
      EnergyAbi \<Rightarrow> ts_proposals E ENERGY sc | TokenSnapshotAbi \<Rightarrow> ts_proposals E TOKEN_SNAPSHOT sc
    | OldEnergyAbi \<Rightarrow> mret [GovernanceLKMEXProposal sc] | OnChainAbi \<Rightarrow> oc_proposals E sc)"

definition abi_proposalVotes :: "('x st) env \<Rightarrow> string \<Rightarrow> int \<Rightarrow> ('x st, proposal_votes) prog" where
  "abi_proposalVotes E sc pid = with_abi E sc (\<lambda>c. case c of
      EnergyAbi \<Rightarrow> ts_proposalVotes E ENERGY sc pid | TokenSnapshotAbi \<Rightarrow> ts_proposalVotes E TOKEN_SNAPSHOT sc pid
    | OldEnergyAbi \<Rightarrow> mret lkmex_votes | OnChainAbi \<Rightarrow> oc_proposalVotes E sc pid)"

definition abi_proposalStatus :: "('x st) env \<Rightarrow> string \<Rightarrow> int \<Rightarrow> ('x st, GovernanceProposalStatus option) prog" where
  "abi_proposalStatus E sc pid = with_abi E sc (\<lambda>c. case c of
      EnergyAbi \<Rightarrow> ts_proposalStatus E ENERGY sc pid | TokenSnapshotAbi \<Rightarrow> ts_proposalStatus E TOKEN_SNAPSHOT sc pid
    | OldEnergyAbi \<Rightarrow> mret (Some Succeeded) | OnChainAbi \<Rightarrow> oc_proposalStatus E sc pid)"

definition abi_proposalRootHash :: "('x st) env \<Rightarrow> string \<Rightarrow> int \<Rightarrow> ('x st, string) prog" where
  "abi_proposalRootHash E sc pid = with_abi E sc (\<lambda>c. case c of
      EnergyAbi \<Rightarrow> ts_proposalRootHash E ENERGY sc pid | TokenSnapshotAbi \<Rightarrow> ts_proposalRootHash E TOKEN_SNAPSHOT sc pid
    | OldEnergyAbi \<Rightarrow> mret [] | OnChainAbi \<Rightarrow> mret (oc_proposalRootHash sc pid))"

text \<open>The fields that only an energy contract has; the first vote answers with constants.\<close>

definition abi_minEnergyForPropose :: "('x st) env \<Rightarrow> string \<Rightarrow> ('x st, string) prog" where
  "abi_minEnergyForPropose E sc = with_abi E sc (\<lambda>c. case c of
      EnergyAbi \<Rightarrow> minEnergyForPropose E ENERGY sc | OldEnergyAbi \<Rightarrow> mret ''0'' | _ \<Rightarrow> mthrow TypeError)"

definition abi_feesCollectorAddress :: "('x st) env \<Rightarrow> string \<Rightarrow> ('x st, string) prog" where
  "abi_feesCollectorAddress E sc = with_abi E sc (\<lambda>c. case c of
      EnergyAbi \<Rightarrow> feesCollectorAddress E ENERGY sc | OldEnergyAbi \<Rightarrow> mret [] | _ \<Rightarrow> mthrow TypeError)"

definition abi_energyFactoryAddress :: "('x st) env \<Rightarrow> string \<Rightarrow> ('x st, string) prog" where
  "abi_energyFactoryAddress E sc = with_abi E sc (\<lambda>c. case c of
      EnergyAbi \<Rightarrow> energyFactoryAddress E ENERGY sc | OldEnergyAbi \<Rightarrow> mret [] | _ \<Rightarrow> mthrow TypeError)"

section \<open>GovernanceQuorumService\<close>

text \<open>Contracts of the other types have no quorum here: the result is \<open>undefined\<close>.\<close>

definition userQuorum :: "('x st) env \<Rightarrow> string \<Rightarrow> string \<Rightarrow> string \<Rightarrow> ('x st, string option) prog" where
  "userQuorum E scAddress userAddress roothash =
     (case governanceType E scAddress of
        Some ENERGY \<Rightarrow> mbind (energyAmountForUser E userAddress) (\<lambda>x. mret (Some x))
      | Some TOKEN_SNAPSHOT \<Rightarrow> mbind (snapshot_getAddressBalance E roothash userAddress) (\<lambda>x. mret (Some x))
      | Some PULSE \<Rightarrow> mbind (snapshot_getAddressBalance E roothash userAddress) (\<lambda>x. mret (Some x))
      | _ \<Rightarrow> mret None)"

section \<open>The root hash of a proposal\<close>

lemma decimalToHex_byte:
  assumes "n < 256"
  shows "decimalToHex (int n) = hex_byte (char_of n)"
proof (cases "n < 16")
  case True
  then have "show_nat 16 n = [digit_char n]" by (simp add: show_nat.simps)
  moreover have "digit_char 0 = CHR ''0''" by code_simp
  ultimately show ?thesis
    using True by (simp add: decimalToHex_def signed_def hex_byte_def)
next
  case False
  then have "show_nat 16 n = [digit_char (n div 16), digit_char (n mod 16)]"
    using assms by (simp add: show_nat.simps [of 16 n]) (simp add: show_nat.simps [of 16 "n div 16"])
  then show ?thesis
    using assms by (simp add: decimalToHex_def signed_def hex_byte_def)
qed

text \<open>
  The root hash of a proposal is written as the contract keeps it. The contract answers with a list
  of bytes, the service writes them as a hexadecimal text, and reading the text back, as the Merkle
  service and the signing of proofs do, gives the same bytes: no leading zero is lost.
\<close>

theorem root_hash_roundtrip:
  assumes "\<forall>n\<in>set bytes. n < 256"
  shows "\<exists>h. hash_text (SList (map (\<lambda>n. SBig (int n)) bytes)) = Inr h \<and> from_hex h = map char_of bytes"
proof -
  have nums: "rmap sc_toNumber (map (\<lambda>n. SBig (int n)) bytes) = Inr (map int bytes)"
    by (induction bytes) (simp_all add: sc_toNumber_def)
  have "concat (map (\<lambda>n. decimalToHex (int n)) bytes) = to_hex (map char_of bytes)"
    using assms by (simp add: to_hex_def decimalToHex_byte comp_def cong: map_cong)
  then show ?thesis
    using nums by (simp add: hash_text_def sc_list_def comp_def)
qed

theorem root_hash_roundtrip_witness:
  "\<exists>h. hash_text (SList (map (\<lambda>n. SBig (int n)) [0, 10, 255])) = Inr h \<and> from_hex h = map char_of [0::nat, 10, 255]"
  using root_hash_roundtrip [of "[0, 10, 255]"] by simp


section \<open>The vote through a snapshot\<close>

text \<open>The network and the cache do not touch the table of trees.\<close>

definition trees_untouched :: "('x st) env \<Rightarrow> GovernanceType \<Rightarrow> string \<Rightarrow> int \<Rightarrow> bool" where
  "trees_untouched E T sc pid \<longleftrightarrow>
     keeps (snap.valid E) (getGovernanceSmartContract E sc T) \<and>
     keeps (snap.valid E) (ts_proposalRootHash E T sc pid)"

text \<open>
  C3: a vote through a snapshot states the balance that the snapshot certifies. When the transaction is
  built, it calls the endpoint \<open>vote\<close> with the proposal, the vote, a balance and a proof such that the
  balance is that of the sender's entry in a tree whose root is the root hash the contract gives for
  the proposal, and the proof is the one of this entry. The invariant of the table of trees must hold
  before, and the network must not touch the table.
\<close>

theorem snapshot_vote_certified:
  assumes "snap.valid E s" and "trees_untouched E T (va_contractAddress args) (va_proposalId args)"
    and "ts_vote E T sender args s = (Inr t, s')"
  shows "\<exists>contract rootHash tree leaf proof_bytes s1 s2.
    ts_proposalRootHash E T (va_contractAddress args) (va_proposalId args) s1 = (Inr rootHash, s2) \<and>
    rooted E rootHash tree \<and> leaf \<in> set (mt_leaves tree) \<and> av_address leaf = sender \<and>
    getProofBuffer E tree (Some leaf) = Inr proof_bytes \<and>
    buildTransaction E
      \<lparr>rq_interaction = interact contract ''vote''
         [U64Value (bn_int (va_proposalId args)), U64Value (bn_int (va_vote args)),
          U64Value (bn_of_string (av_balance leaf)), BytesValue proof_bytes],
       rq_gasLimit = gas_tokenSnapshot (gasConfig E), rq_chainID = chainID E\<rparr> = Inr t"
proof -
  obtain contract rootHash tree s1 s2 s3 where
      1: "getGovernanceSmartContract E (va_contractAddress args) T s = (Inr contract, s1)"
    and 2: "ts_proposalRootHash E T (va_contractAddress args) (va_proposalId args) s1 = (Inr rootHash, s2)"
    and 3: "getMerkleTree E rootHash s2 = (Inr tree, s3)"
    and 4: "(case getUserLeaf tree sender of
         None \<Rightarrow> mthrow TypeError
       | Some leaf \<Rightarrow>
           mlift (rbind (getProofBuffer E tree (Some leaf)) (\<lambda>proof_bytes.
             buildTransaction E
               \<lparr>rq_interaction = interact contract ''vote''
                  [U64Value (bn_int (va_proposalId args)), U64Value (bn_int (va_vote args)),
                   U64Value (bn_of_string (av_balance leaf)), BytesValue proof_bytes],
                rq_gasLimit = gas_tokenSnapshot (gasConfig E), rq_chainID = chainID E\<rparr>))) s3 = (Inr t, s')"
    using assms(3) by (auto simp: ts_vote_def elim!: mbind_InrE)
  have "snap.valid E s2"
    using assms(1,2) 1 2 unfolding trees_untouched_def keeps_def by (metis snd_conv)
  from snap.get_good [OF this 3] have rooted: "rooted E rootHash tree" .
  obtain leaf where leaf: "getUserLeaf tree sender = Some leaf"
    using 4 by (cases "getUserLeaf tree sender") auto
  then have "leaf \<in> set (mt_leaves tree)" "av_address leaf = sender"
    by (auto simp: getUserLeaf_def find_Some_iff)
  then show ?thesis using 2 4 rooted leaf by (auto simp: rbind_Inr_iff) blast
qed


text \<open>A state that knows the contract and its proposal's root hash, and a snapshot file for it.\<close>

definition snap_vote_env :: "memory_state env" where
  "snap_vote_env = snap_env\<lparr>buildTransaction := \<lambda>rq. Inr (convertTransactionToModel (tx_to ''aa'' ''erdB''))\<rparr>"

definition snap_vote_state :: memory_state where
  "snap_vote_state = empty_memory\<lparr>
     smartContracts := [contract_key \<lparr>cr_address = ''erdB'', cr_abiPath = None, cr_interface = ''GovernanceV2''\<rparr> \<mapsto>
       \<lparr>sc_address = ''erdB'', sc_abi = JNull\<rparr>],
     store := [generateCacheKeyFromParams [KStr ''governance'', KStr ''proposalRootHash'', KStr ''erdB'', KNum 1] \<mapsto> VStr ''616105'']\<rparr>"

lemma keeps_memory_getOrSet:
  assumes "keeps I f" and "\<And>s x. I (s\<lparr>store := x\<rparr>) = I s"
  shows "keeps I (memory_getOrSet k f r l)"
  unfolding keeps_def memory_getOrSet_def
  using assms(1) by (auto simp: keeps_def assms(2) split: option.splits prod.splits sum.splits)


lemma keeps_mmodify: "(\<And>s. I (f s) = I s) \<Longrightarrow> keeps I (mmodify f)"
  by (simp add: keeps_def)

lemma valid_other [simp]:
  "snap.valid E (s\<lparr>store := x\<rparr>) = snap.valid E s" "snap.valid E (s\<lparr>smartContracts := y\<rparr>) = snap.valid E s"
  by (simp_all add: snap.valid_def)

lemma snap_vote_untouched: "trees_untouched snap_vote_env TOKEN_SNAPSHOT ''erdB'' 1"
proof -
  let ?I = "snap.valid snap_vote_env"
  have env: "getOrSet snap_vote_env = memory_getOrSet" "readFile snap_vote_env = (\<lambda>p. mret ''file'')"
      "queryContract snap_vote_env = (\<lambda>q. mthrow unavailable)"
    by (simp_all add: snap_vote_env_def snap_env_def example_env_def memory_env_def)
  have contract: "keeps ?I (getGovernanceSmartContract snap_vote_env ''erdB'' TOKEN_SNAPSHOT)"
    unfolding getGovernanceSmartContract_def getSmartContract_def createSmartContract_def load_contract_def env
    by (intro keeps_mbind keeps_mget keeps_mthen keeps_mmodify keeps_mret | auto split: option.split)+
  have body: "keeps ?I (ask snap_vote_env TOKEN_SNAPSHOT ''erdB'' ''getProposalRootHash'' [PlainNum 1] hash_text)"
    unfolding ask_def query_first_def getGenericData_def env by (intro keeps_mbind contract keeps_mlift keeps_mthrow)
  have "keeps ?I (ts_proposalRootHash snap_vote_env TOKEN_SNAPSHOT ''erdB'' 1)"
    unfolding ts_proposalRootHash_def by_proposal_def GetOrSetCache_def cached_def env
    by (intro keeps_mbind keeps_memory_getOrSet body keeps_mlift keeps_mret) simp
  with contract show ?thesis by (simp add: trees_untouched_def)
qed

lemma snap_vote_run:
  "result_of (mbind (ts_vote snap_vote_env TOKEN_SNAPSHOT ''aa'' \<lparr>va_contractAddress = ''erdB'', va_proposalId = 1, va_vote = 0\<rparr>)
     (\<lambda>t. mret (tx_receiver t))) snap_vote_state = Some ''erdB''"
  by code_simp

theorem snapshot_vote_certified_witness:
  "\<exists>rootHash tree leaf. rooted snap_vote_env rootHash tree \<and> leaf \<in> set (mt_leaves tree) \<and> av_address leaf = ''aa''"
proof -
  let ?args = "\<lparr>va_contractAddress = ''erdB'', va_proposalId = 1, va_vote = 0\<rparr>"
  obtain s1 where "mbind (ts_vote snap_vote_env TOKEN_SNAPSHOT ''aa'' ?args) (\<lambda>t. mret (tx_receiver t)) snap_vote_state =
      (Inr ''erdB'', s1)"
    by (elim exE [OF result_of_SomeD [OF snap_vote_run]])
  then obtain t s' where run: "ts_vote snap_vote_env TOKEN_SNAPSHOT ''aa'' ?args snap_vote_state = (Inr t, s')"
    by (rule mbind_InrE)
  have "snap.valid snap_vote_env snap_vote_state"
    by (simp add: snap.valid_def snap_vote_state_def empty_memory_def)
  moreover have "trees_untouched snap_vote_env TOKEN_SNAPSHOT (va_contractAddress ?args) (va_proposalId ?args)"
    using snap_vote_untouched by simp
  ultimately show ?thesis
    by (rule snapshot_vote_certified [OF _ _ run, elim_format]) (elim exE conjE, intro exI conjI)
qed


section \<open>The vote of 2022\<close>

lemma digit_chars:
  "digit_char 0 = CHR ''0''" "digit_char 1 = CHR ''1''" "digit_char (Suc 0) = CHR ''1''" "digit_char 2 = CHR ''2''" "digit_char 3 = CHR ''3''"
  "digit_char 4 = CHR ''4''" "digit_char 5 = CHR ''5''" "digit_char 6 = CHR ''6''" "digit_char 7 = CHR ''7''"
  "digit_char 8 = CHR ''8''" "digit_char 9 = CHR ''9''"
  by code_simp+

lemma lkmex_numbers:
  "show_int 3615976209993000000000 = ''3615976209993000000000''"
  "show_int 210776056445000000000 = ''210776056445000000000''"
  "show_int 274849971635000000000 = ''274849971635000000000''"
  "show_int 4101602238073000000000 = ''4101602238073000000000''"
  by (simp_all add: show_int_def show_nat.simps digit_chars)

lemma lkmex_read:
  "bn_of_string ''3615976209993000000000'' = bn_int 3615976209993000000000"
  "bn_of_string ''210776056445000000000'' = bn_int 210776056445000000000"
  "bn_of_string ''274849971635000000000'' = bn_int 274849971635000000000"
  "bn_of_string ''4101602238073000000000'' = bn_int 4101602238073000000000"
  unfolding lkmex_numbers [symmetric] by (rule bn_of_show_int)+

lemma lkmex_hundredths:
  "hundredths 3615976209993000000000 4101602238073000000000 = 8816"
  "hundredths 210776056445000000000 4101602238073000000000 = 514"
  "hundredths 274849971635000000000 4101602238073000000000 = 670"
  by (simp_all add: hundredths_def round_div_def)

lemma lkmex_texts:
  "fixed_point 8816 2 = ''88.16''" "fixed_point 514 2 = ''5.14''" "fixed_point 670 2 = ''6.70''"
  by (simp_all add: fixed_point_def show_nat.simps digit_chars Let_def)

text \<open>
  The result that is written down for the first vote agrees with its own counts, except for one
  number. The counts add up to the total, and each percentage is the one that the service computes for
  other votes, but for the votes against: the record says 5.13, the computation gives 5.14.
\<close>

theorem lkmex_votes_recomputed:
  "totalVotes lkmex_votes = Some (add_text (add_text (upVotes lkmex_votes) (bn_of_string (downVotes lkmex_votes)))
     (bn_of_string (abstainVotes lkmex_votes))) \<and>
   upPercentage lkmex_votes = Some (text_percentage (upVotes lkmex_votes) (the (totalVotes lkmex_votes))) \<and>
   abstainPercentage lkmex_votes = Some (text_percentage (abstainVotes lkmex_votes) (the (totalVotes lkmex_votes))) \<and>
   downPercentage lkmex_votes = Some ''5.13'' \<and>
   text_percentage (downVotes lkmex_votes) (the (totalVotes lkmex_votes)) = ''5.14''"
proof -
  have votes: "upVotes lkmex_votes = ''3615976209993000000000''" "downVotes lkmex_votes = ''210776056445000000000''"
    "abstainVotes lkmex_votes = ''274849971635000000000''" "totalVotes lkmex_votes = Some ''4101602238073000000000''"
    "upPercentage lkmex_votes = Some ''88.16''" "downPercentage lkmex_votes = Some ''5.13''"
    "abstainPercentage lkmex_votes = Some ''6.70''"
    by (simp_all add: lkmex_votes_def)
  have total: "add_text (add_text (upVotes lkmex_votes) (bn_of_string (downVotes lkmex_votes)))
     (bn_of_string (abstainVotes lkmex_votes)) = ''4101602238073000000000''"
    unfolding votes add_text_def lkmex_read bn_plus_int toFixed_int bn_of_show_int
    by (simp add: lkmex_numbers)
  have share: "text_percentage ''3615976209993000000000'' ''4101602238073000000000'' = ''88.16''"
    "text_percentage ''210776056445000000000'' ''4101602238073000000000'' = ''5.14''"
    "text_percentage ''274849971635000000000'' ''4101602238073000000000'' = ''6.70''"
    unfolding text_percentage_def lkmex_read by (simp_all add: percentage_text lkmex_hundredths lkmex_texts)
  show ?thesis
    unfolding total by (simp only: votes option.sel share)
qed

end
