(* ===== verification/Gov_Service.thy ===== *)
theory Gov_Service
  imports Gov_SnapshotAbi
begin

text \<open>
  The governance services that the resolvers call: \<open>src/modules/governance/services/governance.service.ts\<close>
  with its three classes for token snapshot, energy and on-chain contracts. They choose the contract
  service by the factory, read a user's power and vote, and smooth the power (linear or quadratic).
\<close>

section \<open>Smoothing\<close>

text \<open>\<open>undefined\<close> in or out: a missing quorum is \<open>NaN\<close>, a contract without a function gives nothing.\<close>

definition smoothingFunction :: "'s env \<Rightarrow> string \<Rightarrow> string option \<Rightarrow> string option" where
  "smoothingFunction E scAddress quorum_text =
     (case governanceSmoothingFunction E scAddress of
        Some CVADRATIC \<Rightarrow> Some (bn_toFixed (bn_integerValue (bn_sqrt (bn_of_optional quorum_text))))
      | Some LINEAR \<Rightarrow> Some (bn_toFixed (bn_integerValue (bn_of_optional quorum_text)))
      | None \<Rightarrow> None)"


section \<open>GovernanceTokenSnapshotService\<close>

text \<open>An absent or empty user address.\<close>

definition given :: "string option \<Rightarrow> string option" where
  "given u = (case u of Some a \<Rightarrow> (if a = [] then None else Some a) | None \<Rightarrow> None)"

definition ts_userVote :: "'s env \<Rightarrow> string \<Rightarrow> int \<Rightarrow> string option \<Rightarrow> ('s, vote_value) prog" where
  "ts_userVote E scAddress pid userAddress =
     (case given userAddress of
        None \<Rightarrow> mret (VoteNum NotVoted)
      | Some u \<Rightarrow> mbind (userVotedProposalsWithVoteType E scAddress u pid) (\<lambda>v. mret (VoteNum v)))"

definition feeToken :: "('x st) env \<Rightarrow> string \<Rightarrow> ('x st, esdt_token option) prog" where
  "feeToken E scAddress = mbind (abi_feeTokenId E scAddress) (\<lambda>t. getTokenMetadata E (Some t))"

text \<open>\<open>new BigNumber(10).pow(decimals)\<close>; a reciprocal is rounded to twenty places.\<close>

definition ten_to :: "int option \<Rightarrow> bn" where
  "ten_to d = (case d of
      None \<Rightarrow> BNaN
    | Some n \<Rightarrow> if 0 \<le> n then bn_int (10 ^ nat n) else bn_div (bn_int 1) (bn_int (10 ^ nat (- n))))"

definition decimals_of :: "'s env \<Rightarrow> string \<Rightarrow> esdt_token option \<Rightarrow> exn + int" where
  "decimals_of E scAddress token =
     (case token of
        None \<Rightarrow> Inl TypeError
      | Some t \<Rightarrow>
         (case smoothingFunction E scAddress (Some (bn_toFixed (ten_to (decimals t)))) of
            None \<Rightarrow> Inl TypeError
          | Some smoothedOneUnit \<Rightarrow> Inr (int (length smoothedOneUnit) - 1)))"

definition ts_votingPowerDecimals :: "('x st) env \<Rightarrow> string \<Rightarrow> ('x st, int) prog" where
  "ts_votingPowerDecimals E scAddress =
     by_contract E ''votingPowerDecimals'' scAddress numC
       (mbind (feeToken E scAddress) (\<lambda>token. mlift (decimals_of E scAddress token)))"

definition voting_power_key :: "string \<Rightarrow> int \<Rightarrow> string \<Rightarrow> key_arg list" where
  "voting_power_key scAddress pid userAddress = [KStr scAddress, KNum pid, KStr userAddress]"

definition ts_userVotingPower :: "('x st) env \<Rightarrow> string \<Rightarrow> int \<Rightarrow> string \<Rightarrow> ('x st, string option) prog" where
  "ts_userVotingPower E scAddress pid userAddress =
     GetOrSetCache E ''governance'' (ttl_ContractState E) ''userVotingPower'' (voting_power_key scAddress pid userAddress) optStrC
       (mbind (abi_proposalRootHash E scAddress pid) (\<lambda>rootHash.
        mbind (userQuorum E scAddress userAddress rootHash) (\<lambda>q. mret (smoothingFunction E scAddress q))))"


section \<open>GovernanceEnergyService\<close>

definition energy_userVotingPower :: "('x st) env \<Rightarrow> string \<Rightarrow> int \<Rightarrow> string \<Rightarrow> ('x st, string option) prog" where
  "energy_userVotingPower E scAddress pid userAddress =
     GetOrSetCache E ''governance'' (ttl_ContractState E) ''userVotingPower'' (voting_power_key scAddress pid userAddress) optStrC
       (mbind (getUserEnergy E userAddress False) (\<lambda>userEnergy.
          mret (smoothingFunction E scAddress (Some (en_amount userEnergy)))))"


section \<open>GovernanceOnChainService\<close>

definition with_onchain_abi :: "'s env \<Rightarrow> string \<Rightarrow> ('s, 'a) prog \<Rightarrow> ('s, 'a) prog" where
  "with_onchain_abi E scAddress m =
     with_abi E scAddress (\<lambda>c. case c of OnChainAbi \<Rightarrow> m | _ \<Rightarrow> mthrow TypeError)"

definition ocs_userVote :: "'s env \<Rightarrow> string \<Rightarrow> int \<Rightarrow> string option \<Rightarrow> ('s, vote_value) prog" where
  "ocs_userVote E scAddress pid userAddress =
     (case given userAddress of
        None \<Rightarrow> mret (VoteNum NotVoted)
      | Some u \<Rightarrow> getUserVoteOnChain E scAddress u pid)"

definition ocs_hasUserVoted :: "'s env \<Rightarrow> string \<Rightarrow> int \<Rightarrow> string option \<Rightarrow> ('s, bool) prog" where
  "ocs_hasUserVoted E scAddress pid userAddress =
     (case given userAddress of
        None \<Rightarrow> mret False
      | Some u \<Rightarrow> mbind (ocs_userVote E scAddress pid (Some u)) (\<lambda>v. mret (has_voted v)))"

text \<open>The class repeats two methods of the class it extends.\<close>

definition ocs_feeToken :: "('x st) env \<Rightarrow> string \<Rightarrow> ('x st, esdt_token option) prog" where
  "ocs_feeToken E scAddress = mbind (abi_feeTokenId E scAddress) (\<lambda>t. getTokenMetadata E (Some t))"

definition ocs_smoothingFunction :: "'s env \<Rightarrow> string \<Rightarrow> string option \<Rightarrow> string option" where
  "ocs_smoothingFunction E scAddress quorum_text =
     (case governanceSmoothingFunction E scAddress of
        Some CVADRATIC \<Rightarrow> Some (bn_toFixed (bn_integerValue (bn_sqrt (bn_of_optional quorum_text))))
      | Some LINEAR \<Rightarrow> Some (bn_toFixed (bn_integerValue (bn_of_optional quorum_text)))
      | None \<Rightarrow> None)"

lemma ocs_same [simp]: "ocs_feeToken E sc = feeToken E sc" "ocs_smoothingFunction E sc q = smoothingFunction E sc q"
  by (simp_all add: ocs_feeToken_def feeToken_def ocs_smoothingFunction_def smoothingFunction_def)

definition ocs_votingPowerDecimals :: "'s env \<Rightarrow> string \<Rightarrow> ('s, int) prog" where
  "ocs_votingPowerDecimals E scAddress = by_contract E ''votingPowerDecimals'' scAddress numC (mret 18)"

definition ocs_userVotingPower :: "('x st) env \<Rightarrow> string \<Rightarrow> int \<Rightarrow> string \<Rightarrow> ('x st, string) prog" where
  "ocs_userVotingPower E scAddress pid userAddress =
     with_onchain_abi E scAddress (oc_userVotingPower E userAddress pid)"

definition ocs_userVotingPowerDirect :: "('x st) env \<Rightarrow> string \<Rightarrow> int \<Rightarrow> string \<Rightarrow> ('x st, string) prog" where
  "ocs_userVotingPowerDirect E scAddress pid userAddress =
     with_onchain_abi E scAddress (oc_userVotingPowerDirect E userAddress pid)"

text \<open>The service is looked up first; calling its method on a missing one rejects each item's promise.\<close>

definition ocs_excludedAddresses :: "('x st) env \<Rightarrow> string \<Rightarrow> int \<Rightarrow> ('x st, excluded_address_item list) prog" where
  "ocs_excludedAddresses E scAddress pid =
     (case List.find (\<lambda>c. onChainId c = pid) (onChainConfig E) of
        None \<Rightarrow> mret []
      | Some c \<Rightarrow>
          if length (excludedAddresses c) = 0 then mret []
          else promise_map (\<lambda>(name, addr).
                 mbind (with_onchain_abi E scAddress (oc_userVotingPowerDirect E addr pid)) (\<lambda>power.
                   mret \<lparr>ex_name = name, ex_address = addr, ex_votingPower = power\<rparr>)) (excludedAddresses c))"

definition ocs_delegateUserVotingPowers ::
  "('x st) env \<Rightarrow> string \<Rightarrow> string \<Rightarrow> int \<Rightarrow> ('x st, delegate_user_voting_power list) prog" where
  "ocs_delegateUserVotingPowers E scAddress userAddress pid =
     with_onchain_abi E scAddress (delegateUserVotingPowers E userAddress pid)"


section \<open>What smoothing does to a quorum\<close>

text \<open>The integer nearest to the square root: between the roots of \<open>k\<^sup>2 - k\<close> and \<open>k\<^sup>2 + k\<close>.\<close>

definition nearest_root :: "int \<Rightarrow> int \<Rightarrow> bool" where
  "nearest_root q k \<longleftrightarrow> 0 \<le> k \<and> (k * k - k < q \<or> k = 0) \<and> q \<le> k * k + k"

lemma nearest_root_mono:
  assumes "nearest_root q k" "nearest_root q' k'" "q \<le> q'"
  shows "k \<le> k'"
proof (rule ccontr)
  assume "\<not> k \<le> k'"
  then have "k' + 1 \<le> k" "0 < k" using assms(2) by (auto simp: nearest_root_def)
  moreover have "k' * (k' + 1) \<le> (k - 1) * k"
    using \<open>k' + 1 \<le> k\<close> assms(2) by (intro mult_mono) (auto simp: nearest_root_def)
  ultimately show False using assms by (auto simp: nearest_root_def algebra_simps)
qed

lemma nearest_root_unique: "nearest_root q k \<Longrightarrow> nearest_root q k' \<Longrightarrow> k = k'"
  using nearest_root_mono [of q k q k'] nearest_root_mono [of q k' q k] by simp

lemma smoothing_quadratic:
  assumes "governanceSmoothingFunction E sc = Some CVADRATIC" and "0 \<le> q" "q \<le> 10 ^ 38"
  shows "\<exists>k. smoothingFunction E sc (Some (show_int q)) = Some (show_int k) \<and> nearest_root q k"
proof -
  obtain k where k: "bn_integerValue (bn_sqrt (bn_int q)) = bn_int k" "0 \<le> k" "k * k - k < q \<or> k = 0" "q \<le> k * k + k"
    using sqrt_integerValue [OF assms(2,3)] by blast
  then have "smoothingFunction E sc (Some (show_int q)) = Some (show_int k)"
    using assms(1) unfolding smoothingFunction_def by (simp only: bn_of_optional_def option.case bn_of_show_int
        GovernanceSmoothingFunction.case toFixed_int)
  with k(2-4) show ?thesis by (auto simp: nearest_root_def)
qed

lemma smoothing_linear:
  "governanceSmoothingFunction E sc = Some LINEAR \<Longrightarrow> smoothingFunction E sc (Some (show_int q)) = Some (show_int q)"
  unfolding smoothingFunction_def
  by (simp only: bn_of_optional_def option.case bn_of_show_int GovernanceSmoothingFunction.case integerValue_int toFixed_int)

text \<open>
  C9: smoothing is fair and exact. For quorums up to ten to the power of 38 a linear contract gives the
  quorum itself and a quadratic one the integer nearest to its square root, although the root is
  computed with twenty decimals and rounded twice; and a larger quorum never gives less power.
\<close>

theorem smoothing_monotone:
  assumes "governanceSmoothingFunction E sc = Some f" and "0 \<le> q" "q \<le> q'" "q' \<le> 10 ^ 38"
  shows "\<exists>k k'. smoothingFunction E sc (Some (show_int q)) = Some (show_int k) \<and>
    smoothingFunction E sc (Some (show_int q')) = Some (show_int k') \<and> k \<le> k' \<and>
    (case f of LINEAR \<Rightarrow> k = q \<and> k' = q' | CVADRATIC \<Rightarrow> nearest_root q k \<and> nearest_root q' k')"
proof (cases f)
  case LINEAR
  then show ?thesis using smoothing_linear assms by fastforce
next
  case CVADRATIC
  obtain k k' where "smoothingFunction E sc (Some (show_int q)) = Some (show_int k)" "nearest_root q k"
      "smoothingFunction E sc (Some (show_int q')) = Some (show_int k')" "nearest_root q' k'"
    using smoothing_quadratic assms CVADRATIC by (metis order_trans)
  then show ?thesis using nearest_root_mono assms(3) CVADRATIC by fastforce
qed

lemma example_smoothing: "governanceSmoothingFunction example_env ''erdA'' = Some CVADRATIC"
  by code_simp

theorem smoothing_monotone_witness:
  "\<exists>k k'. smoothingFunction example_env ''erdA'' (Some (show_int 8)) = Some (show_int k) \<and>
    smoothingFunction example_env ''erdA'' (Some (show_int 13)) = Some (show_int k') \<and> k \<le> k' \<and>
    nearest_root 8 k \<and> nearest_root 13 k'"
  using smoothing_monotone [OF example_smoothing, of 8 13] by simp

lemma length_power10: "length (show_int (10 ^ n)) = n + 1"
proof -
  have "length (show_nat 10 (10 ^ n)) = n + 1"
  proof (induction n)
    case 0
    then show ?case by (simp add: show_nat.simps)
  next
    case (Suc n)
    have "\<not> (10::nat) ^ Suc n < 10" by simp
    then show ?case using Suc by (subst show_nat.simps) simp
  qed
  then show ?thesis by (simp add: show_int_def nat_power_eq)
qed

text \<open>
  the number of decimals of a voting power. For a fee token with d decimals, d at most 38, one unit
  of power has d decimals under a linear contract and, for even d, half of them under a quadratic one:
  the length of the smoothed unit less one is exactly that.
\<close>

theorem decimals_of_unit:
  assumes "governanceSmoothingFunction E sc = Some f" and "decimals token = Some (int d)" and "d \<le> 38"
    and "f = CVADRATIC \<longrightarrow> even d"
  shows "decimals_of E sc (Some token) = Inr (case f of LINEAR \<Rightarrow> int d | CVADRATIC \<Rightarrow> int (d div 2))"
proof -
  have unit: "bn_toFixed (ten_to (decimals token)) = show_int (10 ^ d)"
    using assms(2) by (simp add: ten_to_def)
  show ?thesis
  proof (cases f)
    case LINEAR
    then show ?thesis
      using smoothing_linear [of E sc "10 ^ d"] assms(1) unit by (simp add: decimals_of_def length_power10)
  next
    case CVADRATIC
    define e where "e = d div 2"
    have d: "(10::int) ^ d = 10 ^ e * 10 ^ e"
      using assms(4) CVADRATIC by (simp add: e_def flip: power_add) (metis dvd_mult_div_cancel mult_2)
    have "(10::int) ^ d \<le> 10 ^ 38" using assms(3) by (intro power_increasing) auto
    then obtain k where k: "smoothingFunction E sc (Some (show_int (10 ^ d))) = Some (show_int k)" "nearest_root (10 ^ d) k"
      using smoothing_quadratic [of E sc "10 ^ d"] assms(1) CVADRATIC by auto
    have "nearest_root (10 ^ d) (10 ^ e)" by (simp add: nearest_root_def d)
    with k(2) have "k = 10 ^ e" by (rule nearest_root_unique)
    then show ?thesis using k(1) unit CVADRATIC by (simp add: decimals_of_def length_power10 e_def)
  qed
qed

definition plain_token :: "string \<Rightarrow> int \<Rightarrow> esdt_token" where
  "plain_token i d =
     \<lparr>tok_identifier = Some i, tok_name = None, tok_ticker = None, tok_owner = None, tok_minted = None, tok_burnt = None,
      tok_initialMinted = None, decimals = Some d, tok_price = None, tok_supply = None, tok_circulatingSupply = None,
      tok_assets = assets_of_json JUndef, tok_transactions = None, tok_accounts = None, tok_isPaused = None,
      tok_canUpgrade = None, tok_canMint = None, tok_canBurn = None, tok_canChangeOwner = None, tok_canPause = None,
      tok_canFreeze = None, tok_canWipe = None, tok_type = None, tok_balance = None\<rparr>"

theorem decimals_of_unit_witness:
  "decimals_of example_env ''erdA'' (Some (plain_token ''MEX'' 18)) = Inr 9"
  using decimals_of_unit [OF example_smoothing, of "plain_token ''MEX'' 18" 18]
  by (simp add: plain_token_def)

end
