(* ===== verification/Gov_Pulse.thy ===== *)
theory Gov_Pulse
  imports Gov_Service
begin

text \<open>
  Polls and ideas: \<open>src/modules/governance/services/governance.pulse.abi.service.ts\<close>, which talks to the
  contract, and \<open>governance.pulse.service.ts\<close>, which the resolvers call. The SDK's controller encodes
  the query and decodes its answer (\<open>pulseQuery\<close>): a big number comes as a number, a byte string as a
  text. The components that the two classes share with others are in the theories of those.
\<close>

section \<open>GovernancePulseAbiService: transactions\<close>

definition pulse_execute ::
  "'s env \<Rightarrow> string \<Rightarrow> string \<Rightarrow> string \<Rightarrow> int \<Rightarrow> sc_arg list \<Rightarrow> exn + transaction_model" where
  "pulse_execute E sender contract func gas args =
     rbind (executeTx E sender \<lparr>ce_contract = contract, ce_gasLimit = gas, ce_function = func, ce_arguments = args\<rparr>)
       (\<lambda>tx. Inr (toPlainObject E tx))"

text \<open>A proof that was not filled in is \<open>undefined\<close>, and its bytes cannot be encoded.\<close>

definition proof_arg :: "string option \<Rightarrow> exn + sc_arg" where
  "proof_arg p = (case p of None \<Rightarrow> Inl TypeError | Some b \<Rightarrow> Inr (BytesValue b))"

definition pabi_newPoll :: "'s env \<Rightarrow> string \<Rightarrow> new_poll_args \<Rightarrow> exn + transaction_model" where
  "pabi_newPoll E sender args =
     pulse_execute E sender (np_contractAddress args) ''newPoll'' 10000000
       [StringValue (np_question args), StringsValue (np_options args), U32Value (np_duration args)]"

definition pabi_newIdea :: "'s env \<Rightarrow> string \<Rightarrow> new_idea_args \<Rightarrow> exn + transaction_model" where
  "pabi_newIdea E sender args =
     rbind (proof_arg (ni_proof args)) (\<lambda>bytes.
       pulse_execute E sender (ni_contractAddress args) ''newProposal'' (gas_tokenSnapshot (gasConfig E))
         [StringValue (ni_description args), BigUIntValue (bn_of_optional (ni_votingPower args)), bytes])"

definition pabi_endPoll :: "'s env \<Rightarrow> string \<Rightarrow> end_poll_args \<Rightarrow> exn + transaction_model" where
  "pabi_endPoll E sender args =
     pulse_execute E sender (ep_contractAddress args) ''endPoll'' 10000000 [U32Value (ep_pollId args)]"

definition pabi_votePoll :: "'s env \<Rightarrow> string \<Rightarrow> vote_poll_args \<Rightarrow> exn + transaction_model" where
  "pabi_votePoll E sender args =
     rbind (proof_arg (vp_proof args)) (\<lambda>bytes.
       pulse_execute E sender (vp_contractAddress args) ''vote_poll'' (gas_tokenSnapshot (gasConfig E))
         [U32Value (vp_pollId args), U32Value (vp_optionId args),
          BigUIntValue (bn_of_optional (vp_votingPower args)), bytes])"

definition pabi_voteUpIdea :: "'s env \<Rightarrow> string \<Rightarrow> vote_up_idea_args \<Rightarrow> exn + transaction_model" where
  "pabi_voteUpIdea E sender args =
     rbind (proof_arg (vi_proof args)) (\<lambda>bytes.
       pulse_execute E sender (vi_contractAddress args) ''vote_up_proposal'' (gas_tokenSnapshot (gasConfig E))
         [U32Value (vi_ideaId args), BigUIntValue (bn_of_optional (vi_votingPower args)), bytes])"


section \<open>GovernancePulseAbiService: queries\<close>

text \<open>The first value of the answer; without one it is \<open>undefined\<close>.\<close>

definition pulse_ask :: "'s env \<Rightarrow> string \<Rightarrow> string \<Rightarrow> sc_arg list \<Rightarrow> ('s, jsval) prog" where
  "pulse_ask E scAddress func args =
     mbind (pulseQuery E scAddress func args) (\<lambda>response.
       mret (case response of [] \<Rightarrow> JUndef | v # _ \<Rightarrow> v))"

text \<open>\<open>Buffer.from(v).toString()\<close> and \<open>v.toString()\<close> of bytes and of a big number.\<close>

definition pulse_text :: "jsval \<Rightarrow> exn + string" where
  "pulse_text v = (case v of JStr s \<Rightarrow> Inr s | JNum x \<Rightarrow> Inr (bn_toString x) | _ \<Rightarrow> Inl TypeError)"

definition pulse_texts :: "jsval \<Rightarrow> exn + string list" where
  "pulse_texts v = rbind (js_list v) (rmap pulse_text)"

definition pulse_address :: "jsval \<Rightarrow> exn + string" where
  "pulse_address v = (case v of JAddr a \<Rightarrow> Inr a | _ \<Rightarrow> Inl TypeError)"

text \<open>\<open>parseInt\<close> of a text: the digits at its start. The contract's type excludes \<open>NaN\<close> here.\<close>

definition js_parseInt :: "string \<Rightarrow> exn + int" where
  "js_parseInt t =
     (let neg = prefix ''-'' t;
          ds = takeWhile (is_digit 10) (if neg then tl t else t)
      in if ds = [] then Inl TypeError
         else Inr ((if neg then - 1 else 1) * int (read_digits 10 ds)))"

definition pulse_time :: "jsval \<Rightarrow> exn + int" where
  "pulse_time v = js_parseInt (bn_toString (js_number v))"

definition poll_of_json :: "jsval \<Rightarrow> exn + poll_info_raw" where
  "poll_of_json response =
     rbind (rbind (js_get ''initiator'' response) pulse_address) (\<lambda>initiator.
     rbind (rbind (js_get ''question'' response) pulse_text) (\<lambda>question.
     rbind (rbind (js_get ''options'' response) pulse_texts) (\<lambda>opts.
     rbind (rbind (js_get ''vote_score'' response) pulse_texts) (\<lambda>scores.
     rbind (rbind (js_get ''end_time'' response) pulse_time) (\<lambda>endTime.
     rbind (js_get ''status'' response) (\<lambda>open.
       Inr \<lparr>pir_initiator = initiator, pir_question = question, pir_options = opts,
            pir_voteScore = scores, pir_endTime = endTime, pir_status = js_bool open\<rparr>))))))"

definition idea_of_json :: "jsval \<Rightarrow> exn + idea_info_raw" where
  "idea_of_json response =
     rbind (rbind (js_get ''initiator'' response) pulse_address) (\<lambda>initiator.
     rbind (rbind (js_get ''description'' response) pulse_text) (\<lambda>descr.
     rbind (rbind (js_get ''vote_score'' response) pulse_text) (\<lambda>score.
     rbind (rbind (js_get ''propose_time'' response) pulse_time) (\<lambda>start.
       Inr \<lparr>iir_initiator = initiator, iir_description = descr, iir_voteScore = score,
            iir_ideaStartTime = start\<rparr>))))"

definition pabi_getPoll :: "'s env \<Rightarrow> string \<Rightarrow> int \<Rightarrow> ('s, poll_info_raw) prog" where
  "pabi_getPoll E sc pid =
     mbind (pulse_ask E sc ''getPoll'' [U32Value pid]) (\<lambda>response. mlift (poll_of_json response))"

definition pabi_getIdea :: "'s env \<Rightarrow> string \<Rightarrow> int \<Rightarrow> ('s, idea_info_raw) prog" where
  "pabi_getIdea E sc iid =
     mbind (pulse_ask E sc ''getProposal'' [U32Value iid]) (\<lambda>response. mlift (idea_of_json response))"

definition pabi_confirmVotingPower :: "'s env \<Rightarrow> string \<Rightarrow> string \<Rightarrow> string \<Rightarrow> ('s, jsval) prog" where
  "pabi_confirmVotingPower E sc pw bytes =
     pulse_ask E sc ''confirmVotingPower'' [BigUIntValue (bn_of_string pw), BytesValue bytes]"

text \<open>
  A count is read as an integer, and an answer without one is a \<open>TypeError\<close>. The source makes \<open>NaN\<close> of an
  empty answer and goes on: the loops of the callers then run no iteration. Theorems about results assume
  that the contract answers.
\<close>

definition pulse_count :: "'s env \<Rightarrow> string \<Rightarrow> string \<Rightarrow> sc_arg list \<Rightarrow> ('s, int) prog" where
  "pulse_count E sc func args = mbind (pulse_ask E sc func args) (\<lambda>v. mlift (js_int v))"

definition pabi_getTotalVotes :: "'s env \<Rightarrow> string \<Rightarrow> int \<Rightarrow> ('s, int) prog" where
  "pabi_getTotalVotes E sc pid = pulse_count E sc ''getTotalPollVotes'' [U32Value pid]"

definition pabi_getPollVotesCount :: "'s env \<Rightarrow> string \<Rightarrow> int \<Rightarrow> int \<Rightarrow> ('s, int) prog" where
  "pabi_getPollVotesCount E sc pid oid = pulse_count E sc ''getPollVotes'' [U32Value pid, U32Value oid]"

definition pabi_getIdeaVotesCount :: "'s env \<Rightarrow> string \<Rightarrow> int \<Rightarrow> ('s, int) prog" where
  "pabi_getIdeaVotesCount E sc iid = pulse_count E sc ''getProposalVoteUps'' [U32Value iid]"

definition pabi_getTotalPolls :: "'s env \<Rightarrow> string \<Rightarrow> ('s, int) prog" where
  "pabi_getTotalPolls E sc = pulse_count E sc ''getNextAvailablePollIndex'' []"

definition pabi_getTotalIdeas :: "'s env \<Rightarrow> string \<Rightarrow> ('s, int) prog" where
  "pabi_getTotalIdeas E sc = pulse_count E sc ''getNextAvailableProposalIndex'' []"

text \<open>\<open>byte.toString(16).padStart(2, '0')\<close> of each number.\<close>

definition padStart :: "nat \<Rightarrow> char \<Rightarrow> string \<Rightarrow> string" where
  "padStart n c s = replicate (n - length s) c @ s"

definition decodeBytesArrayToHash :: "int list \<Rightarrow> string" where
  "decodeBytesArrayToHash arr = concat (map (\<lambda>b. padStart 2 (CHR ''0'') (show_nat 16 (nat b))) arr)"

definition pabi_getRootHash :: "'s env \<Rightarrow> string \<Rightarrow> ('s, string) prog" where
  "pabi_getRootHash E sc =
     mbind (pulse_ask E sc ''getRootHash'' []) (\<lambda>v.
       mlift (rbind (rbind (js_list v) (rmap js_int)) (\<lambda>arr. Inr (decodeBytesArrayToHash arr))))"


section \<open>GovernancePulseService\<close>

definition POLLS_THRESHOLD :: int where "POLLS_THRESHOLD = 100"

definition IDEAS_THRESHOLD :: int where "IDEAS_THRESHOLD = 300"

text \<open>The decorated methods; the local time to live is the remote one, except for one of them.\<close>

definition ttl_remote :: "ttl \<Rightarrow> ttl" where
  "ttl_remote t = (fst t, Some (fst t))"

definition pulse_getRootHash :: "'s env \<Rightarrow> string \<Rightarrow> ('s, string) prog" where
  "pulse_getRootHash E sc =
     GetOrSetCache E ''pulse'' (ttl_remote (ttl_Attributes E)) ''getRootHash'' [KStr sc] strC (pabi_getRootHash E sc)"

definition pulse_smoothingFunction :: "'s env \<Rightarrow> string \<Rightarrow> string option \<Rightarrow> string option" where
  "pulse_smoothingFunction E scAddress quorum_text =
     (case governanceSmoothingFunction E scAddress of
        Some CVADRATIC \<Rightarrow> Some (bn_toFixed (bn_integerValue (bn_sqrt (bn_of_optional quorum_text))))
      | Some LINEAR \<Rightarrow> Some (bn_toFixed (bn_integerValue (bn_of_optional quorum_text)))
      | None \<Rightarrow> None)"

lemma pulse_smoothing [simp]: "pulse_smoothingFunction E sc q = smoothingFunction E sc q"
  by (simp add: pulse_smoothingFunction_def smoothingFunction_def)

definition pulse_getUserVotingPower :: "('x st) env \<Rightarrow> string \<Rightarrow> string \<Rightarrow> ('x st, string option) prog" where
  "pulse_getUserVotingPower E sc userAddress =
     mbind (pulse_getRootHash E sc) (\<lambda>rootHash.
     mbind (userQuorum E sc userAddress rootHash) (\<lambda>q. mret (pulse_smoothingFunction E sc q)))"

definition pulse_getProof :: "('x st) env \<Rightarrow> string \<Rightarrow> string \<Rightarrow> ('x st, string) prog" where
  "pulse_getProof E sc userAddress =
     mbind (pulse_getRootHash E sc) (\<lambda>rootHash.
     mbind (getMerkleTree E rootHash) (\<lambda>merkleTree.
       mlift (getProofBuffer E merkleTree (getUserLeaf merkleTree userAddress))))"

definition no_power :: exn where
  "no_power = BadRequestException ''No voting power !''"

definition pulse_voteUpIdea :: "('x st) env \<Rightarrow> string \<Rightarrow> vote_up_idea_args \<Rightarrow> ('x st, transaction_model) prog" where
  "pulse_voteUpIdea E sender args =
     mbind (pulse_getUserVotingPower E (vi_contractAddress args) sender) (\<lambda>power.
       if \<not> bn_gt (bn_of_optional power) (bn_int 0) then mthrow no_power
       else mbind (pulse_getProof E (vi_contractAddress args) sender) (\<lambda>bytes.
         mlift (pabi_voteUpIdea E sender (args\<lparr>vi_votingPower := power, vi_proof := Some bytes\<rparr>))))"

definition pulse_votePoll :: "('x st) env \<Rightarrow> string \<Rightarrow> vote_poll_args \<Rightarrow> ('x st, transaction_model) prog" where
  "pulse_votePoll E sender args =
     mbind (pulse_getUserVotingPower E (vp_contractAddress args) sender) (\<lambda>power.
       if \<not> bn_gt (bn_of_optional power) (bn_int 0) then mthrow no_power
       else mbind (pulse_getProof E (vp_contractAddress args) sender) (\<lambda>bytes.
         mlift (pabi_votePoll E sender (args\<lparr>vp_votingPower := power, vp_proof := Some bytes\<rparr>))))"

definition pulse_getContractShardId :: "'s env \<Rightarrow> string \<Rightarrow> ('s, string) prog" where
  "pulse_getContractShardId E sc =
     GetOrSetCache E ''pulse'' (ttl_remote (ttl_Attributes E)) ''getContractShardId'' [KStr sc] strC
       (proxy_getAddressShardID E sc)"

definition getTotalPolls :: "'s env \<Rightarrow> string \<Rightarrow> ('s, int) prog" where
  "getTotalPolls E sc =
     GetOrSetCache E ''pulse'' (ttl_remote (ttl_ContractInfo E)) ''getTotalPolls'' [KStr sc] numC (pabi_getTotalPolls E sc)"

definition getTotalIdeas :: "'s env \<Rightarrow> string \<Rightarrow> ('s, int) prog" where
  "getTotalIdeas E sc =
     GetOrSetCache E ''pulse'' (ttl_ContractInfo E) ''getTotalIdeas'' [KStr sc] numC (pabi_getTotalIdeas E sc)"

text \<open>\<open>moment().unix()\<close>: whole seconds.\<close>

definition unix :: "'s env \<Rightarrow> ('s, int) prog" where
  "unix E = mbind (now E) (\<lambda>t. mret (t div 1000))"

definition status_of_poll :: "poll_info_raw \<Rightarrow> int \<Rightarrow> PollStatus" where
  "status_of_poll poll currTime = (if pir_status poll \<and> currTime < pir_endTime poll then ONGOING else ENDED)"

definition getPollRaw :: "'s env \<Rightarrow> string \<Rightarrow> int \<Rightarrow> ('s, pulse_poll) prog" where
  "getPollRaw E sc pid =
     mbind (pabi_getPoll E sc pid) (\<lambda>pollInfoRaw.
     mbind (unix E) (\<lambda>currTime.
       mret \<lparr>poll_contractAddress = sc, pollId = pid, poll_initiator = pir_initiator pollInfoRaw,
             poll_options = pir_options pollInfoRaw, poll_question = pir_question pollInfoRaw,
             poll_status = status_of_poll pollInfoRaw currTime, pollEndTime = pir_endTime pollInfoRaw,
             poll_pollResults = None, poll_hasVoted = None, poll_userVotingOption = None, poll_userVotingPower = None,
             poll_index = None\<rparr>))"

definition getPoll :: "'s env \<Rightarrow> string \<Rightarrow> int \<Rightarrow> ('s, pulse_poll) prog" where
  "getPoll E sc pid =
     GetOrSetCache E ''pulse'' (ttl_remote (ttl_ContractInfo E)) ''getPoll'' [KStr sc, KNum pid] pollC (getPollRaw E sc pid)"

text \<open>The loops stop at the number the contract gives, or at the threshold.\<close>

definition getPolls :: "'s env \<Rightarrow> string \<Rightarrow> ('s, pulse_poll list) prog" where
  "getPolls E sc =
     mbind (getTotalPolls E sc) (\<lambda>totalPolls.
       promise_map (getPoll E sc) [0..min totalPolls POLLS_THRESHOLD - 1])"

definition getIdeaRaw :: "'s env \<Rightarrow> string \<Rightarrow> int \<Rightarrow> ('s, pulse_idea) prog" where
  "getIdeaRaw E sc iid =
     mbind (promise_both (pabi_getIdea E sc iid) (pabi_getIdeaVotesCount E sc iid)) (\<lambda>(ideaInfoRaw, count).
       mret \<lparr>idea_contractAddress = sc, ideaId = iid, idea_initiator = iir_initiator ideaInfoRaw,
             idea_description = iir_description ideaInfoRaw, ideaStartTime = iir_ideaStartTime ideaInfoRaw,
             idea_totalVotingPower = iir_voteScore ideaInfoRaw, idea_totalVotesCount = count,
             idea_hasVoted = None, idea_userVotingPower = None, idea_index = None\<rparr>)"

definition getIdea :: "'s env \<Rightarrow> string \<Rightarrow> int \<Rightarrow> ('s, pulse_idea) prog" where
  "getIdea E sc iid =
     GetOrSetCache E ''pulse'' (ttl_remote (ttl_ContractInfo E)) ''getIdea'' [KStr sc, KNum iid] ideaC (getIdeaRaw E sc iid)"

definition getIdeas :: "'s env \<Rightarrow> string \<Rightarrow> ('s, pulse_idea list) prog" where
  "getIdeas E sc =
     mbind (getTotalIdeas E sc) (\<lambda>totalIdeas.
       promise_map (getIdea E sc) [0..min totalIdeas IDEAS_THRESHOLD - 1])"

text \<open>The limit on the ideas of one address: more than ten are refused, so the eleventh is accepted.\<close>

definition pulse_newIdea :: "('x st) env \<Rightarrow> string \<Rightarrow> new_idea_args \<Rightarrow> ('x st, transaction_model) prog" where
  "pulse_newIdea E sender args =
     mbind (pulse_getUserVotingPower E (ni_contractAddress args) sender) (\<lambda>power.
       if \<not> bn_gt (bn_of_optional power) (bn_int 0) then mthrow no_power
       else mbind (getIdeas E (ni_contractAddress args)) (\<lambda>ideas.
         if 10 < length (filter (\<lambda>i. idea_initiator i = sender) ideas)
         then mthrow (BadRequestException ''Too many ideas created by address !'')
         else mbind (pulse_getProof E (ni_contractAddress args) sender) (\<lambda>bytes.
           mlift (pabi_newIdea E sender (args\<lparr>ni_votingPower := power, ni_proof := Some bytes\<rparr>)))))"

definition pulse_newPoll :: "'s env \<Rightarrow> string \<Rightarrow> new_poll_args \<Rightarrow> exn + transaction_model" where
  "pulse_newPoll E sender args = pabi_newPoll E sender args"

definition pulse_endPoll :: "'s env \<Rightarrow> string \<Rightarrow> end_poll_args \<Rightarrow> exn + transaction_model" where
  "pulse_endPoll E sender args = pabi_endPoll E sender args"

definition getIdeaVotesTotalCount :: "'s env \<Rightarrow> string \<Rightarrow> int \<Rightarrow> ('s, int) prog" where
  "getIdeaVotesTotalCount E sc iid = pabi_getIdeaVotesCount E sc iid"

definition getInitiator :: "'s env \<Rightarrow> string \<Rightarrow> int \<Rightarrow> ('s, string) prog" where
  "getInitiator E sc pid = mbind (pabi_getPoll E sc pid) (\<lambda>poll. mret (pir_initiator poll))"

definition getOptions :: "'s env \<Rightarrow> string \<Rightarrow> int \<Rightarrow> ('s, string list) prog" where
  "getOptions E sc pid = mbind (pabi_getPoll E sc pid) (\<lambda>poll. mret (pir_options poll))"

definition getQuestion :: "'s env \<Rightarrow> string \<Rightarrow> int \<Rightarrow> ('s, string) prog" where
  "getQuestion E sc pid = mbind (pabi_getPoll E sc pid) (\<lambda>poll. mret (pir_question poll))"

definition getPollStatus :: "'s env \<Rightarrow> string \<Rightarrow> int \<Rightarrow> ('s, PollStatus) prog" where
  "getPollStatus E sc pid =
     mbind (pabi_getPoll E sc pid) (\<lambda>poll. mbind (unix E) (\<lambda>currTime. mret (status_of_poll poll currTime)))"

definition getPollVotesCount :: "'s env \<Rightarrow> string \<Rightarrow> int \<Rightarrow> int \<Rightarrow> ('s, int) prog" where
  "getPollVotesCount E sc pid oid =
     GetOrSetCache E ''pulse'' (ttl_remote (ttl_Attributes E)) ''getPollVotesCount'' [KStr sc, KNum pid, KNum oid] numC
       (pabi_getPollVotesCount E sc pid oid)"

definition getPollEndTime :: "'s env \<Rightarrow> string \<Rightarrow> int \<Rightarrow> ('s, int) prog" where
  "getPollEndTime E sc pid = mbind (pabi_getPoll E sc pid) (\<lambda>poll. mret (pir_endTime poll))"

definition getPollOptions :: "'s env \<Rightarrow> string \<Rightarrow> int \<Rightarrow> ('s, string list) prog" where
  "getPollOptions E sc pid = mbind (pabi_getPoll E sc pid) (\<lambda>poll. mret (pir_options poll))"

text \<open>A score that the contract did not give is \<open>undefined\<close>, and makes the total \<open>NaN\<close>.\<close>

definition nth_or_undefined :: "'a list \<Rightarrow> nat \<Rightarrow> 'a option" where
  "nth_or_undefined xs i = (if i < length xs then Some (xs ! i) else None)"

definition results_of_poll :: "string list \<Rightarrow> int list \<Rightarrow> poll_results" where
  "results_of_poll voteScore counts =
     (let ids = [0..<length counts];
          score = nth_or_undefined voteScore
      in \<lparr>pollResults = map (\<lambda>i. \<lparr>optionId = int i, pr_votingPower = score i, nrVotes = counts ! i\<rparr>) ids,
          totalVotesCount = foldl (+) 0 counts,
          totalVotingPower = bn_toFixed (foldl (\<lambda>tot i. bn_plus tot (bn_of_optional (score i))) (bn_int 0) ids)\<rparr>)"

definition getPollResultsRaw :: "'s env \<Rightarrow> string \<Rightarrow> int \<Rightarrow> ('s, poll_results) prog" where
  "getPollResultsRaw E sc pid =
     mbind (pabi_getPoll E sc pid) (\<lambda>poll.
     mbind (promise_map (\<lambda>i. pabi_getPollVotesCount E sc pid (int i)) [0..<length (pir_options poll)]) (\<lambda>counts.
       mret (results_of_poll (pir_voteScore poll) counts)))"

definition getPollResults :: "'s env \<Rightarrow> string \<Rightarrow> int \<Rightarrow> ('s, poll_results) prog" where
  "getPollResults E sc pid =
     GetOrSetCache E ''pulse'' (ttl_remote (ttl_Attributes E)) ''getPollResults'' [KStr sc, KNum pid] pollResultsC
       (getPollResultsRaw E sc pid)"

text \<open>The option is a number or \<open>NaN\<close>; \<open>NaN >= 0\<close> is false.\<close>

definition bn_isZero :: "bn \<Rightarrow> bool" where
  "bn_isZero x = (case x of BFin m k \<Rightarrow> m = 0 | _ \<Rightarrow> False)"

definition pulse_hasUserVoted :: "'s env \<Rightarrow> string \<Rightarrow> string \<Rightarrow> int \<Rightarrow> ('s, bool) prog" where
  "pulse_hasUserVoted E sc u pid =
     mbind (getUserVotePulse E sc u pid) (\<lambda>oid. mret (bn_gt oid (bn_int 0) \<or> bn_isZero oid))"

definition pulse_hasUserVotedIdea :: "'s env \<Rightarrow> string \<Rightarrow> string \<Rightarrow> int \<Rightarrow> ('s, bool) prog" where
  "pulse_hasUserVotedIdea E sc u iid = hasUserVotedIdea E sc u iid"

definition getUserVotingOption :: "'s env \<Rightarrow> string \<Rightarrow> string \<Rightarrow> int \<Rightarrow> ('s, bn) prog" where
  "getUserVotingOption E sc u pid = getUserVotePulse E sc u pid"

text \<open>
  An index over all pulse contracts: the items of the contracts listed before come first. A contract
  that is not listed has the index \<open>-1\<close>, and the loop does not run.
\<close>

definition config_linear :: "'s env \<Rightarrow> string \<Rightarrow> exn + string list" where
  "config_linear E ty =
     (case map_of (governanceConfig E) ty of
        None \<Rightarrow> Inl TypeError
      | Some sms \<Rightarrow> (case map_of sms ''linear'' of None \<Rightarrow> Inl TypeError | Some l \<Rightarrow> Inr l))"

definition pulse_linear :: "'s env \<Rightarrow> exn + string list" where
  "pulse_linear E = config_linear E ''pulse''"

definition index_after :: "(string \<Rightarrow> ('s, int) prog) \<Rightarrow> 's env \<Rightarrow> string \<Rightarrow> int \<Rightarrow> ('s, int) prog" where
  "index_after count_of E sc n =
     mbind (mlift (pulse_linear E)) (\<lambda>scAddresses.
     mbind (mfold (\<lambda>index a. mbind (count_of a) (\<lambda>t. mret (index + t))) 0
              (if sc \<in> set scAddresses then takeWhile (\<lambda>a. a \<noteq> sc) scAddresses else [])) (\<lambda>index.
       mret (index + n)))"

definition getIndexForPoll :: "'s env \<Rightarrow> string \<Rightarrow> int \<Rightarrow> ('s, int) prog" where
  "getIndexForPoll E sc pid = index_after (getTotalPolls E) E sc pid"

definition getIndexForIdea :: "'s env \<Rightarrow> string \<Rightarrow> int \<Rightarrow> ('s, int) prog" where
  "getIndexForIdea E sc iid = index_after (getTotalIdeas E) E sc iid"


section \<open>Getters and setters\<close>

interpretation poll_entry: cached_entry E "\<lambda>(a, p). getCacheKey ''pulse'' [KStr ''getPoll'', KStr a, KNum p]" pollC
    "\<lambda>(a, p). getPoll E a p" "\<lambda>(a, p). set_getPoll E a p"
  for E :: "'s env"
  by unfold_locales
     (auto simp: getPoll_def GetOrSetCache_def getCacheKey_def set_getPoll_def simp del: split_paired_Ex)

interpretation idea_entry: cached_entry E "\<lambda>(a, p). getCacheKey ''pulse'' [KStr ''getIdea'', KStr a, KNum p]" ideaC
    "\<lambda>(a, p). getIdea E a p" "\<lambda>(a, p). set_getIdea E a p"
  for E :: "'s env"
  by unfold_locales
     (auto simp: getIdea_def GetOrSetCache_def getCacheKey_def set_getIdea_def simp del: split_paired_Ex)

interpretation total_polls_entry: cached_entry E "\<lambda>a. getCacheKey ''pulse'' [KStr ''getTotalPolls'', KStr a]" numC
    "getTotalPolls E" "set_getTotalPolls E"
  for E :: "'s env"
  by unfold_locales (auto simp: getTotalPolls_def GetOrSetCache_def getCacheKey_def set_getTotalPolls_def simp del: split_paired_Ex)

interpretation total_ideas_entry: cached_entry E "\<lambda>a. getCacheKey ''pulse'' [KStr ''getTotalIdeas'', KStr a]" numC
    "getTotalIdeas E" "set_getTotalIdeas E"
  for E :: "'s env"
  by unfold_locales (auto simp: getTotalIdeas_def GetOrSetCache_def getCacheKey_def set_getTotalIdeas_def simp del: split_paired_Ex)

interpretation poll_results_entry: cached_entry E "\<lambda>(a, p). getCacheKey ''pulse'' [KStr ''getPollResults'', KStr a, KNum p]"
    pollResultsC "\<lambda>(a, p). getPollResults E a p" "\<lambda>(a, p). set_getPollResults E a p"
  for E :: "'s env"
  by unfold_locales
     (auto simp: getPollResults_def GetOrSetCache_def getCacheKey_def set_getPollResults_def simp del: split_paired_Ex)


section \<open>Indices over all contracts\<close>

lemma mfold_add_pure:
  "\<forall>a\<in>set as. count_of a s = (Inr (n a), s) \<Longrightarrow>
   mfold (\<lambda>index a. mbind (count_of a) (\<lambda>t. mret (index + t))) (k :: int) as s = (Inr (k + sum_list (map n as)), s)"
  by (induction as arbitrary: k) (auto simp: add.assoc)

definition items_before :: "(string \<Rightarrow> int) \<Rightarrow> string list \<Rightarrow> string \<Rightarrow> int" where
  "items_before n as a = sum_list (map n (takeWhile (\<lambda>x. x \<noteq> a) as))"

lemma items_before_bound:
  assumes "\<forall>x\<in>set as. 0 \<le> n x" "a \<in> set as"
  shows "0 \<le> items_before n as a \<and> items_before n as a + n a \<le> sum_list (map n as)"
  using assms
proof (induction as)
  case (Cons x as)
  have "0 \<le> sum_list (map n as)" using Cons.prems(1) by (intro sum_list_nonneg) auto
  then show ?case using Cons by (cases "x = a") (auto simp: items_before_def)
qed simp

lemma items_before_apart:
  assumes "\<forall>x\<in>set as. 0 \<le> n x" "a \<in> set as" "b \<in> set as" "a \<noteq> b"
  shows "items_before n as a + n a \<le> items_before n as b \<or> items_before n as b + n b \<le> items_before n as a"
  using assms
proof (induction as)
  case (Cons x as)
  have nonneg: "0 \<le> items_before n as c" for c
    using Cons.prems(1) unfolding items_before_def
    by (intro sum_list_nonneg) (auto dest!: set_takeWhileD)
  consider "x = a" | "x = b" | "x \<noteq> a" "x \<noteq> b" by blast
  then show ?case
  proof cases
    case 3
    then have "items_before n (x # as) c = n x + items_before n as c" if "c = a \<or> c = b" for c
      using that by (auto simp: items_before_def)
    then show ?thesis using Cons 3 by auto
  qed (use Cons.prems nonneg in \<open>auto simp: items_before_def\<close>)
qed simp

lemma index_after_eq:
  assumes "pulse_linear E = Inr as" "\<forall>x\<in>set as. count_of x s = (Inr (n x), s)" "a \<in> set as"
  shows "index_after count_of E a i s = (Inr (items_before n as a + i), s)"
proof -
  have "\<forall>x\<in>set (takeWhile (\<lambda>x. x \<noteq> a) as). count_of x s = (Inr (n x), s)"
    using assms(2) by (auto dest: set_takeWhileD)
  from mfold_add_pure [where k = 0 and n = n and count_of = count_of and s = s, OF this] show ?thesis
    using assms(1,3) by (simp add: index_after_def items_before_def)
qed

lemma items_before_onto:
  assumes "\<forall>x\<in>set as. 0 \<le> n x" "0 \<le> y" "y < sum_list (map n as)" "distinct as"
  shows "\<exists>a\<in>set as. \<exists>i. 0 \<le> i \<and> i < n a \<and> items_before n as a + i = y"
  using assms
proof (induction as arbitrary: y)
  case (Cons x as)
  show ?case
  proof (cases "y < n x")
    case True
    with Cons.prems(2) show ?thesis by (auto simp: items_before_def)
  next
    case False
    then obtain a i where "a \<in> set as" "0 \<le> i" "i < n a" "items_before n as a + i = y - n x"
      using Cons.IH [of "y - n x"] Cons.prems by auto
    moreover from this Cons.prems(4) have "items_before n (x # as) a = n x + items_before n as a"
      by (auto simp: items_before_def)
    ultimately show ?thesis by (intro bexI [of _ a] exI [of _ i]) auto
  qed
qed simp

text \<open>What the cache knows of the numbers of polls.\<close>

definition polls_known :: "(string \<Rightarrow> cval option) \<Rightarrow> string list \<Rightarrow> (string \<Rightarrow> int) \<Rightarrow> bool" where
  "polls_known entries as n \<longleftrightarrow>
     (\<forall>x\<in>set as. entries (getCacheKey ''pulse'' [KStr ''getTotalPolls'', KStr x]) = Some (VNum (n x)) \<and> 0 \<le> n x)"

lemma known_index:
  assumes "caching E visible" "pulse_linear E = Inr as" "polls_known (visible s) as n" "a \<in> set as"
  shows "getIndexForPoll E a i s = (Inr (items_before n as a + i), s)"
proof -
  have "\<forall>x\<in>set as. getTotalPolls E x s = (Inr (n x), s)"
    using assms(3) cached_hit [OF assms(1), of numC s]
    by (simp add: polls_known_def getTotalPolls_def GetOrSetCache_def getCacheKey_def)
  from index_after_eq [where count_of = "getTotalPolls E" and n = n and s = s, OF assms(2) this assms(4)]
  show ?thesis by (simp add: getIndexForPoll_def)
qed

text \<open>
  C34: At any moment at which the numbers of polls are known, the indices number the polls of all pulse
  contracts without a gap or a clash: the index of a poll is below the number of all polls, two polls have
  the same index only if they are the same poll, and every number below is the index of one. Between two
  moments, the index of a poll moves by the number of polls that the contracts listed before its own have
  got: it is stable only while those get none, and an index that was a poll's can become another poll's.
\<close>

theorem poll_index_unique:
  assumes "caching E visible" and "pulse_linear E = Inr as" and "distinct as" and "polls_known (visible s) as n"
  shows "(\<forall>a\<in>set as. \<forall>b\<in>set as. \<forall>i j. 0 \<le> i \<and> i < n a \<and> 0 \<le> j \<and> j < n b \<longrightarrow>
      (\<exists>x y. getIndexForPoll E a i s = (Inr x, s) \<and> getIndexForPoll E b j s = (Inr y, s) \<and>
        0 \<le> x \<and> x < sum_list (map n as) \<and> (x = y \<longleftrightarrow> a = b \<and> i = j))) \<and>
    (\<forall>x. 0 \<le> x \<and> x < sum_list (map n as) \<longrightarrow> (\<exists>a\<in>set as. \<exists>i. 0 \<le> i \<and> i < n a \<and> getIndexForPoll E a i s = (Inr x, s))) \<and>
    (\<forall>s' n'. polls_known (visible s') as n' \<longrightarrow> (\<forall>a\<in>set as. \<forall>i. \<exists>x. getIndexForPoll E a i s = (Inr x, s) \<and>
      getIndexForPoll E a i s' = (Inr (x + (\<Sum>c\<leftarrow>takeWhile (\<lambda>c. c \<noteq> a) as. n' c - n c)), s')))"
proof (intro conjI)
  note index = known_index [OF assms(1,2)]
  have nonneg: "\<forall>x\<in>set as. 0 \<le> n x" using assms(4) by (simp add: polls_known_def)
  show "\<forall>a\<in>set as. \<forall>b\<in>set as. \<forall>i j. 0 \<le> i \<and> i < n a \<and> 0 \<le> j \<and> j < n b \<longrightarrow>
      (\<exists>x y. getIndexForPoll E a i s = (Inr x, s) \<and> getIndexForPoll E b j s = (Inr y, s) \<and>
        0 \<le> x \<and> x < sum_list (map n as) \<and> (x = y \<longleftrightarrow> a = b \<and> i = j))"
  proof (intro ballI allI impI)
    fix a b i j assume ab: "a \<in> set as" "b \<in> set as" and ij: "0 \<le> i \<and> i < n a \<and> 0 \<le> j \<and> j < n b"
    have "items_before n as a + i = items_before n as b + j \<longleftrightarrow> a = b \<and> i = j"
      using items_before_apart [OF nonneg ab] ij by (cases "a = b") auto
    then show "\<exists>x y. getIndexForPoll E a i s = (Inr x, s) \<and> getIndexForPoll E b j s = (Inr y, s) \<and>
        0 \<le> x \<and> x < sum_list (map n as) \<and> (x = y \<longleftrightarrow> a = b \<and> i = j)"
      using index [OF assms(4)] ab ij items_before_bound [OF nonneg ab(1)] by simp
  qed
  show "\<forall>x. 0 \<le> x \<and> x < sum_list (map n as) \<longrightarrow> (\<exists>a\<in>set as. \<exists>i. 0 \<le> i \<and> i < n a \<and> getIndexForPoll E a i s = (Inr x, s))"
    using items_before_onto [OF nonneg _ _ assms(3)] index [OF assms(4)] by metis
  show "\<forall>s' n'. polls_known (visible s') as n' \<longrightarrow> (\<forall>a\<in>set as. \<forall>i. \<exists>x. getIndexForPoll E a i s = (Inr x, s) \<and>
      getIndexForPoll E a i s' = (Inr (x + (\<Sum>c\<leftarrow>takeWhile (\<lambda>c. c \<noteq> a) as. n' c - n c)), s'))"
    using index [OF assms(4)] index by (auto simp: items_before_def sum_list_subtractf)
qed


section \<open>Results of a poll\<close>

lemma foldl_bn_plus:
  "\<forall>i\<in>set is. bn_of_optional (f i) = bn_int (g i) \<Longrightarrow>
   foldl (\<lambda>tot i. bn_plus tot (bn_of_optional (f i))) (bn_int k) is = bn_int (k + sum_list (map g is))"
  by (induction "is" arbitrary: k) (auto simp: add.assoc)

lemma foldl_add_int: "foldl (+) (k :: int) xs = k + sum_list xs"
  by (induction xs arbitrary: k) (simp_all add: add.assoc)

text \<open>
  C35: the results of a poll account for every option and add up. If the contract gives a score for
  each option, the results list the options by number, each with its own score and the number of
  votes that the contract gives for it; the total of the votes is the sum of the votes listed and the
  total power is the exact sum of the scores.
\<close>

theorem poll_results_add_up:
  assumes "pabi_getPoll E sc pid s = (Inr poll, s1)"
    and "pir_voteScore poll = map show_int ns" "length ns = length (pir_options poll)"
    and "getPollResultsRaw E sc pid s = (Inr r, s')"
  shows "map optionId (pollResults r) = map int [0..<length (pir_options poll)] \<and>
    map pr_votingPower (pollResults r) = map Some (pir_voteScore poll) \<and>
    list_all (\<lambda>p. \<exists>t t'. pabi_getPollVotesCount E sc pid (optionId p) t = (Inr (nrVotes p), t')) (pollResults r) \<and>
    totalVotesCount r = sum_list (map nrVotes (pollResults r)) \<and>
    totalVotingPower r = show_int (sum_list ns)"
proof -
  obtain counts where counts: "promise_map (\<lambda>i. pabi_getPollVotesCount E sc pid (int i))
      [0..<length (pir_options poll)] s1 = (Inr counts, s')"
    and r: "r = results_of_poll (pir_voteScore poll) counts"
    using assms(1,4) by (auto simp: getPollResultsRaw_def elim!: mbind_InrE)
  note asked = promise_map_all2 [OF counts]
  have len: "length counts = length ns" using list_all2_lengthD [OF asked] assms(3) by simp
  have "foldl (\<lambda>tot i. bn_plus tot (bn_of_optional (nth_or_undefined (map show_int ns) i))) (bn_int 0) [0..<length ns]
      = bn_int (0 + sum_list (map (\<lambda>i. ns ! i) [0..<length ns]))"
    by (rule foldl_bn_plus) (auto simp: nth_or_undefined_def bn_of_optional_def)
  then have pw: "totalVotingPower r = show_int (sum_list ns)"
    using len by (simp add: r results_of_poll_def Let_def assms(2) map_nth)
  have votes: "list_all (\<lambda>p. \<exists>t t'. pabi_getPollVotesCount E sc pid (optionId p) t = (Inr (nrVotes p), t')) (pollResults r)"
    using asked len assms(3) by (auto simp: r results_of_poll_def Let_def list_all_iff list_all2_conv_all_nth)
  have scores: "map pr_votingPower (pollResults r) = map Some (pir_voteScore poll)"
    using len by (auto simp: r results_of_poll_def Let_def assms(2) nth_or_undefined_def intro!: nth_equalityI)
  have total: "totalVotesCount r = sum_list (map nrVotes (pollResults r))"
    by (simp add: r results_of_poll_def Let_def foldl_add_int comp_def map_nth)
  show ?thesis
    using pw votes scores total len assms(3) by (simp add: r results_of_poll_def Let_def comp_def)
qed


section \<open>A new idea\<close>

text \<open>
  What stands behind a request: the sender's entry in a tree whose root the contract gave, with a positive
  power, and the proof of the sender's entry in such a tree. The root hash is asked for twice, once for the
  power and once for the proof.
\<close>

definition backed :: "('x st) env \<Rightarrow> string \<Rightarrow> string \<Rightarrow> string option \<Rightarrow> string \<Rightarrow> bool" where
  "backed E sc sender pw bytes \<longleftrightarrow>
     (\<exists>r t leaf s s'. pulse_getRootHash E sc s = (Inr r, s') \<and> rooted E r t \<and> leaf \<in> set (mt_leaves t) \<and>
        av_address leaf = sender \<and> pw = pulse_smoothingFunction E sc (Some (av_balance leaf)) \<and>
        bn_gt (bn_of_optional pw) (bn_int 0)) \<and>
     (\<exists>r t leaf s s'. pulse_getRootHash E sc s = (Inr r, s') \<and> rooted E r t \<and> leaf \<in> set (mt_leaves t) \<and>
        av_address leaf = sender \<and> getProofBuffer E t (Some leaf) = Inr bytes)"

text \<open>Asking for the root hash and for the ideas leaves the table of trees alone.\<close>

definition pulse_untouched :: "('x st) env \<Rightarrow> string \<Rightarrow> bool" where
  "pulse_untouched E sc \<longleftrightarrow> files_quiet E \<and> keeps (snap.valid E) (pulse_getRootHash E sc) \<and> keeps (snap.valid E) (getIdeas E sc)"

lemma user_leaf_in: "getUserLeaf t u = Some leaf \<Longrightarrow> leaf \<in> set (mt_leaves t) \<and> av_address leaf = u"
  by (auto simp: getUserLeaf_def find_Some_iff)

lemma zero_power: "\<not> bn_gt (bn_of_optional (pulse_smoothingFunction E sc (Some ''0''))) (bn_int 0)"
proof -
  have zero: "bn_of_optional (Some ''0'') = bn_int 0" by code_simp
  obtain k where k: "bn_integerValue (bn_sqrt (bn_int 0)) = bn_int k" "0 \<le> k" "k * k - k < 0 \<or> k = 0"
    by (rule sqrt_integerValue [of 0]) auto
  have "k = 0"
  proof (rule ccontr)
    assume "k \<noteq> 0"
    with k(2) have "k * 1 \<le> k * k" by (intro mult_left_mono) auto
    with k(3) \<open>k \<noteq> 0\<close> show False by simp
  qed
  with k(1) have root: "bn_toFixed (bn_integerValue (bn_sqrt (bn_of_optional (Some ''0'')))) = bn_toFixed (bn_int 0)"
    by (simp only: zero)
  have whole: "bn_toFixed (bn_integerValue (bn_of_optional (Some ''0''))) = bn_toFixed (bn_int 0)" by code_simp
  have none: "\<not> bn_gt (bn_of_optional (Some ''0'')) (bn_int 0)" "\<not> bn_gt (bn_of_optional None) (bn_int 0)"
    by code_simp+
  show ?thesis
    by (cases "governanceSmoothingFunction E sc")
       (auto simp: pulse_smoothingFunction_def root whole none split: GovernanceSmoothingFunction.split simp del: pulse_smoothing)
qed

lemma power_certified:
  assumes "pulse_untouched E sc" and "governanceType E sc = Some PULSE" and "snap.valid E s"
    and "pulse_getUserVotingPower E sc sender s = (Inr pw, s')" and "bn_gt (bn_of_optional pw) (bn_int 0)"
  shows "snap.valid E s'" and "\<exists>r t leaf s s'. pulse_getRootHash E sc s = (Inr r, s') \<and> rooted E r t \<and> leaf \<in> set (mt_leaves t) \<and>
        av_address leaf = sender \<and> pw = pulse_smoothingFunction E sc (Some (av_balance leaf))"
proof -
  obtain r s1 t where 1: "pulse_getRootHash E sc s = (Inr r, s1)" "getMerkleTree E r s1 = (Inr t, s')"
    and pw: "pw = pulse_smoothingFunction E sc (Some (balance_of t sender))"
    using assms(2,4) by (auto simp: pulse_getUserVotingPower_def userQuorum_def snapshot_getAddressBalance_def elim!: mbind_InrE)
  have v: "snap.valid E s1" using assms(1,3) 1(1) unfolding pulse_untouched_def keeps_def by (metis snd_conv)
  then show "snap.valid E s'"
    using keeps_getMerkleTree [of E r] assms(1) 1(2) unfolding pulse_untouched_def keeps_def by (metis snd_conv)
  have "rooted E r t" using snap.get_good [OF v 1(2)] .
  moreover obtain leaf where "getUserLeaf t sender = Some leaf" "balance_of t sender = av_balance leaf"
    using pw assms(5) zero_power [of E sc] by (cases "getUserLeaf t sender") (auto simp: balance_of_def getUserLeaf_def getLeaves_def)
  ultimately show "\<exists>r t leaf s s'. pulse_getRootHash E sc s = (Inr r, s') \<and> rooted E r t \<and> leaf \<in> set (mt_leaves t) \<and>
        av_address leaf = sender \<and> pw = pulse_smoothingFunction E sc (Some (av_balance leaf))"
    using user_leaf_in [of t sender leaf] 1(1) pw by (intro exI [of _ r] exI [of _ t] exI [of _ leaf] exI [of _ s] exI [of _ s1]) simp
qed

lemma proof_certified:
  assumes "pulse_untouched E sc" and "snap.valid E s" and "pulse_getProof E sc sender s = (Inr bytes, s')"
  shows "\<exists>r t leaf s s'. pulse_getRootHash E sc s = (Inr r, s') \<and> rooted E r t \<and> leaf \<in> set (mt_leaves t) \<and>
        av_address leaf = sender \<and> getProofBuffer E t (Some leaf) = Inr bytes"
proof -
  obtain r s1 t where 1: "pulse_getRootHash E sc s = (Inr r, s1)" "getMerkleTree E r s1 = (Inr t, s')"
    and b: "getProofBuffer E t (getUserLeaf t sender) = Inr bytes"
    using assms(3) by (auto simp: pulse_getProof_def elim!: mbind_InrE)
  have v: "snap.valid E s1" using assms(1,2) 1(1) unfolding pulse_untouched_def keeps_def by (metis snd_conv)
  obtain leaf where leaf: "getUserLeaf t sender = Some leaf"
    using b by (cases "getUserLeaf t sender") (auto simp: getProofBuffer_def getProof_def)
  show ?thesis
    using user_leaf_in [OF leaf] snap.get_good [OF v 1(2)] 1(1) b leaf
    by (intro exI [of _ r] exI [of _ t] exI [of _ leaf] exI [of _ s] exI [of _ s1]) simp
qed



section \<open>Witnesses\<close>

text \<open>A contract with one poll of two options, one idea and one holder, \<open>aa\<close>, of five units.\<close>

definition pulse_answer :: "string \<Rightarrow> string \<Rightarrow> sc_arg list \<Rightarrow> (memory_state, jsval list) prog" where
  "pulse_answer sc func args = mret
     [if func = ''getPoll'' then
        JObj [(''initiator'', JAddr ''erdI''), (''question'', JStr ''q''), (''options'', JArr [JStr ''a'', JStr ''b'']),
              (''vote_score'', JArr [JNum (bn_int 3), JNum (bn_int 4)]), (''end_time'', JNum (bn_int 90)), (''status'', JBool True)]
      else if func = ''getProposal'' then
        JObj [(''initiator'', JAddr ''aa''), (''description'', JStr ''d''), (''vote_score'', JNum (bn_int 7)),
              (''propose_time'', JNum (bn_int 80))]
      else if func = ''getRootHash'' then JArr [JNum (bn_int 0x61), JNum (bn_int 0x61), JNum (bn_int 5)]
      else JNum (bn_int 1)]"

definition pulse_env :: "memory_state env" where
  "pulse_env = snap_env\<lparr>pulseQuery := pulse_answer, executeTx := \<lambda>snd i. Inr (tx_to snd (ce_contract i))\<rparr>"

lemma pulse_caching: "caching pulse_env store"
  by (rule memory_caching) (simp add: memory_cache_def pulse_env_def snap_env_def example_env_def memory_env_def)

lemma pulse_linear_run: "pulse_linear pulse_env = Inr [''erdD'']"
  by code_simp

text \<open>
  Two contracts, and two moments: the first contract has one poll and then two. The index 1 is first that of
  the only poll of the second contract and then that of the new poll.
\<close>

definition pulse_totals :: "int \<Rightarrow> memory_state" where
  "pulse_totals k = empty_memory\<lparr>store :=
     [getCacheKey ''pulse'' [KStr ''getTotalPolls'', KStr ''erdA''] \<mapsto> VNum k,
      getCacheKey ''pulse'' [KStr ''getTotalPolls'', KStr ''erdB''] \<mapsto> VNum 1]\<rparr>"

definition two_contracts :: "memory_state env" where
  "two_contracts = pulse_env\<lparr>governanceConfig := [(''pulse'', [(''linear'', [''erdA'', ''erdB''])])]\<rparr>"

lemma two_contracts_run: "pulse_linear two_contracts = Inr [''erdA'', ''erdB'']"
  by code_simp

lemma totals_known: "0 \<le> k \<Longrightarrow> polls_known (store (pulse_totals k)) [''erdA'', ''erdB''] (\<lambda>x. if x = ''erdA'' then k else 1)"
  by (simp add: polls_known_def pulse_totals_def getCacheKey_def cache_key_join)

lemma two_contracts_caching: "caching two_contracts store"
  by (rule memory_caching)
     (simp add: two_contracts_def memory_cache_def pulse_env_def snap_env_def example_env_def memory_env_def)

theorem poll_index_unique_witness:
  "\<exists>x y. getIndexForPoll two_contracts ''erdA'' 0 (pulse_totals 1) = (Inr x, pulse_totals 1) \<and>
     getIndexForPoll two_contracts ''erdB'' 0 (pulse_totals 1) = (Inr y, pulse_totals 1) \<and> 0 \<le> x \<and> x < 2 \<and> x \<noteq> y \<and>
     getIndexForPoll two_contracts ''erdB'' 0 (pulse_totals 2) = (Inr (y + 1), pulse_totals 2)"
proof -
  let ?n = "\<lambda>k x. if x = ''erdA'' then k else 1 :: int"
  have "distinct [''erdA'', ''erdB'']" by simp
  note unique = poll_index_unique [OF two_contracts_caching two_contracts_run this totals_known [of 1]]
  obtain x y where xy: "getIndexForPoll two_contracts ''erdA'' 0 (pulse_totals 1) = (Inr x, pulse_totals 1)"
      "getIndexForPoll two_contracts ''erdB'' 0 (pulse_totals 1) = (Inr y, pulse_totals 1)" "0 \<le> x" "x < 2" "x \<noteq> y"
    using unique [THEN conjunct1, rule_format, of "''erdA''" "''erdB''" 0 0] by auto
  have "\<exists>z. getIndexForPoll two_contracts ''erdB'' 0 (pulse_totals 1) = (Inr z, pulse_totals 1) \<and>
      getIndexForPoll two_contracts ''erdB'' 0 (pulse_totals 2) = (Inr (z + 1), pulse_totals 2)"
    using unique [THEN conjunct2, THEN conjunct2, rule_format, OF _ totals_known [of 2], of "''erdB''" 0] by auto
  with xy show ?thesis by auto
qed

lemma poll_index_reused:
  "fst (getIndexForPoll two_contracts ''erdB'' 0 (pulse_totals 1)) = Inr 1"
  "fst (getIndexForPoll two_contracts ''erdA'' 1 (pulse_totals 2)) = Inr 1"
  using known_index [OF two_contracts_caching two_contracts_run totals_known [of 1], of "''erdB''" 0]
    known_index [OF two_contracts_caching two_contracts_run totals_known [of 2], of "''erdA''" 1]
  by (simp_all add: items_before_def)

lemma poll_run:
  "result_of (mbind (pabi_getPoll pulse_env ''erdD'' 0) (\<lambda>p. mret (pir_voteScore p, length (pir_options p)))) empty_memory
     = Some ([''3'', ''4''], 2)"
  by code_simp

lemma results_run:
  "result_of (mbind (getPollResultsRaw pulse_env ''erdD'' 0) (\<lambda>r. mret (totalVotingPower r))) empty_memory = Some ''7''"
  by code_simp

theorem poll_results_add_up_witness:
  "\<exists>(poll :: poll_info_raw) (r :: poll_results). map optionId (pollResults r) = map int [0..<length (pir_options poll)] \<and>
    map pr_votingPower (pollResults r) = map Some (pir_voteScore poll) \<and>
    list_all (\<lambda>p. \<exists>t t'. pabi_getPollVotesCount pulse_env ''erdD'' 0 (optionId p) t = (Inr (nrVotes p), t')) (pollResults r) \<and>
    totalVotesCount r = sum_list (map nrVotes (pollResults r)) \<and>
    totalVotingPower r = show_int (sum_list [3, 4])"
proof -
  obtain poll s1 where poll: "pabi_getPoll pulse_env ''erdD'' 0 empty_memory = (Inr poll, s1)"
    and p: "(pir_voteScore poll, length (pir_options poll)) = ([''3'', ''4''], 2)"
    using result_of_SomeD [OF poll_run] by (elim exE mbind_InrE) simp
  obtain r s2 where r: "getPollResultsRaw pulse_env ''erdD'' 0 empty_memory = (Inr r, s2)"
    using result_of_SomeD [OF results_run] by (elim exE mbind_InrE) simp
  have "pir_voteScore poll = map show_int [3, 4]" "length [3, 4 :: int] = length (pir_options poll)"
    using p by (simp_all add: show_int_def show_nat.simps digit_chars)
  from poll_results_add_up [OF poll this r] show ?thesis by (intro exI)
qed

definition an_idea :: new_idea_args where
  "an_idea = \<lparr>ni_contractAddress = ''erdD'', ni_description = ''d'', ni_votingPower = None, ni_proof = None\<rparr>"

lemma idea_run:
  "result_of (mbind (pulse_newIdea pulse_env ''aa'' an_idea) (\<lambda>t. mret (tx_receiver t))) empty_memory = Some ''erdD''"
  by code_simp

lemma pulse_env_untouched: "pulse_untouched pulse_env ''erdD''"
proof -
  have k: "keeps (snap.valid pulse_env) (memory_getOrSet k f r l)" if "keeps (snap.valid pulse_env) f" for k f r l
    using that by (rule keeps_memory_getOrSet) (simp add: snap.valid_def)
  have get: "getOrSet pulse_env = memory_getOrSet"
    by (simp add: pulse_env_def snap_env_def example_env_def memory_env_def)
  have asked: "keeps (snap.valid pulse_env) (pulseQuery pulse_env c func as)" for c func as
    by (simp add: pulse_env_def pulse_answer_def)
  have "keeps (snap.valid pulse_env) (cached pulse_env key t c body)" if "keeps (snap.valid pulse_env) body"
    for key t and c :: "'c codec" and body
    unfolding cached_def get by (intro keeps_mbind k keeps_mret keeps_mlift that)
  note c = this
  have both: "keeps I m \<Longrightarrow> keeps I m' \<Longrightarrow> keeps I (promise_both m m')"
    for I and m :: "(memory_state, 'c) prog" and m' :: "(memory_state, 'd) prog"
    unfolding promise_both_def by (intro keeps_mbind keeps_mattempt keeps_mlift)
  have quiet: "files_quiet pulse_env" using snap_env_quiet by (simp add: files_quiet_def pulse_env_def)
  show ?thesis
    unfolding pulse_untouched_def pulse_getRootHash_def getIdeas_def getTotalIdeas_def getIdea_def GetOrSetCache_def getIdeaRaw_def
      pabi_getRootHash_def pabi_getTotalIdeas_def pabi_getIdea_def pabi_getIdeaVotesCount_def pulse_count_def pulse_ask_def
    by (auto intro!: quiet keeps_mbind keeps_promise_map both c asked split: prod.split)
qed


end
