(* ===== verification/Gov_Resolvers.thy ===== *)
theory Gov_Resolvers
  imports Gov_Pulse
begin

text \<open>
  The resolvers of the GraphQL schema, \<open>src/modules/governance/resolvers\<close>: fields of contracts and
  proposals, polls and ideas with their sorting and pages, and the queries that build transactions.
  The address of the authenticated user is an argument; the guard that finds it is in \<open>Gov_Auth\<close>.
  The decorators that describe the schema are not modelled.
\<close>

section \<open>Pages and sorting\<close>

text \<open>
  A page counts from the end of the list: an offset of 0 is the end. The offset and the limit are
  checked by the framework; the code clamps the start and refuses an offset beyond the list.
\<close>

definition page_window :: "pagination_args \<Rightarrow> 'a list \<Rightarrow> 'a list" where
  "page_window p xs =
     (let start = max (int (length xs) - offset p - limit p) 0;
          end_index = int (length xs) - offset p
      in if start < 0 \<or> end_index < 0 then [] else js_slice start end_index xs)"

definition reversed_page :: "pagination_args option \<Rightarrow> 'a list \<Rightarrow> 'a list" where
  "reversed_page pagination xs = (case pagination of None \<Rightarrow> xs | Some p \<Rightarrow> rev (page_window p xs))"

definition getPaginated :: "pagination_args option \<Rightarrow> 'a list \<Rightarrow> 'a list" where
  "getPaginated pagination xs = (case pagination of None \<Rightarrow> xs | Some p \<Rightarrow> page_window p xs)"

text \<open>
  \<open>sort\<close> with a comparison: a stable sort. (The standard leaves the result open for a comparison
  that is not one of a total preorder, which only scores that are no numbers would give.)
\<close>

fun insert_by :: "('a \<Rightarrow> 'a \<Rightarrow> int) \<Rightarrow> 'a \<Rightarrow> 'a list \<Rightarrow> 'a list" where
  "insert_by cmp x [] = [x]"
| "insert_by cmp x (y # ys) = (if cmp x y \<le> 0 then x # y # ys else y # insert_by cmp x ys)"

definition js_sort :: "('a \<Rightarrow> 'a \<Rightarrow> int) \<Rightarrow> 'a list \<Rightarrow> 'a list" where
  "js_sort cmp xs = foldr (insert_by cmp) xs []"

definition bn_isNegative :: "bn \<Rightarrow> bool" where
  "bn_isNegative x = (case x of BFin m k \<Rightarrow> m < 0 | BInf s \<Rightarrow> \<not> s | BNaN \<Rightarrow> False)"

definition idea_compare :: "sort_args \<Rightarrow> pulse_idea \<Rightarrow> pulse_idea \<Rightarrow> int" where
  "idea_compare args a b =
     (let compareValue =
            (case sortBy args of
               Some VOTING_POWER \<Rightarrow> bn_minus (bn_of_string (idea_totalVotingPower a)) (bn_of_string (idea_totalVotingPower b))
             | Some VOTES_NUMBER \<Rightarrow> bn_minus (bn_int (idea_totalVotesCount a)) (bn_int (idea_totalVotesCount b))
             | Some START_TIME \<Rightarrow> bn_minus (bn_int (ideaStartTime a)) (bn_int (ideaStartTime b))
             | None \<Rightarrow> bn_int 0);
          sign = (if bn_isZero compareValue then 0 else if bn_isNegative compareValue then - 1 else 1)
      in if order args = Some DESCENDING then - sign else sign)"

definition applySortForIdeas :: "sort_args option \<Rightarrow> pulse_idea list \<Rightarrow> pulse_idea list" where
  "applySortForIdeas sortArgs ideas =
     (case sortArgs of None \<Rightarrow> ideas | Some args \<Rightarrow> js_sort (idea_compare args) ideas)"


section \<open>GovernanceTokenSnapshotContractResolver and its heirs\<close>

text \<open>A method of the service that the factory chooses, where it has that method.\<close>

definition svc_votingPowerDecimals :: "('x st) env \<Rightarrow> string \<Rightarrow> ('x st, int) prog" where
  "svc_votingPowerDecimals E sc =
     (case userService E sc of
        Some TokenSnapshotService \<Rightarrow> ts_votingPowerDecimals E sc
      | Some EnergyService \<Rightarrow> ts_votingPowerDecimals E sc
      | Some OnChainService \<Rightarrow> ocs_votingPowerDecimals E sc
      | _ \<Rightarrow> mthrow TypeError)"

definition svc_feeToken :: "('x st) env \<Rightarrow> string \<Rightarrow> ('x st, esdt_token option) prog" where
  "svc_feeToken E sc =
     (if userService E sc \<in> {None, Some PulseService} then mthrow TypeError
      else if userService E sc = Some OnChainService then ocs_feeToken E sc else feeToken E sc)"

definition svc_userVote :: "('x st) env \<Rightarrow> string \<Rightarrow> int \<Rightarrow> string option \<Rightarrow> ('x st, vote_value) prog" where
  "svc_userVote E sc pid u =
     (case userService E sc of
        Some TokenSnapshotService \<Rightarrow> ts_userVote E sc pid u
      | Some EnergyService \<Rightarrow> ts_userVote E sc pid u
      | Some OnChainService \<Rightarrow> ocs_userVote E sc pid u
      | _ \<Rightarrow> mthrow TypeError)"

definition svc_userVotingPower :: "('x st) env \<Rightarrow> string \<Rightarrow> int \<Rightarrow> string \<Rightarrow> ('x st, string option) prog" where
  "svc_userVotingPower E sc pid u =
     (case userService E sc of
        Some TokenSnapshotService \<Rightarrow> ts_userVotingPower E sc pid u
      | Some EnergyService \<Rightarrow> energy_userVotingPower E sc pid u
      | Some OnChainService \<Rightarrow> mbind (ocs_userVotingPower E sc pid u) (\<lambda>x. mret (Some x))
      | _ \<Rightarrow> mthrow TypeError)"

definition res_shard :: "('x st) env \<Rightarrow> GovernanceUnion \<Rightarrow> ('x st, string) prog" where
  "res_shard E contract = abi_getAddressShardID E (address contract)"

definition res_minFeeForPropose :: "('x st) env \<Rightarrow> GovernanceUnion \<Rightarrow> ('x st, string) prog" where
  "res_minFeeForPropose E contract = abi_minFeeForPropose E (address contract)"

definition res_quorum :: "('x st) env \<Rightarrow> GovernanceUnion \<Rightarrow> ('x st, string) prog" where
  "res_quorum E contract = abi_quorum E (address contract)"

definition res_votingDelayInBlocks :: "('x st) env \<Rightarrow> GovernanceUnion \<Rightarrow> ('x st, int) prog" where
  "res_votingDelayInBlocks E contract = abi_votingDelayInBlocks E (address contract)"

definition res_votingPeriodInBlocks :: "('x st) env \<Rightarrow> GovernanceUnion \<Rightarrow> ('x st, int) prog" where
  "res_votingPeriodInBlocks E contract = abi_votingPeriodInBlocks E (address contract)"

definition res_feeToken :: "('x st) env \<Rightarrow> GovernanceUnion \<Rightarrow> ('x st, esdt_token option) prog" where
  "res_feeToken E contract = svc_feeToken E (address contract)"

definition res_withdrawPercentageDefeated :: "('x st) env \<Rightarrow> GovernanceUnion \<Rightarrow> ('x st, bn) prog" where
  "res_withdrawPercentageDefeated E contract = abi_withdrawPercentageDefeated E (address contract)"

definition res_votingPowerDecimals :: "('x st) env \<Rightarrow> GovernanceUnion \<Rightarrow> ('x st, int) prog" where
  "res_votingPowerDecimals E contract = svc_votingPowerDecimals E (address contract)"

text \<open>An id of 0 counts as absent, and this resolver ignores the page it is asked for.\<close>

definition res_proposals ::
  "('x st) env \<Rightarrow> GovernanceUnion \<Rightarrow> int option \<Rightarrow> pagination_args option \<Rightarrow> ('x st, governance_proposal list) prog" where
  "res_proposals E contract pid pagination =
     mbind (abi_proposals E (address contract)) (\<lambda>proposals.
       mret (case pid of
               Some n \<Rightarrow> if n \<noteq> 0 then filter (\<lambda>p. proposalId p = n) proposals else proposals
             | None \<Rightarrow> proposals))"

definition res_minEnergyForPropose :: "('x st) env \<Rightarrow> GovernanceUnion \<Rightarrow> ('x st, string) prog" where
  "res_minEnergyForPropose E contract = abi_minEnergyForPropose E (address contract)"

definition res_feesCollectorAddress :: "('x st) env \<Rightarrow> GovernanceUnion \<Rightarrow> ('x st, string) prog" where
  "res_feesCollectorAddress E contract = abi_feesCollectorAddress E (address contract)"

definition res_energyFactoryAddress :: "('x st) env \<Rightarrow> GovernanceUnion \<Rightarrow> ('x st, string) prog" where
  "res_energyFactoryAddress E contract = abi_energyFactoryAddress E (address contract)"

definition res_onchain_proposals ::
  "('x st) env \<Rightarrow> GovernanceUnion \<Rightarrow> int option \<Rightarrow> pagination_args option \<Rightarrow> ('x st, governance_proposal list) prog" where
  "res_onchain_proposals E contract pid pagination =
     mbind (abi_proposals E (address contract)) (\<lambda>proposals.
       mret (case pid of
               Some n \<Rightarrow> if n \<noteq> 0 then filter (\<lambda>p. proposalId p = n) proposals
                         else reversed_page pagination proposals
             | None \<Rightarrow> reversed_page pagination proposals))"

definition res_totalOnChainProposals :: "('x st) env \<Rightarrow> GovernanceUnion \<Rightarrow> ('x st, bn) prog" where
  "res_totalOnChainProposals E contract = with_onchain_abi E (address contract) (totalOnChainProposals E)"


section \<open>GovernancePulseContractResolver\<close>

definition res_pulse_shard :: "'s env \<Rightarrow> GovernanceUnion \<Rightarrow> ('s, string) prog" where
  "res_pulse_shard E contract = pulse_getContractShardId E (address contract)"

definition res_polls ::
  "'s env \<Rightarrow> GovernanceUnion \<Rightarrow> int option \<Rightarrow> pagination_args option \<Rightarrow> ('s, pulse_poll list) prog" where
  "res_polls E contract pid pagination =
     mbind (getPolls E (address contract)) (\<lambda>polls.
       mret (case pid of
               Some n \<Rightarrow> filter (\<lambda>poll. pollId poll = n) polls
             | None \<Rightarrow> reversed_page pagination polls))"

definition res_ideas ::
  "'s env \<Rightarrow> GovernanceUnion \<Rightarrow> int option \<Rightarrow> pagination_args option \<Rightarrow> sort_args option \<Rightarrow> ('s, pulse_idea list) prog" where
  "res_ideas E contract iid pagination sortArgs =
     mbind (getIdeas E (address contract)) (\<lambda>ideas.
       mret (case iid of
               Some n \<Rightarrow> filter (\<lambda>idea. ideaId idea = n) ideas
             | None \<Rightarrow> getPaginated pagination (applySortForIdeas sortArgs ideas)))"

definition res_pulse_rootHash :: "'s env \<Rightarrow> GovernanceUnion \<Rightarrow> ('s, string) prog" where
  "res_pulse_rootHash E contract = pulse_getRootHash E (address contract)"

definition res_totalPolls :: "'s env \<Rightarrow> GovernanceUnion \<Rightarrow> ('s, int) prog" where
  "res_totalPolls E contract = getTotalPolls E (address contract)"

definition res_totalIdeas :: "'s env \<Rightarrow> GovernanceUnion \<Rightarrow> ('s, int) prog" where
  "res_totalIdeas E contract = getTotalIdeas E (address contract)"

definition res_pulse_userVotingPower :: "('x st) env \<Rightarrow> string \<Rightarrow> GovernanceUnion \<Rightarrow> ('x st, string option) prog" where
  "res_pulse_userVotingPower E user contract = pulse_getUserVotingPower E (address contract) user"


section \<open>PulseAggregationResolver\<close>

text \<open>The query answers with an object without values; the resolver of each field computes it.\<close>

record pulse_aggregation =
  pa_polls :: "pulse_poll list option"
  pa_ideas :: "pulse_idea list option"
  pa_totalIdeas :: "int option"
  pa_totalPolls :: "int option"
  pa_latestContract :: "string option"
  pa_latestVotingPower :: "string option"

definition res_pulseAggregation :: pulse_aggregation where
  "res_pulseAggregation = \<lparr>pa_polls = None, pa_ideas = None, pa_totalIdeas = None, pa_totalPolls = None,
     pa_latestContract = None, pa_latestVotingPower = None\<rparr>"

definition agg_polls :: "'s env \<Rightarrow> int option \<Rightarrow> string option \<Rightarrow> ('s, pulse_poll list) prog" where
  "agg_polls E pid sc =
     mbind (mlift (pulse_linear E)) (\<lambda>scAddresses.
     mbind (promise_map (getPolls E) scAddresses) (\<lambda>lists.
       let allPolls = concat lists in
       mret (case (pid, sc) of
               (Some n, Some a) \<Rightarrow> filter (\<lambda>p. pollId p = n \<and> poll_contractAddress p = a) allPolls
             | _ \<Rightarrow> allPolls)))"

definition agg_ideas ::
  "'s env \<Rightarrow> int option \<Rightarrow> string option \<Rightarrow> pagination_args option \<Rightarrow> sort_args option \<Rightarrow> ('s, pulse_idea list) prog" where
  "agg_ideas E iid sc pagination sortArgs =
     mbind (mlift (pulse_linear E)) (\<lambda>scAddresses.
     mbind (promise_map (getIdeas E) scAddresses) (\<lambda>lists.
       let allIdeas = concat lists in
       mret (case (iid, sc) of
               (Some n, Some a) \<Rightarrow> filter (\<lambda>i. ideaId i = n \<and> idea_contractAddress i = a) allIdeas
             | _ \<Rightarrow> getPaginated pagination (applySortForIdeas sortArgs allIdeas))))"

definition agg_totalPolls :: "'s env \<Rightarrow> ('s, int) prog" where
  "agg_totalPolls E =
     mbind (mlift (pulse_linear E)) (\<lambda>scAddresses.
     mbind (promise_map (getTotalPolls E) scAddresses) (\<lambda>ns. mret (foldl (+) 0 ns)))"

definition agg_totalIdeas :: "'s env \<Rightarrow> ('s, int) prog" where
  "agg_totalIdeas E =
     mbind (mlift (pulse_linear E)) (\<lambda>scAddresses.
     mbind (promise_map (getTotalIdeas E) scAddresses) (\<lambda>ns. mret (foldl (+) 0 ns)))"

definition no_contracts :: exn where
  "no_contracts = BadRequestException ''NO CONTRACTS AVAILABLE''"

definition latestContract :: "'s env \<Rightarrow> exn + string" where
  "latestContract E =
     rbind (pulse_linear E) (\<lambda>scAddresses. if scAddresses \<noteq> [] then Inr (last scAddresses) else Inl no_contracts)"

definition latestVotingPower :: "('x st) env \<Rightarrow> string \<Rightarrow> ('x st, string option) prog" where
  "latestVotingPower E user =
     mbind (mlift (pulse_linear E)) (\<lambda>scAddresses.
       if scAddresses \<noteq> [] then pulse_getUserVotingPower E (last scAddresses) user else mthrow no_contracts)"


section \<open>PulsePollResolver and PulseIdeaResolver\<close>

text \<open>The fields that only read the model.\<close>

definition res_poll_pollId :: "pulse_poll \<Rightarrow> ('s, int) prog" where
  "res_poll_pollId poll = mret (pollId poll)"

definition res_poll_initiator :: "pulse_poll \<Rightarrow> ('s, string) prog" where
  "res_poll_initiator poll = mret (poll_initiator poll)"

definition res_poll_options :: "pulse_poll \<Rightarrow> ('s, string list) prog" where
  "res_poll_options poll = mret (poll_options poll)"

definition res_poll_question :: "pulse_poll \<Rightarrow> ('s, string) prog" where
  "res_poll_question poll = mret (poll_question poll)"

definition res_poll_contractAddress :: "pulse_poll \<Rightarrow> ('s, string) prog" where
  "res_poll_contractAddress poll = mret (poll_contractAddress poll)"

definition res_poll_status :: "pulse_poll \<Rightarrow> ('s, PollStatus) prog" where
  "res_poll_status poll = mret (poll_status poll)"

definition res_poll_pollEndTime :: "pulse_poll \<Rightarrow> ('s, int) prog" where
  "res_poll_pollEndTime poll = mret (pollEndTime poll)"

definition res_idea_ideaId :: "pulse_idea \<Rightarrow> ('s, int) prog" where
  "res_idea_ideaId idea = mret (ideaId idea)"

definition res_idea_initiator :: "pulse_idea \<Rightarrow> ('s, string) prog" where
  "res_idea_initiator idea = mret (idea_initiator idea)"

definition res_idea_description :: "pulse_idea \<Rightarrow> ('s, string) prog" where
  "res_idea_description idea = mret (idea_description idea)"

definition res_idea_contractAddress :: "pulse_idea \<Rightarrow> ('s, string) prog" where
  "res_idea_contractAddress idea = mret (idea_contractAddress idea)"

definition res_idea_ideaStartTime :: "pulse_idea \<Rightarrow> ('s, int) prog" where
  "res_idea_ideaStartTime idea = mret (ideaStartTime idea)"

definition res_idea_totalVotingPower :: "pulse_idea \<Rightarrow> ('s, string) prog" where
  "res_idea_totalVotingPower idea = mret (idea_totalVotingPower idea)"

definition res_idea_totalVotesCount :: "pulse_idea \<Rightarrow> ('s, int) prog" where
  "res_idea_totalVotesCount idea = mret (idea_totalVotesCount idea)"

text \<open>The fields that ask the service.\<close>

definition res_pollResults :: "'s env \<Rightarrow> pulse_poll \<Rightarrow> ('s, poll_results) prog" where
  "res_pollResults E poll = getPollResults E (poll_contractAddress poll) (pollId poll)"

definition res_poll_hasVoted :: "'s env \<Rightarrow> string \<Rightarrow> pulse_poll \<Rightarrow> ('s, bool) prog" where
  "res_poll_hasVoted E user poll = pulse_hasUserVoted E (poll_contractAddress poll) user (pollId poll)"

definition res_poll_userVotingOption :: "'s env \<Rightarrow> string \<Rightarrow> pulse_poll \<Rightarrow> ('s, bn) prog" where
  "res_poll_userVotingOption E user poll = getUserVotingOption E (poll_contractAddress poll) user (pollId poll)"

definition res_poll_userVotingPower :: "('x st) env \<Rightarrow> string \<Rightarrow> pulse_poll \<Rightarrow> ('x st, string option) prog" where
  "res_poll_userVotingPower E user poll = pulse_getUserVotingPower E (poll_contractAddress poll) user"

definition res_poll_index :: "'s env \<Rightarrow> pulse_poll \<Rightarrow> ('s, int) prog" where
  "res_poll_index E poll = getIndexForPoll E (poll_contractAddress poll) (pollId poll)"

definition res_idea_hasVoted :: "'s env \<Rightarrow> string \<Rightarrow> pulse_idea \<Rightarrow> ('s, bool) prog" where
  "res_idea_hasVoted E user idea = pulse_hasUserVotedIdea E (idea_contractAddress idea) user (ideaId idea)"

definition res_idea_userVotingPower :: "('x st) env \<Rightarrow> string \<Rightarrow> pulse_idea \<Rightarrow> ('x st, string option) prog" where
  "res_idea_userVotingPower E user idea = pulse_getUserVotingPower E (idea_contractAddress idea) user"

definition res_idea_index :: "'s env \<Rightarrow> pulse_idea \<Rightarrow> ('s, int) prog" where
  "res_idea_index E idea = getIndexForIdea E (idea_contractAddress idea) (ideaId idea)"


section \<open>GovernanceProposalResolver\<close>

definition res_status :: "('x st) env \<Rightarrow> governance_proposal \<Rightarrow> ('x st, GovernanceProposalStatus option) prog" where
  "res_status E p = abi_proposalStatus E (contractAddress p) (proposalId p)"

definition res_rootHash :: "('x st) env \<Rightarrow> governance_proposal \<Rightarrow> ('x st, string) prog" where
  "res_rootHash E p = abi_proposalRootHash E (contractAddress p) (proposalId p)"

definition res_votes :: "('x st) env \<Rightarrow> governance_proposal \<Rightarrow> ('x st, proposal_votes) prog" where
  "res_votes E p = abi_proposalVotes E (contractAddress p) (proposalId p)"

definition res_hasVoted :: "('x st) env \<Rightarrow> string \<Rightarrow> governance_proposal \<Rightarrow> ('x st, bool) prog" where
  "res_hasVoted E user p =
     mbind (svc_userVote E (contractAddress p) (proposalId p) (Some user)) (\<lambda>userVoteType. mret (has_voted userVoteType))"

definition res_userVoteType :: "('x st) env \<Rightarrow> string \<Rightarrow> governance_proposal \<Rightarrow> ('x st, vote_value) prog" where
  "res_userVoteType E user p = svc_userVote E (contractAddress p) (proposalId p) (Some user)"

definition res_userVotingPower :: "('x st) env \<Rightarrow> string \<Rightarrow> governance_proposal \<Rightarrow> ('x st, string option) prog" where
  "res_userVotingPower E user p = svc_userVotingPower E (contractAddress p) (proposalId p) user"

text \<open>A request that only contracts listed under one type support.\<close>

definition supported_by :: "'s env \<Rightarrow> string \<Rightarrow> string \<Rightarrow> string \<Rightarrow> ('s, 'a) prog \<Rightarrow> ('s, 'a) prog" where
  "supported_by E ty sc refusal request =
     mbind (mlift (config_linear E ty)) (\<lambda>listed.
       if sc \<notin> set listed then mthrow (BadRequestException refusal) else request)"

text \<open>A method that only the service of on-chain contracts has.\<close>

definition with_onchain_service :: "'s env \<Rightarrow> string \<Rightarrow> ('s, 'a) prog \<Rightarrow> ('s, 'a) prog" where
  "with_onchain_service E sc m = (if userService E sc = Some OnChainService then m else mthrow TypeError)"

definition res_delegateUserVotingPowers ::
  "('x st) env \<Rightarrow> string \<Rightarrow> governance_proposal \<Rightarrow> ('x st, delegate_user_voting_power list) prog" where
  "res_delegateUserVotingPowers E user p =
     supported_by E ''onChain'' (contractAddress p)
       ''Delegate user voting powers is supported only by on-chain governance contract !''
       (with_onchain_service E (contractAddress p)
         (ocs_delegateUserVotingPowers E (contractAddress p) user (proposalId p)))"

definition res_userVotingPowerDirect :: "('x st) env \<Rightarrow> string \<Rightarrow> governance_proposal \<Rightarrow> ('x st, string) prog" where
  "res_userVotingPowerDirect E user p =
     supported_by E ''onChain'' (contractAddress p)
       ''User voting power direct is supported only by on-chain governance contract !''
       (with_onchain_service E (contractAddress p)
         (ocs_userVotingPowerDirect E (contractAddress p) (proposalId p) user))"

definition res_excludedAddresses :: "('x st) env \<Rightarrow> governance_proposal \<Rightarrow> ('x st, excluded_address_item list) prog" where
  "res_excludedAddresses E p =
     supported_by E ''onChain'' (contractAddress p)
       ''Excluded addresses is supported only by on-chain governance contract !''
       (with_onchain_service E (contractAddress p) (ocs_excludedAddresses E (contractAddress p) (proposalId p)))"


section \<open>GovernanceTransactionService\<close>

definition res_allVotes :: "('x st) env \<Rightarrow> string \<Rightarrow> vote_args \<Rightarrow> ('x st, transaction_model list) prog" where
  "res_allVotes E user args =
     supported_by E ''onChain'' (va_contractAddress args) ''Vote v2 is supported only by on-chain governance contract !''
       (with_onchain_abi E (va_contractAddress args) (oc_vote E user args))"

definition res_createProposal :: "'s env \<Rightarrow> string \<Rightarrow> create_proposal_args \<Rightarrow> ('s, transaction_model) prog" where
  "res_createProposal E user args =
     supported_by E ''onChain'' (cp_contractAddress args)
       ''Create proposal is supported only by on-chain governance contract !''
       (with_onchain_abi E (cp_contractAddress args) (oc_createProposal E user args))"

definition res_closeProposal :: "'s env \<Rightarrow> string \<Rightarrow> string \<Rightarrow> int \<Rightarrow> ('s, transaction_model) prog" where
  "res_closeProposal E user sc pid =
     supported_by E ''onChain'' sc ''Close proposal is supported only by on-chain governance contract !''
       (with_onchain_abi E sc (oc_closeProposal E user pid))"

text \<open>
  \<open>vote\<close> answers with what the chosen service returns: one transaction, or the list of an on-chain
  contract. The first vote's service inherits the method of energy contracts.
\<close>

definition res_vote :: "('x st) env \<Rightarrow> string \<Rightarrow> vote_args \<Rightarrow> ('x st, transaction_model + transaction_model list) prog" where
  "res_vote E user args =
     with_abi E (va_contractAddress args) (\<lambda>c. case c of
       EnergyAbi \<Rightarrow> mbind (energy_vote E ENERGY user args) (\<lambda>t. mret (Inl t))
     | TokenSnapshotAbi \<Rightarrow> mbind (ts_vote E TOKEN_SNAPSHOT user args) (\<lambda>t. mret (Inl t))
     | OldEnergyAbi \<Rightarrow> mbind (energy_vote E OLD_ENERGY user args) (\<lambda>t. mret (Inl t))
     | OnChainAbi \<Rightarrow> mbind (oc_vote E user args) (\<lambda>ts. mret (Inr ts)))"

definition res_createPoll :: "'s env \<Rightarrow> string \<Rightarrow> new_poll_args \<Rightarrow> ('s, transaction_model) prog" where
  "res_createPoll E user args =
     supported_by E ''pulse'' (np_contractAddress args) ''Open poll is supported only by pulse contract !''
       (mlift (pulse_newPoll E user args))"

definition res_endPoll :: "'s env \<Rightarrow> string \<Rightarrow> end_poll_args \<Rightarrow> ('s, transaction_model) prog" where
  "res_endPoll E user args =
     supported_by E ''pulse'' (ep_contractAddress args) ''End poll is supported only by pulse contract !''
       (mlift (pulse_endPoll E user args))"

definition res_votePoll :: "('x st) env \<Rightarrow> string \<Rightarrow> vote_poll_args \<Rightarrow> ('x st, transaction_model) prog" where
  "res_votePoll E user args =
     supported_by E ''pulse'' (vp_contractAddress args) ''Vote poll is supported only by pulse contract !''
       (pulse_votePoll E user args)"

definition res_createIdea :: "('x st) env \<Rightarrow> string \<Rightarrow> new_idea_args \<Rightarrow> ('x st, transaction_model) prog" where
  "res_createIdea E user args =
     supported_by E ''pulse'' (ni_contractAddress args) ''Create ideas is supported only by pulse contract !''
       (pulse_newIdea E user args)"

definition res_voteUpIdea :: "('x st) env \<Rightarrow> string \<Rightarrow> vote_up_idea_args \<Rightarrow> ('x st, transaction_model) prog" where
  "res_voteUpIdea E user args =
     supported_by E ''pulse'' (vi_contractAddress args) ''Vote poll is supported only by pulse contract !''
       (pulse_voteUpIdea E user args)"


section \<open>GovernanceQueryResolver and GithubResolver\<close>

definition res_governanceContracts :: "'s env \<Rightarrow> contracts_filters \<Rightarrow> exn + GovernanceUnion option list" where
  "res_governanceContracts E filters = getGovernanceContracts E filters"

definition res_githubProposals :: "('x st) env \<Rightarrow> ('x st, github_proposal list) prog" where
  "res_githubProposals E = getGithubProposalWithChainInfo E"


section \<open>Pages\<close>

lemma page_window_rev:
  assumes "0 \<le> offset p" "0 \<le> limit p"
  shows "rev (page_window p xs) = take (nat (limit p)) (drop (nat (offset p)) (rev xs))"
proof (cases "offset p \<le> int (length xs)")
  case True
  then obtain i where i: "offset p = int i" "i \<le> length xs"
    using assms(1) nonneg_int_cases [of "offset p"] by (metis of_nat_le_iff)
  obtain l where l: "limit p = int l" using assms(2) nonneg_int_cases [of "limit p"] by metis
  have a: "nat (max (int (length xs) - int i - int l) 0) = length xs - i - l" by simp
  have e: "nat (int (length xs) - int i) = length xs - i" by simp
  have "page_window p xs = take (length xs - i - (length xs - i - l)) (drop (length xs - i - l) xs)"
    using i js_slice_nonneg [of "max (int (length xs) - int i - int l) 0" "int (length xs) - int i" xs]
    by (simp add: page_window_def Let_def l a e)
  also have "\<dots> = drop (length xs - i - l) (take (length xs - i) xs)"
    by (simp add: drop_take)
  finally show ?thesis
    using i by (cases "i + l \<le> length xs") (auto simp: l rev_drop rev_take)
next
  case False
  then show ?thesis using assms(1) by (simp add: page_window_def Let_def)
qed

lemma pages_concat:
  "concat (map (\<lambda>k. take l (drop (k * l) ys)) [0..<m]) = take (m * l) ys"
  by (induction m) (simp_all add: take_add [symmetric] add.commute)

text \<open>
  C37: the pages of the on-chain proposals. Page k with n proposals each shows the proposals k\<cdot>n to
  k\<cdot>n + n - 1 of the list with the newest first, and is empty beyond its end; the pages 0 to m - 1
  together are the first m\<cdot>n of that list, so none is missed and none is shown twice.
\<close>

theorem proposal_pages:
  assumes "abi_proposals E (address contract) s = (Inr ps, s')"
  shows "\<exists>page. (\<forall>k. res_onchain_proposals E contract None (Some \<lparr>offset = int (k * n), limit = int n\<rparr>) s =
                      (Inr (page k), s')) \<and>
    (\<forall>k. page k = take n (drop (k * n) (rev ps))) \<and>
    (\<forall>m. concat (map page [0..<m]) = take (m * n) (rev ps))"
proof (intro exI conjI allI)
  let ?page = "\<lambda>k. take n (drop (k * n) (rev ps))"
  show "res_onchain_proposals E contract None (Some \<lparr>offset = int (k * n), limit = int n\<rparr>) s = (Inr (?page k), s')" for k
    using page_window_rev [of "\<lparr>offset = int (k * n), limit = int n\<rparr>" ps] assms
    by (simp add: res_onchain_proposals_def reversed_page_def nat_mult_distrib del: of_nat_mult)
  show "concat (map ?page [0..<m]) = take (m * n) (rev ps)" for m
    by (rule pages_concat)
qed simp

section \<open>Sorted ideas\<close>

lemma insert_by_key:
  "(\<And>b. b \<in> set ys \<Longrightarrow> cmp x b \<le> 0 \<longleftrightarrow> k x \<le> k b) \<Longrightarrow> insert_by cmp x ys = insort_key k x ys"
  by (induction ys) simp_all

lemma js_sort_key:
  "(\<And>a b. a \<in> set xs \<Longrightarrow> b \<in> set xs \<Longrightarrow> cmp a b \<le> 0 \<longleftrightarrow> k a \<le> (k b :: 'k :: linorder)) \<Longrightarrow>
   js_sort cmp xs = sort_key k xs"
proof (induction xs)
  case (Cons x xs)
  then have "js_sort cmp xs = sort_key k xs" by simp
  then have "js_sort cmp (x # xs) = insert_by cmp x (sort_key k xs)"
    by (simp add: js_sort_def)
  also have "\<dots> = insort_key k x (sort_key k xs)"
    by (rule insert_by_key) (use Cons.prems in simp)
  finally show ?case by simp
qed (simp add: js_sort_def)

text \<open>The number that a sort field compares; without a field all ideas are equal.\<close>

definition idea_key :: "SortType option \<Rightarrow> pulse_idea \<Rightarrow> int" where
  "idea_key f i = (case f of
      Some VOTING_POWER \<Rightarrow> the (parse_int (idea_totalVotingPower i))
    | Some VOTES_NUMBER \<Rightarrow> idea_totalVotesCount i
    | Some START_TIME \<Rightarrow> ideaStartTime i
    | None \<Rightarrow> 0)"

text \<open>The powers are what the contract gives: texts of integers.\<close>

definition powers_plain :: "pulse_idea list \<Rightarrow> bool" where
  "powers_plain ideas \<longleftrightarrow> (\<forall>i\<in>set ideas. \<exists>n. idea_totalVotingPower i = show_int n)"

definition sort_direction :: "sort_args \<Rightarrow> int" where
  "sort_direction args = (if order args = Some DESCENDING then - 1 else 1)"

lemma idea_compare_key:
  assumes "sortBy args = Some VOTING_POWER \<Longrightarrow> powers_plain ideas" "a \<in> set ideas" "b \<in> set ideas"
  shows "idea_compare args a b \<le> 0 \<longleftrightarrow>
    sort_direction args * idea_key (sortBy args) a \<le> sort_direction args * idea_key (sortBy args) b"
proof -
  define v where "v = idea_key (sortBy args) a - idea_key (sortBy args) b"
  have pw: "bn_of_string (idea_totalVotingPower i) = bn_int (the (parse_int (idea_totalVotingPower i)))"
    if "sortBy args = Some VOTING_POWER" "i \<in> set ideas" for i
    using assms(1) [OF that(1)] that(2) by (auto simp: powers_plain_def)
  have "idea_compare args a b = sort_direction args * (if v = 0 then 0 else if v < 0 then - 1 else 1)"
    using pw [OF _ assms(2)] pw [OF _ assms(3)]
    by (auto simp: idea_compare_def sort_direction_def Let_def idea_key_def v_def bn_isZero_def bn_isNegative_def bn_minus_def
        split: option.splits SortType.splits)
  then show ?thesis by (auto simp: v_def sort_direction_def)
qed

text \<open>
  Ideas are sorted by the number asked for, in the direction asked for, with ties left in the
  order of their ids. But pages are counted from the end of the list and not reversed: the first page
  of l ideas holds the last l of the sorted list, so in descending order it shows the ideas with the
  least, and every idea on it has at most the number of every idea that is not.
\<close>

theorem first_page_of_ideas:
  assumes "getIdeas E (address contract) s = (Inr ideas, s')"
    and "sortBy args = Some VOTING_POWER \<longrightarrow> powers_plain ideas"
  shows "\<exists>sorted_ideas. res_ideas E contract None None (Some args) s = (Inr sorted_ideas, s') \<and>
    sorted_ideas = sort_key (\<lambda>i. sort_direction args * idea_key (sortBy args) i) ideas \<and>
    (\<forall>l. \<exists>rest page. sorted_ideas = rest @ page \<and> length page = min l (length ideas) \<and>
       res_ideas E contract None (Some \<lparr>offset = 0, limit = int l\<rparr>) (Some args) s = (Inr page, s') \<and>
       (order args = Some DESCENDING \<longrightarrow>
          (\<forall>i\<in>set page. \<forall>j\<in>set rest. idea_key (sortBy args) i \<le> idea_key (sortBy args) j)))"
proof (intro exI conjI allI)
  let ?key = "\<lambda>i. sort_direction args * idea_key (sortBy args) i"
  let ?sorted = "sort_key ?key ideas"
  have sorted_eq: "applySortForIdeas (Some args) ideas = ?sorted"
    using js_sort_key [of ideas "idea_compare args" ?key] idea_compare_key [OF assms(2) [rule_format]]
    by (simp add: applySortForIdeas_def)
  show "res_ideas E contract None None (Some args) s = (Inr ?sorted, s')"
    using assms(1) by (simp add: res_ideas_def getPaginated_def sorted_eq)
  show "?sorted = ?sorted" ..
  fix l
  let ?k = "length ideas - l"
  show "?sorted = take ?k ?sorted @ drop ?k ?sorted" by simp
  show "length (drop ?k ?sorted) = min l (length ideas)" by simp
  have "rev (page_window \<lparr>offset = 0, limit = int l\<rparr> ?sorted) = rev (drop ?k ?sorted)"
    by (subst page_window_rev; cases "l \<le> length ideas") (auto simp: rev_drop)
  then show "res_ideas E contract None (Some \<lparr>offset = 0, limit = int l\<rparr>) (Some args) s = (Inr (drop ?k ?sorted), s')"
    using assms(1) by (simp add: res_ideas_def getPaginated_def sorted_eq)
  have "sorted (map ?key (take ?k ?sorted @ drop ?k ?sorted))" by simp
  then have "\<forall>j\<in>set (take ?k ?sorted). \<forall>i\<in>set (drop ?k ?sorted). ?key j \<le> ?key i"
    unfolding map_append sorted_append by (auto simp del: append_take_drop_id)
  then show "order args = Some DESCENDING \<longrightarrow>
      (\<forall>i\<in>set (drop ?k ?sorted). \<forall>j\<in>set (take ?k ?sorted). idea_key (sortBy args) i \<le> idea_key (sortBy args) j)"
    by (auto simp: sort_direction_def)
qed


section \<open>Requests reach the service they need\<close>

lemma linear_type:
  assumes "coherent_config E" "config_linear E (type_string ty) = Inr listed" "sc \<in> set listed"
  shows "governanceType E sc = Some ty"
proof -
  obtain sms where sms: "map_of (governanceConfig E) (type_string ty) = Some sms" "map_of sms ''linear'' = Some listed"
    using assms(2) by (auto simp: config_linear_def split: option.splits)
  then have "sc \<in> set (addresses_of sms)"
    using assms(3) by (force simp: addresses_of_def dest!: map_of_SomeD)
  then obtain sm where "find_contract sc (governanceConfig E) = Some (type_string ty, sm)"
    using find_contract_unique [of "governanceConfig E" "type_string ty" sms sc] assms(1) sms(1)
    by (auto simp: coherent_config_def dest: map_of_SomeD)
  then show ?thesis by (simp add: governanceType_def)
qed

lemma supported_by_onchain:
  assumes "coherent_config E" "config_linear E ''onChain'' = Inr listed"
  shows "supported_by E ''onChain'' sc refusal (with_onchain_abi E sc m) =
    (if sc \<in> set listed then m else mthrow (BadRequestException refusal))"
  using linear_type [of E ONCHAIN listed sc] assms
  by (intro ext) (simp add: supported_by_def with_onchain_abi_def with_abi_def useAbi_def)

text \<open>
  A request for on-chain contracts is served exactly for the contracts listed as such. For a
  configuration in which every address has one type, the three queries run the method of the on-chain
  service when the contract is listed, never another service's and never a missing one; for any other
  address they are refused as a bad request, before anything is read or written.
\<close>

theorem onchain_requests_dispatched:
  assumes "coherent_config E" and "config_linear E ''onChain'' = Inr listed"
  shows "res_allVotes E user va =
      (if va_contractAddress va \<in> set listed then oc_vote E user va
       else mthrow (BadRequestException ''Vote v2 is supported only by on-chain governance contract !'')) \<and>
    res_createProposal E user cp =
      (if cp_contractAddress cp \<in> set listed then oc_createProposal E user cp
       else mthrow (BadRequestException ''Create proposal is supported only by on-chain governance contract !'')) \<and>
    res_closeProposal E user sc pid =
      (if sc \<in> set listed then oc_closeProposal E user pid
       else mthrow (BadRequestException ''Close proposal is supported only by on-chain governance contract !''))"
  unfolding res_allVotes_def res_createProposal_def res_closeProposal_def
  by (intro conjI supported_by_onchain [OF assms])


section \<open>Witnesses\<close>

definition two_proposals :: "governance_proposal list" where
  "two_proposals = map (\<lambda>i. (GovernanceLKMEXProposal ''erdC'')\<lparr>proposalId := i\<rparr>) [1, 2]"

definition proposals_memory :: memory_state where
  "proposals_memory = empty_memory\<lparr>
     store := [generateCacheKeyFromParams [KStr ''governance'', KStr ''proposals'', KStr ''erdC''] \<mapsto> VProposals two_proposals]\<rparr>"

lemma proposals_cached:
  "abi_proposals example_env (address (GovernanceOnChainContract ''erdC'')) proposals_memory = (Inr two_proposals, proposals_memory)"
proof -
  have "useAbi example_env ''erdC'' = Some OnChainAbi" by code_simp
  then show ?thesis
    by (simp add: abi_proposals_def with_abi_def oc_proposals_def GetOrSetCache_def
        cached_hit [OF example_caching, of proposalsC] proposals_memory_def)
qed

theorem proposal_pages_witness:
  "\<exists>page. (\<forall>k. res_onchain_proposals example_env (GovernanceOnChainContract ''erdC'') None
       (Some \<lparr>offset = int (k * 1), limit = int 1\<rparr>) proposals_memory = (Inr (page k), proposals_memory)) \<and>
     map proposalId (page 0) = [2] \<and> map proposalId (page 1) = [1] \<and> page 2 = []"
proof -
  obtain page where
    p: "\<forall>k. res_onchain_proposals example_env (GovernanceOnChainContract ''erdC'') None
      (Some \<lparr>offset = int (k * 1), limit = int 1\<rparr>) proposals_memory = (Inr (page k), proposals_memory)"
    and t: "\<forall>k. page k = take 1 (drop (k * 1) (rev two_proposals))"
    using proposal_pages [OF proposals_cached, of 1] by (elim exE conjE)
  show ?thesis
    by (intro exI [of _ page] conjI p) (simp_all add: t two_proposals_def)
qed

theorem onchain_requests_dispatched_witness:
  "res_closeProposal example_env ''erdU'' ''erdB'' 1 =
     mthrow (BadRequestException ''Close proposal is supported only by on-chain governance contract !'') \<and>
   res_closeProposal example_env ''erdU'' ''erdC'' 1 = oc_closeProposal example_env ''erdU'' 1"
proof -
  have c: "coherent_config example_env" by (simp add: coherent_config_def example_config_def addresses_of_def)
  have l: "config_linear example_env ''onChain'' = Inr [''erdC'']" by code_simp
  show ?thesis
    using onchain_requests_dispatched [OF c l, of "''erdU''" _ _ "''erdB''" 1]
      onchain_requests_dispatched [OF c l, of "''erdU''" _ _ "''erdC''" 1] by simp
qed

definition by_votes :: sort_args where
  "by_votes = \<lparr>sortBy = Some VOTES_NUMBER, order = Some DESCENDING\<rparr>"

lemma ideas_run:
  "result_of (mbind (getIdeas pulse_env (address (GovernancePulseContract ''erdD''))) (\<lambda>is. mret (map ideaId is))) empty_memory = Some [0]"
  by code_simp

theorem first_page_of_ideas_witness:
  "\<exists>sorted_ideas s'. res_ideas pulse_env (GovernancePulseContract ''erdD'') None None (Some by_votes) empty_memory = (Inr sorted_ideas, s')"
proof -
  obtain ideas s' where i: "getIdeas pulse_env (address (GovernancePulseContract ''erdD'')) empty_memory = (Inr ideas, s')"
    using result_of_SomeD [OF ideas_run] by (elim exE mbind_InrE) simp
  have "sortBy by_votes = Some VOTING_POWER \<longrightarrow> powers_plain ideas" by (simp add: by_votes_def)
  from first_page_of_ideas [where args = by_votes, OF i this] show ?thesis
    by (elim exE conjE) (intro exI)
qed

end
