(* ===== verification/Gov_Events.thy ===== *)
theory Gov_Events
  imports Gov_Resolvers
begin

text \<open>
  The events of the blockchain: \<open>rabbitmq.consumer.ts\<close>, which chooses and rewrites the events of a
  block, and the handlers \<open>governance.handler.service.ts\<close>, \<open>governance.onchain.handler.service.ts\<close>,
  \<open>energy.handler.service.ts\<close> and \<open>pulse.handler.service.ts\<close>, which write into the cache what an event
  says, so that readers need not ask the chain. What the SDK reads from an event (its name, the
  topics of a vote, the entry of an energy event) is a parameter. A handler is checked against an
  abstract ballot: the tallies of the proposals and the votes of the users.
\<close>

section \<open>Events\<close>

text \<open>An event of the notifier; a topic may be missing.\<close>

record raw_event =
  re_address :: string
  re_identifier :: string
  re_topics :: "string option list"
  re_data :: "string option"

record block_events =
  be_events :: "raw_event list option"
  be_shardId :: "int option"

record vote_topics =
  vt_voter :: string
  vt_proposalId :: int
  vt_nrVotes :: bn
  vt_quorumUsed :: bn

text \<open>
  The event classes of the SDK: \<open>RawEvent.name\<close>, \<open>VoteEvent.getTopics\<close>, the caller and the new entry
  of an \<open>EnergyEvent\<close>, and the values of its enumeration of vote events.
\<close>

record event_sdk =
  eventName :: "raw_event \<Rightarrow> string"
  voteTopics :: "raw_event \<Rightarrow> exn + vote_topics"
  energyEvent :: "raw_event \<Rightarrow> exn + (string \<times> energy)"
  governanceEventNames :: "string list"

definition topic :: "nat \<Rightarrow> raw_event \<Rightarrow> string option" where
  "topic i ev = (if i < length (re_topics ev) then re_topics ev ! i else None)"


section \<open>GovernanceHandlerService\<close>

definition push_key :: "string \<Rightarrow> ('x st, unit) prog" where
  "push_key k = mmodify (\<lambda>s. s\<lparr>invalidatedKeys := invalidatedKeys s @ [k]\<rparr>)"

definition gov_deleteCacheKeys :: "('x st) env \<Rightarrow> ('x st, unit) prog" where
  "gov_deleteCacheKeys E =
     mbind (mget invalidatedKeys) (\<lambda>keys.
     mthen (publishKeys E ''deleteCacheKeys'' keys)
           (mmodify (\<lambda>s. s\<lparr>invalidatedKeys := []\<rparr>)))"

text \<open>The entry of a proposal is changed where it stands, or added at the end.\<close>

fun with_vote_type :: "int \<Rightarrow> VoteType \<Rightarrow> (int \<times> VoteType) list \<Rightarrow> (int \<times> VoteType) list" where
  "with_vote_type pid v [] = [(pid, v)]"
| "with_vote_type pid v ((p, w) # votes) =
     (if p = pid then (pid, v) # votes else (p, w) # with_vote_type pid v votes)"

definition increaseProposalVotes ::
  "('x st) env \<Rightarrow> event_sdk \<Rightarrow> raw_event \<Rightarrow> string \<Rightarrow> ('x st, proposal_votes) prog" where
  "increaseProposalVotes E X event voteType =
     mbind (mlift (voteTopics X event)) (\<lambda>topics.
     mbind (ts_proposalVotes E TOKEN_SNAPSHOT (re_address event) (vt_proposalId topics)) (\<lambda>votes.
       mret (increase_votes E voteType (vt_nrVotes topics) (vt_quorumUsed topics) votes)))"

definition handleGovernanceVoteEvent ::
  "('x st) env \<Rightarrow> event_sdk \<Rightarrow> raw_event \<Rightarrow> string \<Rightarrow> ('x st, unit) prog" where
  "handleGovernanceVoteEvent E X event voteType =
     mbind (mlift (voteTopics X event)) (\<lambda>topics.
     mbind (userVotedProposals E TOKEN_SNAPSHOT (re_address event) (vt_voter topics)) (\<lambda>voted.
     mbind (set_userVotedProposals E (re_address event) (vt_voter topics)
              (js_set (voted @ [vt_proposalId topics]))) (\<lambda>k1.
     mthen (push_key k1)
    (mbind (userVoteTypesForContract E (re_address event) (vt_voter topics)) (\<lambda>votes.
     mbind (set_userVoteTypesForContract E (re_address event) (vt_voter topics)
              (with_vote_type (vt_proposalId topics) (toVoteType E voteType) votes)) (\<lambda>k2.
     mthen (push_key k2)
    (mbind (increaseProposalVotes E X event voteType) (\<lambda>proposalVotes.
     mbind (set_proposalVotes E (re_address event) (vt_proposalId topics) proposalVotes) (\<lambda>k3.
     mthen (push_key k3)
    (mthen (gov_deleteCacheKeys E)
           (publishEvent E voteType)))))))))))"


section \<open>GovernanceOnChainHandlerService\<close>

text \<open>The first of the contracts' addresses; an array without one gives \<open>undefined\<close>.\<close>

definition first_address :: "'s env \<Rightarrow> GovernanceType \<Rightarrow> exn + string" where
  "first_address E ty =
     rbind (governanceContractsAddresses E (Some [type_string ty])) (\<lambda>as.
       Inr (case as of [] \<Rightarrow> ''undefined'' | a # _ \<Rightarrow> a))"

definition deleteCacheKeys :: "'s env \<Rightarrow> string list \<Rightarrow> ('s, unit) prog" where
  "deleteCacheKeys E keys = publishKeys E ''deleteCacheKeys'' keys"

definition handleOnChainGovernanceVoteEvent ::
  "('x st) env \<Rightarrow> event_sdk \<Rightarrow> raw_event \<Rightarrow> string \<Rightarrow> ('x st, unit) prog" where
  "handleOnChainGovernanceVoteEvent E X event voteType =
     mbind (mlift (voteTopics X event)) (\<lambda>topics.
     mbind (mlift (first_address E ONCHAIN)) (\<lambda>onChainScAddress.
     mbind (set_getUserVoteOnChain E (re_address event) (vt_voter topics) (vt_proposalId topics)
              (show_int (vote_number (toVoteType E voteType)))) (\<lambda>k1.
     mthen (deleteCacheKeys E [k1])
    (mbind (delegateUserVotingPowersRaw E onChainScAddress (vt_proposalId topics)) (\<lambda>powers.
     mbind (set_delegateUserVotingPowers E (vt_voter topics) (vt_proposalId topics) powers) (\<lambda>k2.
       deleteCacheKeys E [k2]))))))"


section \<open>EnergyHandler\<close>

text \<open>
  The deletions of one contract: its proposals and their statuses are read, and for each active one
  the deletion of the user's voting power is started; its outcome is awaited later.
\<close>

definition start_deletions ::
  "('x st) env \<Rightarrow> string \<Rightarrow> string \<Rightarrow> ('x st, (exn + string) list) prog" where
  "start_deletions E user addr =
     mbind (abi_proposals E addr) (\<lambda>proposals.
     mbind (promise_map (\<lambda>p. abi_proposalStatus E addr (proposalId p)) proposals) (\<lambda>statuses.
       mmap (\<lambda>(p, status). mattempt (deleteUserVotingPower E addr (proposalId p) user))
         (filter (\<lambda>(p, status). status = Some Active) (zip proposals statuses))))"

definition handleUpdateEnergy :: "('x st) env \<Rightarrow> event_sdk \<Rightarrow> raw_event \<Rightarrow> ('x st, unit) prog" where
  "handleUpdateEnergy E X event =
     mbind (mlift (energyEvent X event)) (\<lambda>(caller, newEnergyEntry).
     mbind (setEnergyEntryForUser E caller newEnergyEntry) (\<lambda>k.
     mbind (mlift (governanceContractsAddresses E (Some [type_string ENERGY]))) (\<lambda>addresses.
     mbind (mmap (start_deletions E caller) addresses) (\<lambda>started.
     mbind (mlift (settle (concat started))) (\<lambda>deletedKeys.
     mthen (deleteCacheKeys E (k # deletedKeys))
           (publishEvent E (ev_ENERGY_UPDATED E)))))))"


section \<open>PulseHandlerService\<close>

text \<open>
  A topic is decoded from base64, and a number is read from its bytes. A missing topic makes
  \<open>Buffer.from\<close> throw; one without bytes gives \<open>NaN\<close>.
\<close>

definition topic_bytes :: "nat \<Rightarrow> raw_event \<Rightarrow> exn + string" where
  "topic_bytes i ev = (case topic i ev of None \<Rightarrow> Inl TypeError | Some t \<Rightarrow> Inr (from_base64 t))"

definition topic_number :: "nat \<Rightarrow> raw_event \<Rightarrow> exn + int option" where
  "topic_number i ev =
     (if topic i ev = Some [] then Inr (Some 0)
      else rbind (topic_bytes i ev) (\<lambda>b. Inr (js_parseHex (to_hex b))))"

definition topic_user :: "'s env \<Rightarrow> raw_event \<Rightarrow> exn + string" where
  "topic_user E ev = rbind (topic_bytes 1 ev) (\<lambda>b. hexToBech32 E (to_hex b))"

text \<open>The setters of the pulse, called with an id that may be \<open>NaN\<close>.\<close>

definition number_key :: "int option \<Rightarrow> key_arg" where
  "number_key n = (case n of Some k \<Rightarrow> KNum k | None \<Rightarrow> KStr ''NaN'')"

definition put_pulse :: "'s env \<Rightarrow> string \<Rightarrow> string \<Rightarrow> string \<Rightarrow> int option \<Rightarrow> cval \<Rightarrow> ('s, string) prog" where
  "put_pulse E name sc user n v =
     setData E (getCacheKey ''pulse'' [KStr name, KStr sc, KStr user, number_key n]) v (ttl_ContractState E)"

definition poll_vote_update :: "'s env \<Rightarrow> raw_event \<Rightarrow> exn + ('s, string) prog" where
  "poll_vote_update E ev =
     rbind (topic_user E ev) (\<lambda>user. rbind (topic_number 2 ev) (\<lambda>pollId. rbind (topic_number 3 ev) (\<lambda>oid.
       Inr (put_pulse E ''getUserVotePulse'' (re_address ev) user pollId (VBn (bn_of_hex_arg oid))))))"

definition idea_vote_update :: "'s env \<Rightarrow> raw_event \<Rightarrow> exn + ('s, string) prog" where
  "idea_vote_update E ev =
     rbind (topic_user E ev) (\<lambda>user. rbind (topic_number 2 ev) (\<lambda>ideaId.
       Inr (put_pulse E ''hasUserVotedIdea'' (re_address ev) user ideaId (VBool True))))"

text \<open>The loop of both handlers: decode, start the write, await all of them, publish the keys.\<close>

definition apply_updates :: "'s env \<Rightarrow> (raw_event \<Rightarrow> exn + ('s, string) prog) \<Rightarrow> raw_event list \<Rightarrow> ('s, unit) prog" where
  "apply_updates E update events =
     mbind (mmap (\<lambda>ev. mbind (mlift (update ev)) mattempt) events) (\<lambda>promises.
     mbind (mlift (settle promises)) (\<lambda>userVoteCacheKeys. deleteCacheKeys E userVoteCacheKeys))"

definition handlePulseVoteIdeaEvents :: "'s env \<Rightarrow> raw_event list \<Rightarrow> ('s, unit) prog" where
  "handlePulseVoteIdeaEvents E events = apply_updates E (idea_vote_update E) events"

definition handlePulseVotePollEvents :: "'s env \<Rightarrow> raw_event list \<Rightarrow> ('s, unit) prog" where
  "handlePulseVotePollEvents E events = apply_updates E (poll_vote_update E) events"

definition handlePulseEvents :: "'s env \<Rightarrow> raw_event list \<Rightarrow> ('s, unit) prog" where
  "handlePulseEvents E events =
     mthen (handlePulseVotePollEvents E (filter (\<lambda>ev. re_identifier ev = ''vote_poll'') events))
           (handlePulseVoteIdeaEvents E (filter (\<lambda>ev. re_identifier ev = ''vote_up_proposal'') events))"

definition handleNewProposalEvent :: "'s env \<Rightarrow> raw_event \<Rightarrow> ('s, unit) prog" where
  "handleNewProposalEvent E ev = deleteCacheKeys E [''getTotalIdeas'']"


section \<open>RabbitMqConsumer\<close>

definition getFilterAddresses :: "'s env \<Rightarrow> exn + string list" where
  "getFilterAddresses E =
     rbind (governanceContractsAddresses E None) (\<lambda>as. Inr (as @ [simpleLockEnergy E]))"

definition isFilteredAddress :: "string list \<Rightarrow> string \<Rightarrow> bool" where
  "isFilteredAddress filterAddresses addr \<longleftrightarrow> addr \<in> set filterAddresses"

definition isOnChainGovernanceEvent :: "raw_event \<Rightarrow> string \<Rightarrow> bool" where
  "isOnChainGovernanceEvent event shardId \<longleftrightarrow>
     re_identifier event \<in> {''vote'', ''delegateVote''} \<and> shardId = ''4294967295''"

text \<open>The shard is looked at only for an event whose address is not filtered.\<close>

fun chosen_events :: "string list \<Rightarrow> int option \<Rightarrow> raw_event list \<Rightarrow> exn + raw_event list" where
  "chosen_events filterAddresses shard [] = Inr []"
| "chosen_events filterAddresses shard (ev # evs) =
     rbind (if isFilteredAddress filterAddresses (re_address ev) then Inr True
            else case shard of None \<Rightarrow> Inl TypeError
                 | Some n \<Rightarrow> Inr (isOnChainGovernanceEvent ev (show_int n))) (\<lambda>keep.
     rbind (chosen_events filterAddresses shard evs) (\<lambda>rest.
       Inr (if keep then ev # rest else rest)))"

text \<open>
  A vote on the chain is rewritten to the form of a contract's vote event: the voter comes second,
  which for a direct vote is the address of the event.
\<close>

definition rewritten :: "'s env \<Rightarrow> string list \<Rightarrow> raw_event \<Rightarrow> exn + raw_event" where
  "rewritten E filterAddresses ev =
     (if isFilteredAddress filterAddresses (re_address ev) then Inr ev
      else if re_identifier ev = ''delegateVote'' then
        Inr (ev\<lparr>re_topics := [topic 1 ev, topic 2 ev, topic 0 ev, topic 3 ev, topic 4 ev]\<rparr>)
      else if re_identifier ev = ''vote'' then
        rbind (addressHex E (re_address ev)) (\<lambda>hexAddress.
        rbind (onChain_linear_0 E) (\<lambda>sc.
          Inr (ev\<lparr>re_address := (case sc of Some a \<Rightarrow> a | None \<Rightarrow> ''undefined''),
                  re_topics := [topic 1 ev, Some (to_base64 (from_hex hexAddress)), topic 0 ev, topic 2 ev,
                                topic 3 ev]\<rparr>)))
      else Inr ev)"

definition onchain_event_names :: "string list" where
  "onchain_event_names = map onchain_event_string [OC_YES, OC_NO, OC_VETO, OC_ABSTAIN]"

text \<open>The switch on the name; the cases of the contracts' events come before those of the chain.\<close>

definition dispatch :: "('x st) env \<Rightarrow> event_sdk \<Rightarrow> raw_event \<Rightarrow> ('x st, unit) prog" where
  "dispatch E X ev =
     (let name = eventName X ev in
      if re_data ev = Some [] \<and> name \<notin> set (governanceEventNames X @ onchain_event_names) then mret ()
      else if name = ev_ENERGY_UPDATED E then handleUpdateEnergy E X ev
      else if name \<in> {ev_UP E, ev_DOWN E, ev_DOWN_VETO E, ev_ABSTAIN E}
        then handleGovernanceVoteEvent E X ev name
      else if name \<in> set onchain_event_names then handleOnChainGovernanceVoteEvent E X ev name
      else mret ())"

definition consumeEvents ::
  "('x st) env \<Rightarrow> event_sdk \<Rightarrow> string list \<Rightarrow> block_events \<Rightarrow> ('x st, unit) prog" where
  "consumeEvents E X filterAddresses rawEvents =
     (case be_events rawEvents of
        None \<Rightarrow> mret ()
      | Some evs \<Rightarrow>
          mbind (mlift (pulse_linear E)) (\<lambda>pulseScAddresses.
          let pulseEvents = filter (\<lambda>ev. re_address ev \<in> set pulseScAddresses) evs in
          mthen (mwhen (pulseEvents \<noteq> []) (handlePulseEvents E pulseEvents))
         (mbind (mlift (rbind (chosen_events filterAddresses (be_shardId rawEvents) evs)
                              (rmap (rewritten E filterAddresses)))) (\<lambda>events.
            mfold (\<lambda>_ ev. dispatch E X ev) () events))))"


section \<open>What the handlers read and write\<close>

context cached_entry
begin

lemma read_visible:
  assumes "caching E visible" and "visible s (key k) = Some (fst c a)"
  shows "get k s = (Inr a, s)"
proof -
  obtain t body where "get k = cached E (key k) t c body" using read_cached by blast
  then show ?thesis using cached_hit [OF assms(1) codec assms(2)] by simp
qed

lemma write_run:
  assumes "caching E visible"
  shows "\<exists>s'. put k a s = (Inr (key k), s') \<and> visible s' = (visible s)(key k \<mapsto> fst c a)"
  using write_visible [OF assms] by metis

end

definition tally_key :: "string \<Rightarrow> int \<Rightarrow> string" where
  "tally_key sc pid = getCacheKey ''governance'' [KStr ''proposalVotes'', KStr sc, KNum pid]"

definition voted_key :: "string \<Rightarrow> string \<Rightarrow> string" where
  "voted_key sc u = getCacheKey ''governance'' [KStr ''userVotedProposals'', KStr sc, KStr u]"

definition types_key :: "string \<Rightarrow> string \<Rightarrow> string" where
  "types_key sc u = getCacheKey ''governance'' [KStr ''userVoteTypesForContract'', KStr sc, KStr u]"

interpretation voted_entry: cached_entry E "\<lambda>(a, u). voted_key a u" numsC
    "\<lambda>(a, u). userVotedProposals E T a u" "\<lambda>(a, u). set_userVotedProposals E a u"
  for E :: "('x st) env" and T
  by unfold_locales
     (auto simp: userVotedProposals_def voted_key_def GetOrSetCache_def getCacheKey_def set_userVotedProposals_def simp del: split_paired_Ex)

interpretation tally_entry: cached_entry E "\<lambda>(a, p). tally_key a p" votesC
    "\<lambda>(a, p). ts_proposalVotes E T a p" "\<lambda>(a, p). set_proposalVotes E a p"
  for E :: "('x st) env" and T
  by unfold_locales
     (auto simp: ts_proposalVotes_def by_proposal_def tally_key_def GetOrSetCache_def getCacheKey_def set_proposalVotes_def simp del: split_paired_Ex)

interpretation types_entry: cached_entry E "\<lambda>(a, u). types_key a u" voteTypesC
    "\<lambda>(a, u). userVoteTypesForContract E a u" "\<lambda>(a, u). set_userVoteTypesForContract E a u"
  for E :: "('x st) env"
  by unfold_locales
     (auto simp: userVoteTypesForContract_def types_key_def GetOrSetCache_def getCacheKey_def set_userVoteTypesForContract_def simp del: split_paired_Ex)

text \<open>
  Publishing a message does not change what a reader of the cache finds, nor does the list of keys
  that the handler keeps.
\<close>

definition quiet :: "('x st) env \<Rightarrow> ('x st \<Rightarrow> string \<Rightarrow> cval option) \<Rightarrow> bool" where
  "quiet E visible \<longleftrightarrow>
     (\<forall>s c ks. \<exists>s'. publishKeys E c ks s = (Inr (), s') \<and> visible s' = visible s) \<and>
     (\<forall>s n. \<exists>s'. publishEvent E n s = (Inr (), s') \<and> visible s' = visible s) \<and>
     (\<forall>s ks. visible (s\<lparr>invalidatedKeys := ks\<rparr>) = visible s)"

lemma quiet_keys: "quiet E visible \<Longrightarrow> \<exists>s'. publishKeys E c ks s = (Inr (), s') \<and> visible s' = visible s"
  by (simp add: quiet_def)

lemma quiet_event: "quiet E visible \<Longrightarrow> \<exists>s'. publishEvent E n s = (Inr (), s') \<and> visible s' = visible s"
  by (simp add: quiet_def)

lemma quiet_push:
  "quiet E visible \<Longrightarrow> \<exists>s'. push_key k s = (Inr (), s') \<and> visible s' = visible s"
  by (simp add: quiet_def push_key_def)

lemma quiet_delete:
  assumes "quiet E visible"
  shows "\<exists>s'. gov_deleteCacheKeys E s = (Inr (), s') \<and> visible s' = visible s"
proof -
  obtain s1 where "publishKeys E ''deleteCacheKeys'' (invalidatedKeys s) s = (Inr (), s1)" "visible s1 = visible s"
    using quiet_keys [OF assms] by blast
  then show ?thesis using assms by (simp add: gov_deleteCacheKeys_def quiet_def)
qed

text \<open>A step of a handler that returns, followed by the rest of it.\<close>

lemma mbind_step:
  "\<exists>s1. m s = (Inr a, s1) \<and> visible s1 = V \<Longrightarrow>
   (\<And>s1. visible s1 = V \<Longrightarrow> \<exists>s'. f a s1 = (Inr b, s') \<and> visible s' = W) \<Longrightarrow>
   \<exists>s'. mbind m f s = (Inr b, s') \<and> visible s' = W"
  by auto

lemma mthen_step:
  "\<exists>s1. m s = (Inr a, s1) \<and> visible s1 = V \<Longrightarrow>
   (\<And>s1. visible s1 = V \<Longrightarrow> \<exists>s'. k s1 = (Inr b, s') \<and> visible s' = W) \<Longrightarrow>
   \<exists>s'. mthen m k s = (Inr b, s') \<and> visible s' = W"
  by auto

lemma map_of_with_vote_type: "map_of (with_vote_type pid v votes) = (map_of votes)(pid \<mapsto> v)"
  by (induction votes) auto


section \<open>Keys\<close>

lemma tally_key_neq [simp]:
  "tally_key a p \<noteq> voted_key b u" "tally_key a p \<noteq> types_key b u"
  "voted_key b u \<noteq> tally_key a p" "types_key b u \<noteq> tally_key a p"
  by (simp_all add: tally_key_def voted_key_def types_key_def getCacheKey_def cache_key_join)

lemma voted_key_neq [simp]: "voted_key a u \<noteq> types_key b w" "types_key b w \<noteq> voted_key a u"
  by (simp_all add: voted_key_def types_key_def getCacheKey_def cache_key_join)

definition plain :: "string \<Rightarrow> bool" where
  "plain a \<longleftrightarrow> CHR ''.'' \<notin> set a"

lemma plain_dotless [simp]: "dotless (KStr a) \<longleftrightarrow> plain a"
  by (simp add: dotless_def plain_def)

lemma tally_key_eq:
  assumes "plain a" "plain b"
  shows "tally_key a p = tally_key b q \<longleftrightarrow> a = b \<and> p = q"
proof
  assume "tally_key a p = tally_key b q"
  from cache_key_inj [OF this [unfolded tally_key_def getCacheKey_def]] assms
  show "a = b \<and> p = q" by (auto simp: plain_def dotless_def show_int_no_dot dest: show_int_inj)
qed simp

lemma voted_key_eq:
  assumes "plain a" "plain b" "plain u" "plain w"
  shows "voted_key a u = voted_key b w \<longleftrightarrow> a = b \<and> u = w"
proof
  assume "voted_key a u = voted_key b w"
  from cache_key_inj [OF this [unfolded voted_key_def getCacheKey_def]] assms
  show "a = b \<and> u = w" by (auto simp: plain_def dotless_def)
qed simp

lemma types_key_eq:
  assumes "plain a" "plain b" "plain u" "plain w"
  shows "types_key a u = types_key b w \<longleftrightarrow> a = b \<and> u = w"
proof
  assume "types_key a u = types_key b w"
  from cache_key_inj [OF this [unfolded types_key_def getCacheKey_def]] assms
  show "a = b \<and> u = w" by (auto simp: plain_def dotless_def)
qed simp

section \<open>A vote event against the abstract ballot\<close>

lemma read_voted:
  "caching E visible \<Longrightarrow> visible s (voted_key sc u) = Some (VNums l) \<Longrightarrow> userVotedProposals E T sc u s = (Inr l, s)"
  using voted_entry.read_visible [where k = "(sc, u)" and a = l and s = s and T = T] by simp

lemma put_voted:
  fixes E :: "('x st) env"
  assumes "caching E visible"
  obtains s' where "set_userVotedProposals E sc u l s = (Inr (voted_key sc u), s')"
    "visible s' = (visible s)(voted_key sc u \<mapsto> VNums l)"
  using voted_entry.write_run [OF assms, where k = "(sc, u)" and a = l and s = s] by auto

lemma read_types:
  "caching (E :: ('x st) env) visible \<Longrightarrow> visible s (types_key sc u) = Some (VVoteTypes m) \<Longrightarrow> userVoteTypesForContract E sc u s = (Inr m, s)"
  using types_entry.read_visible [where k = "(sc, u)" and a = m and s = s] by simp

lemma put_types:
  fixes E :: "('x st) env"
  assumes "caching E visible"
  obtains s' where "set_userVoteTypesForContract E sc u m s = (Inr (types_key sc u), s')"
    "visible s' = (visible s)(types_key sc u \<mapsto> VVoteTypes m)"
  using types_entry.write_run [OF assms, where k = "(sc, u)" and a = m and s = s] by auto

lemma read_tally:
  "caching E visible \<Longrightarrow> visible s (tally_key sc p) = Some (VVotes t) \<Longrightarrow> ts_proposalVotes E T sc p s = (Inr t, s)"
  using tally_entry.read_visible [where k = "(sc, p)" and a = t and s = s and T = T] by simp

lemma put_tally:
  fixes E :: "('x st) env"
  assumes "caching E visible"
  obtains s' where "set_proposalVotes E sc p t s = (Inr (tally_key sc p), s')"
    "visible s' = (visible s)(tally_key sc p \<mapsto> VVotes t)"
  using tally_entry.write_run [OF assms, where k = "(sc, p)" and a = t and s = s] by auto

lemma vote_event_effect:
  assumes C: "caching E visible" and Q: "quiet E visible" and sc: "re_address event = sc"
    and ev: "voteTopics X event = Inr \<lparr>vt_voter = u, vt_proposalId = p, vt_nrVotes = n, vt_quorumUsed = q\<rparr>"
    and l: "visible s (voted_key sc u) = Some (VNums l)"
    and m: "visible s (types_key sc u) = Some (VVoteTypes m)"
    and t: "visible s (tally_key sc p) = Some (VVotes t)"
  shows "\<exists>s'. handleGovernanceVoteEvent E X event name s = (Inr (), s') \<and>
    visible s' = (visible s)(voted_key sc u \<mapsto> VNums (js_set (l @ [p])),
      types_key sc u \<mapsto> VVoteTypes (with_vote_type p (toVoteType E name) m),
      tally_key sc p \<mapsto> VVotes (increase_votes E name n q t))"
proof -
  note push = quiet_push [OF Q]
  obtain s1 where 1: "set_userVotedProposals E sc u (js_set (l @ [p])) s = (Inr (voted_key sc u), s1)"
    "visible s1 = (visible s)(voted_key sc u \<mapsto> VNums (js_set (l @ [p])))" by (rule put_voted [OF C])
  obtain s2 where 2: "push_key (voted_key sc u) s1 = (Inr (), s2)" "visible s2 = visible s1" using push by blast
  have r2: "userVoteTypesForContract E sc u s2 = (Inr m, s2)" by (rule read_types [OF C]) (simp add: 1 2 m)
  let ?m = "with_vote_type p (toVoteType E name) m"
  obtain s3 where 3: "set_userVoteTypesForContract E sc u ?m s2 = (Inr (types_key sc u), s3)"
    "visible s3 = (visible s2)(types_key sc u \<mapsto> VVoteTypes ?m)" by (rule put_types [OF C])
  obtain s4 where 4: "push_key (types_key sc u) s3 = (Inr (), s4)" "visible s4 = visible s3" using push by blast
  have r4: "ts_proposalVotes E TOKEN_SNAPSHOT sc p s4 = (Inr t, s4)" by (rule read_tally [OF C]) (simp add: 1 2 3 4 t)
  let ?t = "increase_votes E name n q t"
  obtain s5 where 5: "set_proposalVotes E sc p ?t s4 = (Inr (tally_key sc p), s5)"
    "visible s5 = (visible s4)(tally_key sc p \<mapsto> VVotes ?t)" by (rule put_tally [OF C])
  obtain s6 where 6: "push_key (tally_key sc p) s5 = (Inr (), s6)" "visible s6 = visible s5" using push by blast
  obtain s7 where 7: "gov_deleteCacheKeys E s6 = (Inr (), s7)" "visible s7 = visible s6" using quiet_delete [OF Q] by blast
  obtain s8 where 8: "publishEvent E name s7 = (Inr (), s8)" "visible s8 = visible s7" using quiet_event [OF Q] by blast
  have "handleGovernanceVoteEvent E X event name s = (Inr (), s8)"
    by (simp add: handleGovernanceVoteEvent_def increaseProposalVotes_def ev sc read_voted [OF C l] r2 r4
        1(1) 2(1) 3(1) 4(1) 5(1) 6(1) 7(1) 8(1))
  then show ?thesis by (simp add: 1(2) 2(2) 3(2) 4(2) 5(2) 6(2) 7(2) 8(2))
qed

text \<open>
  The ballot: the tally of a proposal, the set of the proposals that a user voted for, and the kinds
  of the user's votes. What it leaves open is not in the cache.
\<close>

record ballot =
  tallies :: "string \<times> int \<Rightarrow> tally option"
  voted_for :: "string \<times> string \<Rightarrow> int set option"
  votes_cast :: "string \<times> string \<Rightarrow> (int \<Rightarrow> VoteType option) option"

record cast =
  c_contract :: string
  c_voter :: string
  c_proposal :: int
  c_kind :: VoteType
  c_votes :: int
  c_quorum :: int

definition cast_on :: "ballot \<Rightarrow> cast \<Rightarrow> ballot" where
  "cast_on b c =
     (let tk = (c_contract c, c_proposal c); uk = (c_contract c, c_voter c) in
      b\<lparr>tallies := (tallies b)(tk := map_option (t_add (c_kind c) (c_votes c) (c_quorum c)) (tallies b tk)),
        voted_for := (voted_for b)(uk := map_option (insert (c_proposal c)) (voted_for b uk)),
        votes_cast := (votes_cast b)(uk := map_option (\<lambda>f. f(c_proposal c \<mapsto> c_kind c)) (votes_cast b uk))\<rparr>)"

definition represents :: "(string \<Rightarrow> cval option) \<Rightarrow> ballot \<Rightarrow> bool" where
  "represents V b \<longleftrightarrow>
     (\<forall>sc p t. tallies b (sc, p) = Some t \<longrightarrow>
        plain sc \<and> 0 \<le> t_total t \<and> V (tally_key sc p) = Some (VVotes (votes_of t))) \<and>
     (\<forall>sc u S. voted_for b (sc, u) = Some S \<longrightarrow>
        plain sc \<and> plain u \<and> (\<exists>l. set l = S \<and> V (voted_key sc u) = Some (VNums l))) \<and>
     (\<forall>sc u f. votes_cast b (sc, u) = Some f \<longrightarrow>
        plain sc \<and> plain u \<and> (\<exists>l. map_of l = f \<and> V (types_key sc u) = Some (VVoteTypes l)))"

text \<open>An event is of a vote when its topics are, and its entries are in the ballot.\<close>

definition event_casts :: "('x st) env \<Rightarrow> event_sdk \<Rightarrow> raw_event \<Rightarrow> cast \<Rightarrow> bool" where
  "event_casts E X event c \<longleftrightarrow>
     re_address event = c_contract c \<and> event_votes E (eventName X event) \<and>
     c_kind c = toVoteType E (eventName X event) \<and> 0 < c_votes c \<and>
     voteTopics X event = Inr \<lparr>vt_voter = c_voter c, vt_proposalId = c_proposal c,
       vt_nrVotes = bn_int (c_votes c), vt_quorumUsed = bn_int (c_quorum c)\<rparr>"

definition covers :: "ballot \<Rightarrow> cast \<Rightarrow> bool" where
  "covers b c \<longleftrightarrow> tallies b (c_contract c, c_proposal c) \<noteq> None \<and>
     voted_for b (c_contract c, c_voter c) \<noteq> None \<and> votes_cast b (c_contract c, c_voter c) \<noteq> None"

lemma covers_cast [simp]: "covers (cast_on b c) d \<longleftrightarrow> covers b d"
  by (auto simp: covers_def cast_on_def Let_def)


lemma representsD:
  assumes "represents V b" and "covers b c"
  obtains t l m where "tallies b (c_contract c, c_proposal c) = Some t" "0 \<le> t_total t"
      "V (tally_key (c_contract c) (c_proposal c)) = Some (VVotes (votes_of t))"
      "V (voted_key (c_contract c) (c_voter c)) = Some (VNums l)"
      "V (types_key (c_contract c) (c_voter c)) = Some (VVoteTypes m)"
      "plain (c_contract c)" "plain (c_voter c)"
      "voted_for b (c_contract c, c_voter c) = Some (set l)"
      "votes_cast b (c_contract c, c_voter c) = Some (map_of m)"
proof -
  obtain t S f where b: "tallies b (c_contract c, c_proposal c) = Some t"
      "voted_for b (c_contract c, c_voter c) = Some S" "votes_cast b (c_contract c, c_voter c) = Some f"
    using assms(2) by (auto simp: covers_def)
  with assms(1) obtain l m where "set l = S" "map_of m = f"
      "V (voted_key (c_contract c) (c_voter c)) = Some (VNums l)"
      "V (types_key (c_contract c) (c_voter c)) = Some (VVoteTypes m)"
    unfolding represents_def by metis
  with b assms(1) show thesis by (intro that) (auto simp: represents_def)
qed

lemma represents_cast:
  assumes R: "represents V b" and k: "c_kind c \<noteq> NotVoted" and n: "0 < c_votes c"
    and plain: "plain (c_contract c)" "plain (c_voter c)"
    and t: "tallies b (c_contract c, c_proposal c) = Some t" "0 \<le> t_total t"
    and l: "voted_for b (c_contract c, c_voter c) = Some (set l)"
    and m: "votes_cast b (c_contract c, c_voter c) = Some (map_of m)"
  shows "represents
    (V(voted_key (c_contract c) (c_voter c) \<mapsto> VNums (js_set (l @ [c_proposal c])),
       types_key (c_contract c) (c_voter c) \<mapsto> VVoteTypes (with_vote_type (c_proposal c) (c_kind c) m),
       tally_key (c_contract c) (c_proposal c) \<mapsto> VVotes (votes_of (t_add (c_kind c) (c_votes c) (c_quorum c) t))))
    (cast_on b c)" (is "represents ?V ?b")
  unfolding represents_def
proof (intro conjI allI impI)
  note total = t_total_add [OF k, of "c_votes c" "c_quorum c" t]
  { fix sc p t' assume "tallies ?b (sc, p) = Some t'"
    then have "plain sc \<and> 0 \<le> t_total t' \<and> ?V (tally_key sc p) = Some (VVotes (votes_of t'))"
    proof (cases "sc = c_contract c \<and> p = c_proposal c")
      case True
      with \<open>tallies ?b (sc, p) = Some t'\<close> t n plain total show ?thesis
        by (auto simp: cast_on_def Let_def)
    next
      case False
      with \<open>tallies ?b (sc, p) = Some t'\<close> have "tallies b (sc, p) = Some t'" by (auto simp: cast_on_def Let_def)
      with R have "plain sc" "0 \<le> t_total t'" "V (tally_key sc p) = Some (VVotes (votes_of t'))"
        by (auto simp: represents_def)
      with False plain show ?thesis by (auto simp: tally_key_eq)
    qed }
  then show "tallies ?b (sc, p) = Some t' \<Longrightarrow> plain sc" "tallies ?b (sc, p) = Some t' \<Longrightarrow> 0 \<le> t_total t'"
    "tallies ?b (sc, p) = Some t' \<Longrightarrow> ?V (tally_key sc p) = Some (VVotes (votes_of t'))" for sc p t' by blast+
  { fix sc u S assume "voted_for ?b (sc, u) = Some S"
    then have "plain sc \<and> plain u \<and> (\<exists>l. set l = S \<and> ?V (voted_key sc u) = Some (VNums l))"
    proof (cases "sc = c_contract c \<and> u = c_voter c")
      case True
      with \<open>voted_for ?b (sc, u) = Some S\<close> l plain show ?thesis by (auto simp: cast_on_def Let_def)
    next
      case False
      with \<open>voted_for ?b (sc, u) = Some S\<close> have "voted_for b (sc, u) = Some S" by (auto simp: cast_on_def Let_def)
      with R have "plain sc" "plain u" "\<exists>l. set l = S \<and> V (voted_key sc u) = Some (VNums l)"
        by (auto simp: represents_def)
      with False plain show ?thesis by (auto simp: voted_key_eq)
    qed }
  then show "voted_for ?b (sc, u) = Some S \<Longrightarrow> plain sc" "voted_for ?b (sc, u) = Some S \<Longrightarrow> plain u"
    "voted_for ?b (sc, u) = Some S \<Longrightarrow> \<exists>l. set l = S \<and> ?V (voted_key sc u) = Some (VNums l)" for sc u S by blast+
  { fix sc u f assume "votes_cast ?b (sc, u) = Some f"
    then have "plain sc \<and> plain u \<and> (\<exists>l. map_of l = f \<and> ?V (types_key sc u) = Some (VVoteTypes l))"
    proof (cases "sc = c_contract c \<and> u = c_voter c")
      case True
      with \<open>votes_cast ?b (sc, u) = Some f\<close> m plain map_of_with_vote_type show ?thesis by (auto simp: cast_on_def Let_def)
    next
      case False
      with \<open>votes_cast ?b (sc, u) = Some f\<close> have "votes_cast b (sc, u) = Some f" by (auto simp: cast_on_def Let_def)
      with R have "plain sc" "plain u" "\<exists>l. map_of l = f \<and> V (types_key sc u) = Some (VVoteTypes l)"
        by (auto simp: represents_def)
      with False plain show ?thesis by (auto simp: types_key_eq)
    qed }
  then show "votes_cast ?b (sc, u) = Some f \<Longrightarrow> plain sc" "votes_cast ?b (sc, u) = Some f \<Longrightarrow> plain u"
    "votes_cast ?b (sc, u) = Some f \<Longrightarrow> \<exists>l. map_of l = f \<and> ?V (types_key sc u) = Some (VVoteTypes l)" for sc u f by blast+
qed

definition sdk_names :: "('x st) env \<Rightarrow> event_sdk \<Rightarrow> bool" where
  "sdk_names E X \<longleftrightarrow> event_names_ok E \<and> (\<forall>name. event_votes E name \<longrightarrow> name \<in> set (governanceEventNames X)) \<and>
     \<not> event_votes E (ev_ENERGY_UPDATED E)"

lemma event_kind:
  assumes "event_names_ok E" "event_votes E name"
  shows "toVoteType E name \<noteq> NotVoted"
  using assms(2) by (cases rule: event_votes_cases) (simp_all add: toVoteType_events [OF assms(1)])

lemma vote_event_step:
  assumes C: "caching E visible" and Q: "quiet E visible" and N: "sdk_names E X"
    and ev: "event_casts E X event c" and R: "represents (visible s) b" and cov: "covers b c"
  shows "\<exists>s'. dispatch E X event s = (Inr (), s') \<and> represents (visible s') (cast_on b c)"
proof -
  let ?name = "eventName X event"
  have e: "re_address event = c_contract c" "event_votes E ?name" "c_kind c = toVoteType E ?name" "0 < c_votes c"
    "voteTopics X event = Inr \<lparr>vt_voter = c_voter c, vt_proposalId = c_proposal c,
       vt_nrVotes = bn_int (c_votes c), vt_quorumUsed = bn_int (c_quorum c)\<rparr>"
    using ev by (auto simp: event_casts_def)
  have names: "event_names_ok E" "?name \<in> set (governanceEventNames X)" "?name \<noteq> ev_ENERGY_UPDATED E"
    using N e(2) by (auto simp: sdk_names_def)
  have d: "dispatch E X event = handleGovernanceVoteEvent E X event ?name"
    using e(2) names(2,3) by (simp add: dispatch_def Let_def event_votes_def)
  obtain t l m where b: "tallies b (c_contract c, c_proposal c) = Some t" "0 \<le> t_total t"
      "visible s (tally_key (c_contract c) (c_proposal c)) = Some (VVotes (votes_of t))"
      "visible s (voted_key (c_contract c) (c_voter c)) = Some (VNums l)"
      "visible s (types_key (c_contract c) (c_voter c)) = Some (VVoteTypes m)"
      "plain (c_contract c)" "plain (c_voter c)"
      "voted_for b (c_contract c, c_voter c) = Some (set l)"
      "votes_cast b (c_contract c, c_voter c) = Some (map_of m)"
    by (rule representsD [OF R cov])
  have "increase_votes E ?name (bn_int (c_votes c)) (bn_int (c_quorum c)) (votes_of t) =
      votes_of (t_add (c_kind c) (c_votes c) (c_quorum c) t)"
    using increase_votes_of [OF names(1) e(2)] b(2) e(3,4) by simp
  with vote_event_effect [OF C Q e(1) e(5) b(4,5,3), of ?name] e(3)
  obtain s' where "dispatch E X event s = (Inr (), s')"
    "visible s' = (visible s)(voted_key (c_contract c) (c_voter c) \<mapsto> VNums (js_set (l @ [c_proposal c])),
      types_key (c_contract c) (c_voter c) \<mapsto> VVoteTypes (with_vote_type (c_proposal c) (c_kind c) m),
      tally_key (c_contract c) (c_proposal c) \<mapsto> VVotes (votes_of (t_add (c_kind c) (c_votes c) (c_quorum c) t)))"
    unfolding d by auto
  moreover have "c_kind c \<noteq> NotVoted" using event_kind [OF names(1) e(2)] e(3) by simp
  ultimately show ?thesis using represents_cast [OF R _ e(4) b(6,7,1,2,8,9)] by metis
qed

lemma vote_events_fold:
  assumes "caching E visible" "quiet E visible" "sdk_names E X"
    and "list_all2 (event_casts E X) events cs" "represents (visible s) b" "\<forall>c\<in>set cs. covers b c"
  shows "\<exists>s'. mfold (\<lambda>_ ev. dispatch E X ev) () events s = (Inr (), s') \<and> represents (visible s') (foldl cast_on b cs)"
  using assms(4-)
proof (induction events cs arbitrary: s b rule: list_all2_induct)
  case (Cons ev events c cs)
  obtain s1 where 1: "dispatch E X ev s = (Inr (), s1)" "represents (visible s1) (cast_on b c)"
    using vote_event_step [OF assms(1-3) Cons.hyps(1) Cons.prems(1)] Cons.prems(2) by auto
  then show ?case using Cons.IH [OF 1(2)] Cons.prems(2) by simp
qed simp


lemma chosen_filtered:
  "\<forall>ev\<in>set events. re_address ev \<in> set filterAddresses \<Longrightarrow> chosen_events filterAddresses shard events = Inr events"
  by (induction events) (simp_all add: isFilteredAddress_def)

lemma rewritten_filtered:
  "\<forall>ev\<in>set events. re_address ev \<in> set filterAddresses \<Longrightarrow> rmap (rewritten E filterAddresses) events = Inr events"
  using rmap_Inr_map [of events "rewritten E filterAddresses" "\<lambda>ev. ev"] by (simp add: rewritten_def isFilteredAddress_def)

lemma block_of_votes:
  assumes "caching E visible" and "quiet E visible" and "sdk_names E X"
    and "be_events block = Some events" and "list_all2 (event_casts E X) events casts"
    and "\<forall>ev\<in>set events. re_address ev \<in> set filterAddresses"
    and "pulse_linear E = Inr pulse_contracts" and "\<forall>ev\<in>set events. re_address ev \<notin> set pulse_contracts"
    and "represents (visible s) b" and "\<forall>c\<in>set casts. covers b c"
  shows "\<exists>s'. consumeEvents E X filterAddresses block s = (Inr (), s') \<and> represents (visible s') (foldl cast_on b casts)"
proof -
  have "filter (\<lambda>ev. re_address ev \<in> set pulse_contracts) events = []"
    using assms(8) by (simp add: filter_empty_conv)
  then have "consumeEvents E X filterAddresses block s = mfold (\<lambda>_ ev. dispatch E X ev) () events s"
    using assms(4,7) chosen_filtered [OF assms(6)] rewritten_filtered [OF assms(6), of E]
    by (simp add: consumeEvents_def Let_def mthen_def)
  with vote_events_fold [OF assms(1-3,5,9,10)] show ?thesis by simp
qed

text \<open>
  C1: the handling of a block of vote events refines casting the votes on the abstract ballot. When
  the cache represents the ballot and the events are votes with a positive weight on contracts that
  the consumer listens to, the consumer returns, and afterwards the cache represents the ballot with
  these votes cast in the order of the block: no vote is lost or counted twice, tallies of other
  proposals and votes of other users are untouched, and the getter of a proposal's votes returns the
  object of its tally, totals and percentages included.
\<close>

theorem vote_events_refine:
  assumes "caching E visible" and "quiet E visible" and "sdk_names E X"
    and "be_events block = Some events" and "list_all2 (event_casts E X) events casts"
    and "\<forall>ev\<in>set events. re_address ev \<in> set filterAddresses"
    and "pulse_linear E = Inr pulse_contracts" and "\<forall>ev\<in>set events. re_address ev \<notin> set pulse_contracts"
    and "represents (visible s) b" and "\<forall>c\<in>set casts. covers b c"
  shows "\<exists>s'. consumeEvents E X filterAddresses block s = (Inr (), s') \<and>
    represents (visible s') (foldl cast_on b casts) \<and>
    (\<forall>sc p t. tallies (foldl cast_on b casts) (sc, p) = Some t \<longrightarrow>
       ts_proposalVotes E TOKEN_SNAPSHOT sc p s' = (Inr (votes_of t), s'))"
proof -
  obtain s' where s': "consumeEvents E X filterAddresses block s = (Inr (), s')"
      "represents (visible s') (foldl cast_on b casts)"
    using block_of_votes [OF assms] by blast
  moreover have "ts_proposalVotes E TOKEN_SNAPSHOT sc p s' = (Inr (votes_of t), s')"
    if "tallies (foldl cast_on b casts) (sc, p) = Some t" for sc p t
    using s'(2) that by (intro read_tally [OF assms(1)]) (simp add: represents_def)
  ultimately show ?thesis by blast
qed


section \<open>A vote on the chain\<close>

definition powers_key :: "string \<Rightarrow> int \<Rightarrow> string" where
  "powers_key u pid = getCacheKey ''governance'' [KStr ''delegateUserVotingPowers'', KStr u, KNum pid]"

definition onchain_vote_key :: "string \<Rightarrow> string \<Rightarrow> int \<Rightarrow> string" where
  "onchain_vote_key sc u pid = generateCacheKeyFromParams [KStr ''governance'', KStr ''getUserVoteOnChain'', KStr sc, KStr u, KNum pid]"

definition view_key :: "delegate_staking_provider \<Rightarrow> string \<Rightarrow> string" where
  "view_key p u = generateCacheKeyFromParams [KStr ''governance'', KStr ''viewUserVotingPower'', KObj (provider_json p), KStr u]"

lemma onchain_keys_apart:
  "onchain_vote_key sc u pid \<noteq> powers_key w q" "onchain_vote_key sc u pid \<noteq> view_key p w" "powers_key u pid \<noteq> view_key p w"
  by (simp_all add: onchain_vote_key_def powers_key_def view_key_def getCacheKey_def cache_key_join)

lemma onchain_vote_key_eq:
  assumes "plain a" "plain u" "plain b" "plain w"
  shows "onchain_vote_key a u p = onchain_vote_key b w q \<longleftrightarrow> (a, u, p) = (b, w, q)"
proof
  assume "onchain_vote_key a u p = onchain_vote_key b w q"
  from cache_key_inj [OF this [unfolded onchain_vote_key_def]] assms
  show "(a, u, p) = (b, w, q)" by (auto simp: plain_def dotless_def show_int_no_dot dest: show_int_inj)
qed simp

lemma powers_key_eq: "plain u \<Longrightarrow> plain w \<Longrightarrow> powers_key u p = powers_key w q \<longleftrightarrow> (u, p) = (w, q)"
proof
  assume a: "plain u" "plain w" and "powers_key u p = powers_key w q"
  from cache_key_inj [OF this(3) [unfolded powers_key_def getCacheKey_def]] a
  show "(u, p) = (w, q)" by (auto simp: plain_def dotless_def show_int_no_dot dest: show_int_inj)
qed simp

text \<open>
  What is known of an address that providers vote for: for each enabled provider, its vote is in the cache,
  and its power is in the cache for a legacy provider and in a loaded snapshot for a liquid one.
\<close>

definition provider_known ::
  "('x st \<Rightarrow> string \<Rightarrow> cval option) \<Rightarrow> string \<Rightarrow> int \<Rightarrow> (delegate_staking_provider \<Rightarrow> bn) \<Rightarrow>
   (delegate_staking_provider \<Rightarrow> vote_value) \<Rightarrow> 'x st \<Rightarrow> delegate_staking_provider \<Rightarrow> bool" where
  "provider_known visible a pid w v s p \<longleftrightarrow>
     (isEnabled p \<longrightarrow>
        visible s (onchain_vote_key (stakeScAddress p) a pid) = Some (fst voteC (v p)) \<and>
        (if is_liquid p
         then \<exists>t. providerTrees s (getMerkleTreeKeyForProvider (voteScAddress p) (show_int pid)) = Some t \<and> bn_of_string (balance_of t a) = w p
         else visible s (view_key p a) = Some (fst bnC (w p))))"

definition listed_entry ::
  "(delegate_staking_provider \<Rightarrow> bn) \<Rightarrow> (delegate_staking_provider \<Rightarrow> vote_value) \<Rightarrow> delegate_staking_provider \<Rightarrow> delegate_user_voting_power" where
  "listed_entry w v p =
     (let pw = bn_toString (if isEnabled p then w p else bn_of_string VOTE_POWER_FOR_NOT_IMPL);
          vote = (if isEnabled p then v p else VoteNum NotVoted)
      in \<lparr>du_providerName = providerName p, du_scAddress = voteScAddress p, du_lsTokenId = lsTokenId p,
          du_userVotingPower = (if pw = ''-1'' then VOTE_POWER_FOR_NOT_IMPL else pw),
          du_isEnabled = (if pw = ''-1'' then False else isEnabled p), du_hasVoted = has_voted vote, du_userVoteType = vote\<rparr>)"

text \<open>The snapshots are kept, their files can be reached, and no two providers share an address.\<close>

definition providers_settled :: "('x st) env \<Rightarrow> bool" where
  "providers_settled E \<longleftrightarrow>
     (\<forall>k v r l s. providerTrees (snd (cacheSet E k v r l s)) = providerTrees s) \<and>
     (\<forall>c ks s. providerTrees (snd (publishKeys E c ks s)) = providerTrees s) \<and>
     (\<forall>p s. fileAccess E p s = (Inr (), s)) \<and>
     (\<forall>p\<in>set (delegateStakingProviders E). getDelegateStakingProvider E (voteScAddress p) = Some p)"

lemma known_power:
  assumes "caching E visible" "providers_settled E" "p \<in> set (delegateStakingProviders E)" "provider_known visible a pid w v s p"
  shows "getUserVotingPowerFromDelegate E a (voteScAddress p) pid s =
    (Inr (if isEnabled p then w p else bn_of_string VOTE_POWER_FOR_NOT_IMPL), s)"
proof -
  have p: "required_provider E (voteScAddress p) = Inr p"
    using assms(2,3) by (simp add: required_provider_def providers_settled_def)
  consider "\<not> isEnabled p" | "isEnabled p" "is_liquid p" | "isEnabled p" "\<not> is_liquid p" by blast
  then show ?thesis
  proof cases
    case 2
    then obtain t where t: "providerTrees s (getMerkleTreeKeyForProvider (voteScAddress p) (show_int pid)) = Some t"
      "bn_of_string (balance_of t a) = w p" using assms(4) by (auto simp: provider_known_def)
    have reached: "fileAccess E x s = (Inr (), s)" for x using assms(2) by (simp add: providers_settled_def)
    have "provider_getAddressBalance E (voteScAddress p) (show_int pid) a s = (Inr (balance_of t a), s)"
      using t(1) by (simp add: provider_getAddressBalance_def fileExists_def reached getMerkleTreeForProvider_def mtry_def mbind_def
          mthen_def mget_def mret_def)
    then show ?thesis using 2 p t(2) by (simp add: getUserVotingPowerFromDelegate_def)
  next
    case 3
    then have "visible s (view_key p a) = Some (fst bnC (w p))" using assms(4) by (simp add: provider_known_def)
    from cached_hit [OF assms(1) _ this]
    have "viewUserVotingPower E p a s = (Inr (w p), s)"
      by (simp add: viewUserVotingPower_def GetOrSetCache_def view_key_def [symmetric])
    then show ?thesis using 3 p by (simp add: getUserVotingPowerFromDelegate_def)
  qed (simp add: getUserVotingPowerFromDelegate_def p)
qed

lemma known_powers:
  assumes "caching E visible" "providers_settled E" "\<forall>p\<in>set (delegateStakingProviders E). provider_known visible a pid w v s p"
  shows "delegateUserVotingPowersRaw E a pid s = (Inr (map (listed_entry w v) (delegateStakingProviders E)), s)"
proof -
  let ?ps = "delegateStakingProviders E" and ?w = "\<lambda>p. if isEnabled p then w p else bn_of_string VOTE_POWER_FOR_NOT_IMPL"
  have "promise_map (\<lambda>p. getUserVotingPowerFromDelegate E a (voteScAddress p) pid) ?ps s = (Inr (map ?w ?ps), s)"
    using known_power [OF assms(1,2)] assms(3) by (intro promise_all_pure) blast
  moreover have "promise_map (delegate_power E a pid) (zip ?ps (map ?w ?ps)) s = (Inr (map (\<lambda>x. listed_entry w v (fst x)) (zip ?ps (map ?w ?ps))), s)"
  proof (rule promise_all_pure)
    fix x assume "x \<in> set (zip ?ps (map ?w ?ps))"
    then obtain p where x: "x = (p, ?w p)" "p \<in> set ?ps" by (auto simp: set_zip)
    have "getUserVoteOnChain E (stakeScAddress p) a pid s = (Inr (v p), s)" if "isEnabled p"
    proof -
      have "visible s (onchain_vote_key (stakeScAddress p) a pid) = Some (fst voteC (v p))"
        using that assms(3) x(2) by (simp add: provider_known_def)
      from cached_hit [OF assms(1) _ this] show ?thesis
        by (simp add: getUserVoteOnChain_def GetOrSetCache_def onchain_vote_key_def [symmetric])
    qed
    then show "delegate_power E a pid x s = (Inr (listed_entry w v (fst x)), s)"
      by (simp add: x delegate_power_def listed_entry_def Let_def mtry_def mbind_def mret_def)
  qed
  ultimately show ?thesis
    by (simp add: delegateUserVotingPowersRaw_def getDelegateStakingProviders_def Let_def map_fst_zip [unfolded comp_def]
        map_map [symmetric, unfolded comp_def] del: map_map)
qed

text \<open>The writes of the handler leave what is known of the contract alone, unless the contract itself votes.\<close>

lemma known_kept:
  assumes "provider_known visible a pid w v s p" "providerTrees s' = providerTrees s"
    and "visible s' = (visible s)(onchain_vote_key b u q \<mapsto> x, powers_key u q \<mapsto> y)"
    and "u \<noteq> a" "plain a" "plain u" "plain b" "plain (stakeScAddress p)"
  shows "provider_known visible a pid w v s' p"
proof -
  have "onchain_vote_key (stakeScAddress p) a pid \<noteq> onchain_vote_key b u q" using assms(4-8) by (simp add: onchain_vote_key_eq)
  with assms(1,2) onchain_keys_apart show ?thesis
    by (auto simp: provider_known_def assms(3) onchain_keys_apart [THEN not_sym])
qed

lemma onchain_event_handled:
  assumes C: "caching E visible" and Q: "quiet E visible" and P: "providers_settled E"
    and ev: "voteTopics X event = Inr topics" and first: "first_address E ONCHAIN = Inr contract"
    and known: "\<forall>p\<in>set (delegateStakingProviders E). provider_known visible contract (vt_proposalId topics) w v s p"
    and plain: "vt_voter topics \<noteq> contract" "plain contract" "plain (vt_voter topics)" "plain (re_address event)"
      "\<forall>p\<in>set (delegateStakingProviders E). plain (stakeScAddress p)"
  shows "\<exists>s' x. handleOnChainGovernanceVoteEvent E X event name s = (Inr (), s') \<and> providerTrees s' = providerTrees s \<and>
    visible s' = (visible s)(onchain_vote_key (re_address event) (vt_voter topics) (vt_proposalId topics) \<mapsto> x,
      powers_key (vt_voter topics) (vt_proposalId topics) \<mapsto> VPowers (map (listed_entry w v) (delegateStakingProviders E)))"
proof -
  let ?u = "vt_voter topics" and ?pid = "vt_proposalId topics" and ?L = "map (listed_entry w v) (delegateStakingProviders E)"
  let ?k = "onchain_vote_key (re_address event) ?u ?pid"
  have set_tree: "providerTrees s' = providerTrees s" if "setData E k x t s = (r, s')" for k x t s r s'
    using that P by (auto simp: setData_def mthen_apply providers_settled_def split: prod.splits sum.splits) (metis snd_conv)+
  have pub_tree: "providerTrees s' = providerTrees s" if "deleteCacheKeys E ks s = (r, s')" for ks s r s'
    using that P unfolding deleteCacheKeys_def providers_settled_def by (metis snd_conv)
  obtain x t where w1: "set_getUserVoteOnChain E (re_address event) ?u ?pid (show_int (vote_number (toVoteType E name))) = setData E ?k x t"
    by (simp add: set_getUserVoteOnChain_def onchain_vote_key_def getCacheKey_def)
  obtain s1 where 1: "setData E ?k x t s = (Inr ?k, s1)" "visible s1 = (visible s)(?k \<mapsto> x)" by (rule setData_visible [OF C])
  obtain s2 where 2: "deleteCacheKeys E [?k] s1 = (Inr (), s2)" "visible s2 = visible s1"
    using quiet_keys [OF Q] unfolding deleteCacheKeys_def by blast
  have trees2: "providerTrees s2 = providerTrees s" using set_tree [OF 1(1)] pub_tree [OF 2(1)] by simp
  have "provider_known visible contract ?pid w v s2 p" if "p \<in> set (delegateStakingProviders E)" for p
  proof -
    have "onchain_vote_key (stakeScAddress p) contract ?pid \<noteq> ?k" using plain that by (simp add: onchain_vote_key_eq)
    then show ?thesis using known that trees2 onchain_keys_apart(2)
      by (auto simp: provider_known_def 2(2) 1(2) onchain_keys_apart(2) [THEN not_sym])
  qed
  then have 3: "delegateUserVotingPowersRaw E contract ?pid s2 = (Inr ?L, s2)" using known_powers [OF C P] by blast
  obtain t' where w2: "set_delegateUserVotingPowers E ?u ?pid ?L = setData E (powers_key ?u ?pid) (VPowers ?L) t'"
    by (simp add: set_delegateUserVotingPowers_def powers_key_def)
  obtain s4 where 4: "setData E (powers_key ?u ?pid) (VPowers ?L) t' s2 = (Inr (powers_key ?u ?pid), s4)"
    "visible s4 = (visible s2)(powers_key ?u ?pid \<mapsto> VPowers ?L)" by (rule setData_visible [OF C])
  obtain s5 where 5: "deleteCacheKeys E [powers_key ?u ?pid] s4 = (Inr (), s5)" "visible s5 = visible s4"
    using quiet_keys [OF Q] unfolding deleteCacheKeys_def by blast
  have "handleOnChainGovernanceVoteEvent E X event name s = (Inr (), s5)"
    by (simp add: handleOnChainGovernanceVoteEvent_def ev first w1 w2 1 2 3 4(1) 5(1))
  then show ?thesis
    using 1(2) 2(2) 4(2) 5(2) trees2 set_tree [OF 4(1)] pub_tree [OF 5(1)] by (intro exI [of _ s5] exI [of _ x]) simp
qed

text \<open>
  C38: what votes on the chain leave behind. The handler reads the delegated powers and votes of the
  contract's own address, whoever voted, and stores them under the voter's key. So when votes for a proposal
  have been handled, in any number and order, every voter has the same list: for each provider, in the order
  of the configuration, the power and the vote that are known of the contract. Nothing the voters have
  enters it. The providers are enabled or not, legacy or liquid; what is known of the contract is in the
  cache and in the loaded snapshots at first, and the contract itself does not vote.
\<close>

theorem onchain_handler_powers:
  assumes "caching E visible" and "quiet E visible" and "providers_settled E" and "first_address E ONCHAIN = Inr contract"
    and "\<forall>p\<in>set (delegateStakingProviders E). provider_known visible contract pid w v s p \<and> plain (stakeScAddress p)"
    and "plain contract"
    and "\<forall>(event, name) \<in> set votes. plain (re_address event) \<and>
      (\<exists>topics. voteTopics X event = Inr topics \<and> vt_proposalId topics = pid \<and> plain (vt_voter topics) \<and> vt_voter topics \<noteq> contract)"
  shows "\<exists>s'. mfold (\<lambda>_ (event, name). handleOnChainGovernanceVoteEvent E X event name) () votes s = (Inr (), s') \<and>
    (\<forall>(event, name) \<in> set votes. \<forall>topics. voteTopics X event = Inr topics \<longrightarrow>
       visible s' (powers_key (vt_voter topics) pid) = Some (VPowers (map (listed_entry w v) (delegateStakingProviders E))))"
proof -
  let ?L = "VPowers (map (listed_entry w v) (delegateStakingProviders E))"
  have "\<exists>s'. mfold (\<lambda>_ (event, name). handleOnChainGovernanceVoteEvent E X event name) () votes s = (Inr (), s') \<and>
      (\<forall>u. visible s' (powers_key u pid) = visible s (powers_key u pid) \<or> visible s' (powers_key u pid) = Some ?L) \<and>
      (\<forall>(event, name) \<in> set votes. \<forall>topics. voteTopics X event = Inr topics \<longrightarrow> visible s' (powers_key (vt_voter topics) pid) = Some ?L)"
    using assms(5,7)
  proof (induction votes arbitrary: s)
    case (Cons x votes)
    obtain event name where x: "x = (event, name)" by fastforce
    obtain topics where t: "voteTopics X event = Inr topics" "vt_proposalId topics = pid" "plain (vt_voter topics)"
      "vt_voter topics \<noteq> contract" "plain (re_address event)" using Cons.prems(2) x by auto
    obtain s1 y where 1: "handleOnChainGovernanceVoteEvent E X event name s = (Inr (), s1)" "providerTrees s1 = providerTrees s"
      "visible s1 = (visible s)(onchain_vote_key (re_address event) (vt_voter topics) pid \<mapsto> y, powers_key (vt_voter topics) pid \<mapsto> ?L)"
      using onchain_event_handled [OF assms(1-3) t(1) assms(4), of w v s name] Cons.prems(1) t assms(6) by blast
    have known: "\<forall>p\<in>set (delegateStakingProviders E). provider_known visible contract pid w v s1 p \<and> plain (stakeScAddress p)"
      using known_kept [OF _ 1(2,3) t(4) assms(6) t(3,5)] Cons.prems(1) by blast
    obtain s' where s': "mfold (\<lambda>_ (event, name). handleOnChainGovernanceVoteEvent E X event name) () votes s1 = (Inr (), s')"
      "\<forall>u. visible s' (powers_key u pid) = visible s1 (powers_key u pid) \<or> visible s' (powers_key u pid) = Some ?L"
      "\<forall>(event, name) \<in> set votes. \<forall>topics. voteTopics X event = Inr topics \<longrightarrow> visible s' (powers_key (vt_voter topics) pid) = Some ?L"
      using Cons.IH [OF known] Cons.prems(2) by auto
    have own: "visible s1 (powers_key u pid) = visible s (powers_key u pid) \<or> visible s1 (powers_key u pid) = Some ?L" for u
      using onchain_keys_apart(1) by (auto simp: 1(3) onchain_keys_apart(1) [THEN not_sym])
    have "visible s1 (powers_key (vt_voter topics) pid) = Some ?L" by (simp add: 1(3))
    with s'(2) have "visible s' (powers_key (vt_voter topics) pid) = Some ?L" by metis
    with s' own t(1) show ?case by (intro exI [of _ s']) (auto simp: x 1(1), metis)
  qed simp
  then show ?thesis by blast
qed


section \<open>Votes of the pulse\<close>

lemma put_pulse_visible:
  assumes "caching E visible"
  shows "\<exists>s'. put_pulse E name sc u n v s = (Inr (getCacheKey ''pulse'' [KStr name, KStr sc, KStr u, number_key n]), s') \<and>
    visible s' = (visible s)(getCacheKey ''pulse'' [KStr name, KStr sc, KStr u, number_key n] \<mapsto> v)"
  unfolding put_pulse_def by (rule setData_visible [OF assms]) blast

text \<open>Each event writes one value under one key.\<close>

definition event_writes :: "'s env \<Rightarrow> (raw_event \<Rightarrow> exn + ('s, string) prog) \<Rightarrow> raw_event \<Rightarrow> string \<times> cval \<Rightarrow> bool" where
  "event_writes E update ev w \<longleftrightarrow>
     (\<exists>name sc u n. update ev = Inr (put_pulse E name sc u n (snd w)) \<and>
        fst w = getCacheKey ''pulse'' [KStr name, KStr sc, KStr u, number_key n])"

lemma started_visible:
  assumes "caching E visible" and "list_all2 (event_writes E update) events ws"
  shows "\<exists>s'. mmap (\<lambda>ev. mbind (mlift (update ev)) mattempt) events s = (Inr (map (\<lambda>w. Inr (fst w)) ws), s') \<and>
    visible s' = foldl (\<lambda>V w. V(fst w \<mapsto> snd w)) (visible s) ws"
  using assms(2)
proof (induction events ws arbitrary: s rule: list_all2_induct)
  case (Cons ev events w ws)
  then obtain name sc u n where ev: "update ev = Inr (put_pulse E name sc u n (snd w))"
    "fst w = getCacheKey ''pulse'' [KStr name, KStr sc, KStr u, number_key n]" by (auto simp: event_writes_def)
  obtain s1 where "put_pulse E name sc u n (snd w) s = (Inr (fst w), s1)" "visible s1 = (visible s)(fst w \<mapsto> snd w)"
    using put_pulse_visible [OF assms(1)] unfolding ev(2) by blast
  then show ?case using Cons.IH [of s1] ev(1) by auto
qed simp

lemma updates_visible:
  assumes "caching E visible" and "quiet E visible" and "list_all2 (event_writes E update) events ws"
  shows "\<exists>s'. apply_updates E update events s = (Inr (), s') \<and>
    visible s' = foldl (\<lambda>V w. V(fst w \<mapsto> snd w)) (visible s) ws"
proof -
  obtain s1 where 1: "mmap (\<lambda>ev. mbind (mlift (update ev)) mattempt) events s = (Inr (map (\<lambda>w. Inr (fst w)) ws), s1)"
      "visible s1 = foldl (\<lambda>V w. V(fst w \<mapsto> snd w)) (visible s) ws"
    using started_visible [OF assms(1,3)] by blast
  obtain s2 where "deleteCacheKeys E (map fst ws) s1 = (Inr (), s2)" "visible s2 = visible s1"
    using quiet_keys [OF assms(2)] unfolding deleteCacheKeys_def by blast
  with 1 show ?thesis by (simp add: apply_updates_def)
qed

text \<open>What a vote event of a poll says: contract, user and poll, and the option chosen.\<close>

definition poll_vote_of :: "'s env \<Rightarrow> raw_event \<Rightarrow> (string \<times> string \<times> int) \<times> int \<Rightarrow> bool" where
  "poll_vote_of E ev vote \<longleftrightarrow>
     (case vote of ((sc, u, p), oid) \<Rightarrow>
        re_address ev = sc \<and> topic_user E ev = Inr u \<and> topic_number 2 ev = Inr (Some p) \<and>
        topic_number 3 ev = Inr (Some oid) \<and> plain sc \<and> plain u)"

definition poll_vote_key :: "string \<times> string \<times> int \<Rightarrow> string" where
  "poll_vote_key k = (case k of (sc, u, p) \<Rightarrow> getCacheKey ''pulse'' [KStr ''getUserVotePulse'', KStr sc, KStr u, KNum p])"

lemma poll_vote_key_eq:
  assumes "plain a" "plain u" "plain b" "plain w"
  shows "poll_vote_key (a, u, p) = poll_vote_key (b, w, q) \<longleftrightarrow> (a, u, p) = (b, w, q)"
proof
  assume "poll_vote_key (a, u, p) = poll_vote_key (b, w, q)"
  from cache_key_inj [OF this [unfolded poll_vote_key_def getCacheKey_def prod.case]] assms
  show "(a, u, p) = (b, w, q)" by (auto simp: plain_def dotless_def show_int_no_dot dest: show_int_inj)
qed simp

lemma foldl_updates_map:
  assumes "\<forall>x\<in>set votes. key (fst x) = key k \<longrightarrow> fst x = k"
  shows "foldl (\<lambda>V w. V(fst w \<mapsto> snd w)) V (map (\<lambda>x. (key (fst x), val (snd x))) votes) (key k) =
    (case map_of (rev votes) k of Some v \<Rightarrow> Some (val v) | None \<Rightarrow> V (key k))"
  using assms
proof (induction votes arbitrary: V)
  case (Cons x votes)
  then show ?case by (cases "fst x = k") (auto simp: map_add_def split: option.splits)
qed simp

lemma poll_votes_write:
  assumes "poll_vote_of E ev x"
  shows "event_writes E (poll_vote_update E) ev (poll_vote_key (fst x), VBn (bn_int (snd x)))"
proof -
  obtain sc u p oid where x: "x = ((sc, u, p), oid)" by (metis surj_pair)
  with assms have "poll_vote_update E ev = Inr (put_pulse E ''getUserVotePulse'' sc u (Some p) (VBn (bn_int oid)))"
    by (simp add: poll_vote_of_def poll_vote_update_def bn_of_hex_arg_def)
  then show ?thesis
    unfolding event_writes_def x fst_conv snd_conv poll_vote_key_def prod.case
    by (intro exI [of _ "''getUserVotePulse''"] exI [of _ sc] exI [of _ u] exI [of _ "Some p"]) (simp add: number_key_def)
qed

text \<open>
  C17: votes in polls are known to readers as soon as they are handled. For a block of vote events, each
  with its contract, user, poll and option in the topics, the handler returns, and then the getter of a
  user's vote gives the option of the user's last vote in that poll, for every user and poll that the
  block mentions.
\<close>

theorem poll_votes_visible:
  assumes "caching E visible" and "quiet E visible" and "list_all2 (poll_vote_of E) events votes"
  shows "\<exists>s'. handlePulseVotePollEvents E events s = (Inr (), s') \<and>
    (\<forall>sc u p oid. map_of (rev votes) (sc, u, p) = Some oid \<longrightarrow> getUserVotePulse E sc u p s' = (Inr (bn_int oid), s'))"
proof -
  have "list_all2 (event_writes E (poll_vote_update E)) events (map (\<lambda>x. (poll_vote_key (fst x), VBn (bn_int (snd x)))) votes)"
    using assms(3) poll_votes_write by (simp add: list_all2_map2) (rule list_all2_mono)
  from updates_visible [OF assms(1,2) this]
  obtain s' where s': "handlePulseVotePollEvents E events s = (Inr (), s')"
    "visible s' = foldl (\<lambda>V w. V(fst w \<mapsto> snd w)) (visible s) (map (\<lambda>x. (poll_vote_key (fst x), VBn (bn_int (snd x)))) votes)"
    unfolding handlePulseVotePollEvents_def by blast
  have plain: "plain sc \<and> plain u" if "((sc, u, p), oid) \<in> set votes" for sc u p oid
    using assms(3) that by (auto simp: list_all2_conv_all_nth in_set_conv_nth poll_vote_of_def)
  have "getUserVotePulse E sc u p s' = (Inr (bn_int oid), s')" if v: "map_of (rev votes) (sc, u, p) = Some oid" for sc u p oid
  proof -
    have "((sc, u, p), oid) \<in> set votes" using map_of_SomeD [OF v] by simp
    then have "\<forall>x\<in>set votes. poll_vote_key (fst x) = poll_vote_key (sc, u, p) \<longrightarrow> fst x = (sc, u, p)"
      using plain poll_vote_key_eq by (metis prod.collapse)
    from foldl_updates_map [OF this, where val = "\<lambda>i. VBn (bn_int i)" and V = "visible s"] s'(2) v
    have "visible s' (poll_vote_key (sc, u, p)) = Some (VBn (bn_int oid))" by simp
    then show ?thesis
      using poll_vote_entry.read_visible [OF assms(1), of s' "(sc, u, p)" "bn_int oid"] by (simp add: poll_vote_key_def)
  qed
  with s'(1) show ?thesis by blast
qed


section \<open>An update of a user's energy\<close>

definition energy_key :: "string \<Rightarrow> string" where
  "energy_key u = getCacheKey ''energy'' [KStr ''energyEntryForUser'', KStr u]"

definition power_key :: "string \<Rightarrow> string \<Rightarrow> int \<Rightarrow> string" where
  "power_key u sc pid = getCacheKey ''governance'' [KStr ''userVotingPower'', KStr sc, KNum pid, KStr u]"

definition proposals_key :: "string \<Rightarrow> string" where
  "proposals_key sc = getCacheKey ''governance'' [KStr ''proposals'', KStr sc]"

definition status_key :: "string \<Rightarrow> int \<Rightarrow> string" where
  "status_key sc pid = getCacheKey ''governance'' [KStr ''proposalStatus'', KStr sc, KNum pid]"

lemma power_key_neq [simp]:
  "energy_key u \<noteq> proposals_key sc" "energy_key u \<noteq> status_key sc pid"
  "power_key u sc pid \<noteq> energy_key w" "power_key u sc pid \<noteq> proposals_key a" "power_key u sc pid \<noteq> status_key a q"
  by (simp_all add: energy_key_def power_key_def proposals_key_def status_key_def getCacheKey_def cache_key_join)

lemmas power_key_neq_rev [simp] = power_key_neq [THEN not_sym]

definition without :: "string set \<Rightarrow> (string \<Rightarrow> cval option) \<Rightarrow> string \<Rightarrow> cval option" where
  "without D V = (\<lambda>k. if k \<in> D then None else V k)"

lemma without_simps [simp]: "without {} V = V" "without C (without D V) = without (D \<union> C) V"
  "(without D V)(k := None) = without (insert k D) V"
  by (auto simp: without_def)

text \<open>The keys of the user's voting powers in the active proposals of a contract.\<close>

definition active_powers :: "(string \<Rightarrow> governance_proposal list) \<Rightarrow>
    (string \<Rightarrow> int \<Rightarrow> GovernanceProposalStatus option) \<Rightarrow> string \<Rightarrow> string \<Rightarrow> string list" where
  "active_powers props st u sc =
     map (\<lambda>p. power_key u sc (proposalId p)) (filter (\<lambda>p. st sc (proposalId p) = Some Active) (props sc))"

lemma filter_zip_map: "filter (\<lambda>(p, x). x = a) (zip ps (map f ps)) = map (\<lambda>p. (p, f p)) (filter (\<lambda>p. f p = a) ps)"
  by (induction ps) auto

lemma deletions_run:
  assumes "caching E visible"
  shows "\<exists>s'. mmap (\<lambda>(p, status). mattempt (deleteUserVotingPower E sc (proposalId p) u)) (map (\<lambda>p. (p, f p)) ps) s =
      (Inr (map (\<lambda>p. Inr (power_key u sc (proposalId p))) ps), s') \<and>
    visible s' = without (set (map (\<lambda>p. power_key u sc (proposalId p)) ps)) (visible s)"
proof (induction ps arbitrary: s)
  case (Cons p ps)
  obtain s1 where "deleteUserVotingPower E sc (proposalId p) u s = (Inr (power_key u sc (proposalId p)), s1)"
    "visible s1 = (visible s)(power_key u sc (proposalId p) := None)"
    unfolding deleteUserVotingPower_def power_key_def by (rule delData_visible [OF assms])
  moreover have "(visible s)(k := None) = without {k} (visible s)" for k by (auto simp: without_def)
  ultimately show ?case using Cons [of s1] by auto
qed simp

text \<open>The proposals of a contract and their statuses are in the cache.\<close>

definition proposals_known :: "(string \<Rightarrow> cval option) \<Rightarrow> (string \<Rightarrow> governance_proposal list) \<Rightarrow>
    (string \<Rightarrow> int \<Rightarrow> GovernanceProposalStatus option) \<Rightarrow> string \<Rightarrow> bool" where
  "proposals_known V props st sc \<longleftrightarrow> V (proposals_key sc) = Some (VProposals (props sc)) \<and>
     (\<forall>p\<in>set (props sc). V (status_key sc (proposalId p)) = Some (VStatus (st sc (proposalId p))))"

lemma start_deletions_run:
  assumes C: "caching E visible" and abi: "useAbi E sc = Some EnergyAbi"
    and known: "proposals_known (visible s) props st sc"
  shows "\<exists>s'. start_deletions E u sc s = (Inr (map Inr (active_powers props st u sc)), s') \<and>
    visible s' = without (set (active_powers props st u sc)) (visible s)"
proof -
  have 1: "abi_proposals E sc s = (Inr (props sc), s)"
    unfolding abi_proposals_def with_abi_def abi option.case abi_class.case ts_proposals_def by_contract_def GetOrSetCache_def
    by (rule cached_hit [OF C]) (use known in \<open>simp_all add: proposals_known_def proposals_key_def getCacheKey_def\<close>)
  have "abi_proposalStatus E sc (proposalId p) s = (Inr (st sc (proposalId p)), s)" if "p \<in> set (props sc)" for p
    unfolding abi_proposalStatus_def with_abi_def abi option.case abi_class.case ts_proposalStatus_def by_proposal_def GetOrSetCache_def
    by (rule cached_hit [OF C]) (use known that in \<open>simp_all add: proposals_known_def status_key_def getCacheKey_def\<close>)
  from promise_all_pure [of "props sc" "\<lambda>p. abi_proposalStatus E sc (proposalId p)", OF this]
  have 2: "promise_map (\<lambda>p. abi_proposalStatus E sc (proposalId p)) (props sc) s =
      (Inr (map (\<lambda>p. st sc (proposalId p)) (props sc)), s)" .
  show ?thesis
    using deletions_run [OF C, of sc u "\<lambda>p. st sc (proposalId p)" "filter (\<lambda>p. st sc (proposalId p) = Some Active) (props sc)" s]
    by (simp add: start_deletions_def 1 2 filter_zip_map active_powers_def comp_def)
qed

lemma known_without:
  "proposals_known (without (set (active_powers props st u a)) V) props st sc \<longleftrightarrow> proposals_known V props st sc"
  by (auto simp: proposals_known_def without_def active_powers_def)

lemma all_deletions_run:
  assumes C: "caching E visible" and "\<forall>sc\<in>set scs. useAbi E sc = Some EnergyAbi"
    and "\<forall>sc\<in>set scs. proposals_known (visible s) props st sc"
  shows "\<exists>s'. mmap (start_deletions E u) scs s = (Inr (map (\<lambda>sc. map Inr (active_powers props st u sc)) scs), s') \<and>
    visible s' = without (\<Union>sc\<in>set scs. set (active_powers props st u sc)) (visible s)"
  using assms(2,3)
proof (induction scs arbitrary: s)
  case (Cons sc scs)
  obtain s1 where s1: "start_deletions E u sc s = (Inr (map Inr (active_powers props st u sc)), s1)"
    "visible s1 = without (set (active_powers props st u sc)) (visible s)"
    using start_deletions_run [OF C, of sc s props st u] Cons.prems by auto
  then have "\<forall>a\<in>set scs. proposals_known (visible s1) props st a" using Cons.prems(2) by (simp add: known_without)
  then show ?case using Cons.IH [of s1] Cons.prems(1) s1 by auto
qed simp

text \<open>
  C10: an update of a user's energy, when the proposals of the energy contracts and their statuses are
  in the cache. The handler returns; the user's entry in the cache is the one of the event, the user's
  voting power is removed for exactly the active proposals of all energy contracts, and every other key
  is as it was.
\<close>

theorem energy_update_effect:
  assumes C: "caching E visible" and Q: "quiet E visible"
    and ev: "energyEvent X event = Inr (u, entry)"
    and scs: "governanceContractsAddresses E (Some [type_string ENERGY]) = Inr scs"
    and abi: "\<forall>sc\<in>set scs. useAbi E sc = Some EnergyAbi"
    and known: "\<forall>sc\<in>set scs. proposals_known (visible s) props st sc"
  shows "\<exists>s'. handleUpdateEnergy E X event s = (Inr (), s') \<and>
    visible s' = without {power_key u sc (proposalId p) | sc p. sc \<in> set scs \<and> p \<in> set (props sc) \<and>
        st sc (proposalId p) = Some Active} ((visible s)(energy_key u \<mapsto> VEnergy entry))"
proof -
  obtain s1 where 1: "setEnergyEntryForUser E u entry s = (Inr (energy_key u), s1)"
    "visible s1 = (visible s)(energy_key u \<mapsto> VEnergy entry)"
    unfolding setEnergyEntryForUser_def energy_key_def by (rule setData_visible [OF C])
  have "\<forall>sc\<in>set scs. proposals_known (visible s1) props st sc"
    using known by (auto simp: proposals_known_def 1(2))
  from all_deletions_run [OF C abi this, of u] obtain s2 where 2:
    "mmap (start_deletions E u) scs s1 = (Inr (map (\<lambda>sc. map Inr (active_powers props st u sc)) scs), s2)"
    "visible s2 = without (\<Union>sc\<in>set scs. set (active_powers props st u sc)) (visible s1)" by blast
  let ?keys = "concat (map (active_powers props st u) scs)"
  have settled: "settle (concat (map (\<lambda>sc. map Inr (active_powers props st u sc)) scs)) = Inr ?keys"
    by (simp add: settle_Inr_iff map_concat comp_def)
  obtain s3 where 3: "deleteCacheKeys E (energy_key u # ?keys) s2 = (Inr (), s3)" "visible s3 = visible s2"
    using quiet_keys [OF Q] unfolding deleteCacheKeys_def by blast
  obtain s4 where 4: "publishEvent E (ev_ENERGY_UPDATED E) s3 = (Inr (), s4)" "visible s4 = visible s3"
    using quiet_event [OF Q] by blast
  have "(\<Union>sc\<in>set scs. set (active_powers props st u sc)) =
      {power_key u sc (proposalId p) | sc p. sc \<in> set scs \<and> p \<in> set (props sc) \<and> st sc (proposalId p) = Some Active}"
    by (auto simp: active_powers_def)
  moreover have "handleUpdateEnergy E X event s = (Inr (), s4)"
    by (simp add: handleUpdateEnergy_def ev scs [unfolded type_string.simps] 1(1) 2(1) settled 3(1) 4(1))
  ultimately show ?thesis using 4(2) 3(2) 2(2) 1(2) by auto
qed


section \<open>Witnesses\<close>

definition example_sdk :: event_sdk where
  "example_sdk = \<lparr>eventName = re_identifier,
     voteTopics = (\<lambda>ev. case topic 1 ev of None \<Rightarrow> Inl TypeError
        | Some u \<Rightarrow> Inr \<lparr>vt_voter = u, vt_proposalId = 1, vt_nrVotes = bn_int 7, vt_quorumUsed = bn_int 49\<rparr>),
     energyEvent = (\<lambda>ev. Inr (''erdU'', some_energy)),
     governanceEventNames = [''upVoteCast'', ''downVoteCast'', ''downVetoVoteCast'', ''abstainVoteCast'']\<rparr>"

lemma example_event_names [simp]:
  "ev_UP example_env = ''upVoteCast''" "ev_DOWN example_env = ''downVoteCast''"
  "ev_DOWN_VETO example_env = ''downVetoVoteCast''" "ev_ABSTAIN example_env = ''abstainVoteCast''"
  "ev_ENERGY_UPDATED example_env = ''energyUpdated''"
  by (simp_all add: example_env_def memory_env_def)

lemma example_quiet: "quiet example_env store"
  by (simp add: quiet_def example_env_def memory_env_def)

lemma example_sdk_names: "sdk_names example_env example_sdk"
  by (simp add: sdk_names_def event_names_ok_def event_votes_def example_sdk_def)

definition vote_event :: "string \<Rightarrow> string \<Rightarrow> raw_event" where
  "vote_event name u = \<lparr>re_address = ''erdB'', re_identifier = name, re_topics = [Some name, Some u], re_data = Some []\<rparr>"

definition two_votes :: block_events where
  "two_votes = \<lparr>be_events = Some [vote_event ''upVoteCast'' ''erdU'', vote_event ''downVoteCast'' ''erdW''], be_shardId = Some 0\<rparr>"

definition zero_tally :: tally where
  "zero_tally = \<lparr>t_up = 0, t_down = 0, t_veto = 0, t_abstain = 0, t_quorum = 0\<rparr>"

definition open_ballot :: ballot where
  "open_ballot = \<lparr>tallies = [(''erdB'', 1) \<mapsto> zero_tally],
     voted_for = [(''erdB'', ''erdU'') \<mapsto> {}, (''erdB'', ''erdW'') \<mapsto> {}],
     votes_cast = [(''erdB'', ''erdU'') \<mapsto> Map.empty, (''erdB'', ''erdW'') \<mapsto> Map.empty]\<rparr>"

definition ballot_memory :: memory_state where
  "ballot_memory = empty_memory\<lparr>store := [tally_key ''erdB'' 1 \<mapsto> VVotes (votes_of zero_tally),
     voted_key ''erdB'' ''erdU'' \<mapsto> VNums [], voted_key ''erdB'' ''erdW'' \<mapsto> VNums [],
     types_key ''erdB'' ''erdU'' \<mapsto> VVoteTypes [], types_key ''erdB'' ''erdW'' \<mapsto> VVoteTypes []]\<rparr>"

lemma ballot_memory_represents: "represents (store ballot_memory) open_ballot"
  by (auto simp: represents_def ballot_memory_def open_ballot_def plain_def zero_tally_def t_total_def
      voted_key_eq types_key_eq split: if_splits)

definition two_casts :: "cast list" where
  "two_casts = [\<lparr>c_contract = ''erdB'', c_voter = ''erdU'', c_proposal = 1, c_kind = UpVote, c_votes = 7, c_quorum = 49\<rparr>,
     \<lparr>c_contract = ''erdB'', c_voter = ''erdW'', c_proposal = 1, c_kind = DownVote, c_votes = 7, c_quorum = 49\<rparr>]"

lemma two_votes_cast:
  "list_all2 (event_casts example_env example_sdk) [vote_event ''upVoteCast'' ''erdU'', vote_event ''downVoteCast'' ''erdW''] two_casts"
  by (simp add: two_casts_def event_casts_def vote_event_def example_sdk_def topic_def event_votes_def toVoteType_def)

lemma two_casts_result:
  "tallies (foldl cast_on open_ballot two_casts) (''erdB'', 1) =
     Some \<lparr>t_up = 7, t_down = 7, t_veto = 0, t_abstain = 0, t_quorum = 98\<rparr>"
  by (simp add: two_casts_def open_ballot_def cast_on_def Let_def t_add_def zero_tally_def)

lemma pulse_linear_example: "pulse_linear example_env = Inr [''erdD'']"
  by (simp add: pulse_linear_def config_linear_def example_config_def)

theorem vote_events_refine_witness:
  "\<exists>s'. consumeEvents example_env example_sdk [''erdB''] two_votes ballot_memory = (Inr (), s') \<and>
     ts_proposalVotes example_env TOKEN_SNAPSHOT ''erdB'' 1 s' =
       (Inr (votes_of \<lparr>t_up = 7, t_down = 7, t_veto = 0, t_abstain = 0, t_quorum = 98\<rparr>), s')"
proof -
  have "be_events two_votes = Some [vote_event ''upVoteCast'' ''erdU'', vote_event ''downVoteCast'' ''erdW'']"
    by (simp add: two_votes_def)
  from vote_events_refine [OF example_caching example_quiet example_sdk_names this two_votes_cast, of "[''erdB'']"
      "[''erdD'']" ballot_memory open_ballot] two_casts_result
  show ?thesis
    by (simp add: vote_event_def pulse_linear_example ballot_memory_represents)
       (auto simp: two_casts_def covers_def open_ballot_def)
qed


text \<open>
  A legacy and a liquid provider, both enabled, that have voted for the contract's own address, and two
  voters; one of them has a power of three of his own with the legacy provider.
\<close>

definition liquid_provider :: delegate_staking_provider where
  "liquid_provider = legacy_provider\<lparr>providerName := ''L'', voteScAddress := ''erdL'', stakeScAddress := ''erdS''\<rparr>"

definition delegated_env :: "memory_state env" where
  "delegated_env = example_env\<lparr>delegateStakingProviders := [legacy_provider, liquid_provider], fileAccess := \<lambda>p. mret ()\<rparr>"

definition delegated_state :: memory_state where
  "delegated_state = empty_memory\<lparr>
     store := [onchain_vote_key ''erdP'' ''erdC'' 1 \<mapsto> VVote UpVote, onchain_vote_key ''erdS'' ''erdC'' 1 \<mapsto> VVote NotVoted,
       view_key legacy_provider ''erdC'' \<mapsto> VBn (bn_int 5), view_key legacy_provider ''erdU'' \<mapsto> VBn (bn_int 3)],
     providerTrees := [getMerkleTreeKeyForProvider ''erdL'' (show_int 1) \<mapsto>
       \<lparr>mt_hashes = [], mt_leaves = [\<lparr>av_address = ''erdC'', av_balance = ''9''\<rparr>]\<rparr>]\<rparr>"

definition contract_power :: "delegate_staking_provider \<Rightarrow> bn" where
  "contract_power p = (if providerName p = ''P'' then bn_int 5 else bn_int 9)"

definition contract_vote :: "delegate_staking_provider \<Rightarrow> vote_value" where
  "contract_vote p = VoteNum (if providerName p = ''P'' then UpVote else NotVoted)"

lemma delegated_caching: "caching delegated_env store"
  by (rule memory_caching) (simp add: memory_cache_def delegated_env_def example_env_def memory_env_def)

lemma delegated_quiet: "quiet delegated_env store"
  by (simp add: quiet_def delegated_env_def example_env_def memory_env_def)

lemma delegated_settled: "providers_settled delegated_env"
  by (simp add: providers_settled_def delegated_env_def example_env_def memory_env_def getDelegateStakingProvider_def
      legacy_provider_def liquid_provider_def mmodify_def mret_def)

lemma delegated_known:
  "\<forall>p\<in>set (delegateStakingProviders delegated_env).
     provider_known store ''erdC'' 1 contract_power contract_vote delegated_state p \<and> plain (stakeScAddress p)"
proof -
  have "bn_of_string ''9'' = bn_int 9" by code_simp
  moreover have "view_key p ''erdC'' \<noteq> view_key p ''erdU''" for p by (simp add: view_key_def cache_key_join)
  ultimately show ?thesis
    by (simp add: provider_known_def delegated_env_def delegated_state_def contract_power_def contract_vote_def liquid_provider_def
        legacy_provider_def is_liquid_def balance_of_def getLeaves_def plain_def onchain_vote_key_eq onchain_keys_apart
        onchain_keys_apart [THEN not_sym])
qed

theorem onchain_handler_powers_witness:
  "\<exists>s'. mfold (\<lambda>_ (event, name). handleOnChainGovernanceVoteEvent delegated_env example_sdk event name) ()
      [(vote_event ''yes'' ''erdU'', ''yes''), (vote_event ''no'' ''erdW'', ''no'')] delegated_state = (Inr (), s') \<and>
    store s' (powers_key ''erdU'' 1) = Some (VPowers (map (listed_entry contract_power contract_vote) [legacy_provider, liquid_provider])) \<and>
    store s' (powers_key ''erdW'' 1) = Some (VPowers (map (listed_entry contract_power contract_vote) [legacy_provider, liquid_provider]))"
proof -
  let ?votes = "[(vote_event ''yes'' ''erdU'', ''yes''), (vote_event ''no'' ''erdW'', ''no'')]"
  have first: "first_address delegated_env ONCHAIN = Inr ''erdC''"
    by (simp add: first_address_def governanceContractsAddresses_def delegated_env_def example_config_def addresses_of_def)
  have topics: "voteTopics example_sdk (vote_event name u) = Inr \<lparr>vt_voter = u, vt_proposalId = 1, vt_nrVotes = bn_int 7, vt_quorumUsed = bn_int 49\<rparr>"
    for name u by (simp add: example_sdk_def vote_event_def topic_def)
  have "\<forall>(event, name) \<in> set ?votes. plain (re_address event) \<and>
      (\<exists>topics. voteTopics example_sdk event = Inr topics \<and> vt_proposalId topics = 1 \<and> plain (vt_voter topics) \<and> vt_voter topics \<noteq> ''erdC'')"
    by (simp add: topics plain_def) (simp add: vote_event_def)
  from onchain_handler_powers [OF delegated_caching delegated_quiet delegated_settled first delegated_known _ this]
  show ?thesis by (simp add: plain_def topics delegated_env_def)
qed

definition poll_event :: "string \<Rightarrow> string \<Rightarrow> raw_event" where
  "poll_event u option = \<lparr>re_address = ''erdD'', re_identifier = ''vote_poll'',
     re_topics = [Some [], Some (to_base64 u), Some (to_base64 (from_hex ''02'')), Some (to_base64 (from_hex option))],
     re_data = None\<rparr>"

lemma poll_event_bytes: "from_base64 (to_base64 x) = x" "js_parseHex (to_hex (from_hex ''02'')) = Some 2"
  "js_parseHex (to_hex (from_hex ''01'')) = Some 1" "js_parseHex (to_hex (from_hex ''03'')) = Some 3"
  by (simp, code_simp+)

lemma example_bech32 [simp]: "hexToBech32 example_env (to_hex u) = Inr u"
  by (simp add: example_env_def memory_env_def)

theorem poll_votes_visible_witness:
  "\<exists>s'. handlePulseVotePollEvents example_env [poll_event ''erdU'' ''01'', poll_event ''erdU'' ''03''] empty_memory = (Inr (), s') \<and>
     getUserVotePulse example_env ''erdD'' ''erdU'' 2 s' = (Inr (bn_int 3), s')"
proof -
  have ne: "to_base64 (from_hex ''02'') \<noteq> []" "to_base64 (from_hex ''01'') \<noteq> []" "to_base64 (from_hex ''03'') \<noteq> []"
    by code_simp+
  have "list_all2 (poll_vote_of example_env) [poll_event ''erdU'' ''01'', poll_event ''erdU'' ''03'']
      [((''erdD'', ''erdU'', 2), 1), ((''erdD'', ''erdU'', 2), 3)]"
    by (simp add: poll_vote_of_def poll_event_def topic_user_def topic_number_def topic_bytes_def topic_def ne
        poll_event_bytes plain_def del: from_hex.simps)
  from poll_votes_visible [OF example_caching example_quiet this, of empty_memory] show ?thesis
    by auto
qed

definition energy_event :: raw_event where
  "energy_event = \<lparr>re_address = ''erdL'', re_identifier = ''energyUpdated'', re_topics = [], re_data = None\<rparr>"

definition energy_proposals_memory :: memory_state where
  "energy_proposals_memory = empty_memory\<lparr>store :=
     [proposals_key ''erdA'' \<mapsto> VProposals [GovernanceLKMEXProposal ''erdA''], status_key ''erdA'' 1 \<mapsto> VStatus (Some Active),
      power_key ''erdU'' ''erdA'' 1 \<mapsto> VStr ''5'']\<rparr>"

lemma proposals_status_key [simp]: "proposals_key a \<noteq> status_key b p"
  by (simp add: proposals_key_def status_key_def getCacheKey_def cache_key_join)

theorem energy_update_effect_witness:
  "\<exists>s'. handleUpdateEnergy example_env example_sdk energy_event energy_proposals_memory = (Inr (), s') \<and>
     store s' (energy_key ''erdU'') = Some (VEnergy some_energy) \<and> store s' (power_key ''erdU'' ''erdA'' 1) = None"
proof -
  let ?props = "\<lambda>sc. [GovernanceLKMEXProposal sc]"
  let ?st = "\<lambda>sc p. Some Active"
  have ev: "energyEvent example_sdk energy_event = Inr (''erdU'', some_energy)" by (simp add: example_sdk_def)
  have scs: "governanceContractsAddresses example_env (Some [type_string ENERGY]) = Inr [''erdA'']"
    by (simp add: governanceContractsAddresses_def example_config_def addresses_of_def)
  have known: "\<forall>sc\<in>set [''erdA'']. proposals_known (store energy_proposals_memory) ?props ?st sc"
    using proposals_status_key [THEN not_sym]
    by (simp add: proposals_known_def energy_proposals_memory_def GovernanceLKMEXProposal_def)
  have abi: "\<forall>sc\<in>set [''erdA'']. useAbi example_env sc = Some EnergyAbi" by (simp add: useAbi_def)
  from energy_update_effect [OF example_caching example_quiet ev scs abi known] show ?thesis
    by (elim exE conjE) (simp add: without_def, simp add: GovernanceLKMEXProposal_def)
qed

end
