(* ===== verification/Gov_Races.thy ===== *)
theory Gov_Races
  imports Gov_Events
begin

text \<open>
  The votes of one proposal while requests, events and the chain run next to each other. The public
  application and the consumer of events are different processes on one cache, so at every \<open>await\<close> of
  \<open>handleGovernanceVoteEvent\<close> and inside a getter that misses another one may act. The consumer takes one
  message at a time (\<open>prefetchCount\<close> in \<open>rabbitmq.module.ts\<close>), so at most one event is in hand. The
  update of the votes has two halves, the call of \<open>increaseProposalVotes\<close> and the call of the setter
  \<open>proposalVotes\<close>; a getter that misses has two as well, the query of the contract and the write.
\<close>

section \<open>The contract's own tally\<close>

text \<open>
  \<open>chain s\<close> is the tally that the contract has counted in state \<open>s\<close>. The query of the contract answers
  with it, and nothing that the service does to its cache changes it.
\<close>

definition tally_chain ::
  "('x st) env \<Rightarrow> ('x st \<Rightarrow> string \<Rightarrow> cval option) \<Rightarrow> ('x st \<Rightarrow> tally) \<Rightarrow> string \<Rightarrow> int \<Rightarrow> bool" where
  "tally_chain E visible chain sc p \<longleftrightarrow>
     (\<forall>s. \<exists>s'. ts_proposalVotesRaw E TOKEN_SNAPSHOT sc p s = (Inr (votes_of (chain s)), s') \<and>
        visible s' = visible s \<and> chain s' = chain s) \<and>
     (\<forall>k v r l s. chain (snd (cacheSet E k v r l s)) = chain s) \<and>
     (\<forall>k f r l s. chain (snd (f s)) = chain s \<longrightarrow> chain (snd (getOrSet E k f r l s)) = chain s)"

definition adds :: "cast \<Rightarrow> tally \<Rightarrow> tally" where
  "adds c t = t_add (c_kind c) (c_votes c) (c_quorum c) t"

definition add_all :: "tally \<Rightarrow> cast list \<Rightarrow> tally" where
  "add_all t cs = foldl (\<lambda>t c. adds c t) t cs"

lemma add_all_simps [simp]: "add_all t [] = t" "add_all t (c # cs) = add_all (adds c t) cs"
  "add_all t (cs @ ds) = add_all (add_all t cs) ds"
  by (simp_all add: add_all_def)


section \<open>Runs\<close>

text \<open>
  The store, the events that wait in the queue, the event in hand with the votes that its handler is
  about to write, and the votes that readers have fetched and not yet written.
\<close>

record 'x votes_run =
  live :: "'x st"
  queued :: "(raw_event \<times> cast) list"
  in_hand :: "(cast \<times> proposal_votes) option"
  fetched :: "nat \<Rightarrow> proposal_votes option"

definition start_run :: "'x st \<Rightarrow> 'x votes_run" where
  "start_run s = \<lparr>live = s, queued = [], in_hand = None, fetched = Map.empty\<rparr>"

text \<open>
  The steps: a vote is counted by the contract and its event is sent; the handler takes an event and
  computes the new votes; it writes them; a reader that misses asks the contract; it writes what it was
  told. The flag says whether entries of the cache may expire.
\<close>

inductive votes_step ::
  "('x st) env \<Rightarrow> event_sdk \<Rightarrow> ('x st \<Rightarrow> string \<Rightarrow> cval option) \<Rightarrow> ('x st \<Rightarrow> tally) \<Rightarrow> string \<Rightarrow> int \<Rightarrow> bool \<Rightarrow>
   'x votes_run \<Rightarrow> 'x votes_run \<Rightarrow> bool"
  for E X visible chain sc p expiry where
  votes: "event_casts E X ev c \<Longrightarrow> c_contract c = sc \<Longrightarrow> c_proposal c = p \<Longrightarrow>
     visible s' = visible (live w) \<Longrightarrow> chain s' = adds c (chain (live w)) \<Longrightarrow>
     votes_step E X visible chain sc p expiry w (w\<lparr>live := s', queued := queued w @ [(ev, c)]\<rparr>)"
| takes: "in_hand w = None \<Longrightarrow> queued w = (ev, c) # rest \<Longrightarrow>
     increaseProposalVotes E X ev (eventName X ev) (live w) = (Inr v, s') \<Longrightarrow>
     votes_step E X visible chain sc p expiry w (w\<lparr>live := s', queued := rest, in_hand := Some (c, v)\<rparr>)"
| writes: "in_hand w = Some (c, v) \<Longrightarrow> set_proposalVotes E sc p v (live w) = (Inr k, s') \<Longrightarrow>
     votes_step E X visible chain sc p expiry w (w\<lparr>live := s', in_hand := None\<rparr>)"
| misses: "visible (live w) (tally_key sc p) = None \<Longrightarrow> fetched w i = None \<Longrightarrow>
     ts_proposalVotesRaw E TOKEN_SNAPSHOT sc p (live w) = (Inr v, s') \<Longrightarrow>
     votes_step E X visible chain sc p expiry w (w\<lparr>live := s', fetched := (fetched w)(i \<mapsto> v)\<rparr>)"
| fills: "fetched w i = Some v \<Longrightarrow> cacheSet E (tally_key sc p) (VVotes v) r l (live w) = (Inr (), s') \<Longrightarrow>
     votes_step E X visible chain sc p expiry w (w\<lparr>live := s', fetched := (fetched w)(i := None)\<rparr>)"
| expires: "expiry \<Longrightarrow> visible s' = (visible (live w))(tally_key sc p := None) \<Longrightarrow> chain s' = chain (live w) \<Longrightarrow>
     votes_step E X visible chain sc p expiry w (w\<lparr>live := s'\<rparr>)"

inductive votes_reach for E X visible chain sc p expiry w0 where
  begins: "votes_reach E X visible chain sc p expiry w0 w0"
| continues: "votes_reach E X visible chain sc p expiry w0 w \<Longrightarrow> votes_step E X visible chain sc p expiry w w' \<Longrightarrow>
     votes_reach E X visible chain sc p expiry w0 w'"

definition drained :: "'x votes_run \<Rightarrow> bool" where
  "drained w \<longleftrightarrow> queued w = [] \<and> in_hand w = None \<and> fetched w = Map.empty"


section \<open>While the entry stays in the cache\<close>

lemma increase_apply:
  assumes "voteTopics X ev = Inr (topics)" "ts_proposalVotes E TOKEN_SNAPSHOT (re_address ev) (vt_proposalId topics) s = (Inr v, s')"
  shows "increaseProposalVotes E X ev name s = (Inr (increase_votes E name (vt_nrVotes topics) (vt_quorumUsed topics) v), s')"
  using assms by (simp add: increaseProposalVotes_def)

text \<open>Reading the votes for an event of the proposal, when the tally is the one of the entry or of the chain.\<close>

lemma increase_read:
  assumes N: "sdk_names E X" and ev: "event_casts E X ev c" "c_contract c = sc" "c_proposal c = p"
    and t: "0 \<le> t_total t" and read: "ts_proposalVotes E TOKEN_SNAPSHOT sc p s = (Inr (votes_of t), s')"
  shows "increaseProposalVotes E X ev (eventName X ev) s = (Inr (votes_of (adds c t)), s')"
proof -
  have e: "re_address ev = sc" "event_votes E (eventName X ev)" "c_kind c = toVoteType E (eventName X ev)" "0 < c_votes c"
    "voteTopics X ev = Inr \<lparr>vt_voter = c_voter c, vt_proposalId = p, vt_nrVotes = bn_int (c_votes c), vt_quorumUsed = bn_int (c_quorum c)\<rparr>"
    using ev by (auto simp: event_casts_def)
  have "increase_votes E (eventName X ev) (bn_int (c_votes c)) (bn_int (c_quorum c)) (votes_of t) = votes_of (adds c t)"
    using increase_votes_of [OF _ e(2)] N t e(3,4) by (simp add: adds_def sdk_names_def)
  with read e(1) show ?thesis by (simp add: increase_apply [OF e(5)])
qed

lemma adds_total:
  assumes "sdk_names E X" "event_casts E X ev c" "0 \<le> t_total t"
  shows "0 \<le> t_total (adds c t)"
proof -
  have "c_kind c \<noteq> NotVoted" using event_kind [of E "eventName X ev"] assms(1,2) by (simp add: event_casts_def sdk_names_def)
  with assms(2,3) show ?thesis by (simp add: adds_def t_total_add event_casts_def)
qed

lemma add_all_total:
  assumes "sdk_names E X" "\<forall>(ev, c)\<in>set q. event_casts E X ev c" "0 \<le> t_total t"
  shows "0 \<le> t_total (add_all t (map snd q))"
  using assms(2,3) by (induction q arbitrary: t) (auto simp: adds_total [OF assms(1)])

text \<open>
  The votes in the entry, in hand and in the queue are the votes that the contract has counted; nobody
  is filling the entry.
\<close>

definition conserved ::
  "('x st) env \<Rightarrow> event_sdk \<Rightarrow> ('x st \<Rightarrow> string \<Rightarrow> cval option) \<Rightarrow> ('x st \<Rightarrow> tally) \<Rightarrow> string \<Rightarrow> int \<Rightarrow> 'x votes_run \<Rightarrow> bool" where
  "conserved E X visible chain sc p w \<longleftrightarrow> fetched w = Map.empty \<and>
     (\<forall>(ev, c)\<in>set (queued w). event_casts E X ev c \<and> c_contract c = sc \<and> c_proposal c = p) \<and>
     (\<exists>t. 0 \<le> t_total t \<and> visible (live w) (tally_key sc p) = Some (VVotes (votes_of t)) \<and>
        (case in_hand w of
           None \<Rightarrow> chain (live w) = add_all t (map snd (queued w))
         | Some (c, v) \<Rightarrow> v = votes_of (adds c t) \<and> 0 \<le> t_total (adds c t) \<and>
             chain (live w) = add_all (adds c t) (map snd (queued w))))"

lemma set_votes_chain:
  assumes "tally_chain E visible chain sc p" "set_proposalVotes E sc p v s = (r, s')"
  shows "chain s' = chain s"
  using assms by (auto simp: tally_chain_def set_proposalVotes_def setData_def mthen_apply split: prod.splits sum.splits)
    (metis snd_conv)+

lemma votes_step_conserved:
  assumes C: "caching E visible" and N: "sdk_names E X" and T: "tally_chain E visible chain sc p"
    and step: "votes_step E X visible chain sc p False w w'" and I: "conserved E X visible chain sc p w"
  shows "conserved E X visible chain sc p w'"
  using step I
proof (cases rule: votes_step.cases)
  case (votes ev c s')
  then show ?thesis using I by (auto simp: conserved_def split: option.splits)
next
  case (takes ev c rest v s')
  then obtain t where t: "0 \<le> t_total t" "visible (live w) (tally_key sc p) = Some (VVotes (votes_of t))"
    "chain (live w) = add_all (adds c t) (map snd rest)" and ev: "event_casts E X ev c" "c_contract c = sc" "c_proposal c = p"
    using I by (auto simp: conserved_def)
  from increase_read [OF N ev t(1) read_tally [OF C t(2)]] takes(4)
  have "v = votes_of (adds c t)" "s' = live w" by simp_all
  with takes(1-3) t ev adds_total [OF N ev(1) t(1)] I show ?thesis by (auto simp: conserved_def)
next
  case (writes c v k s')
  obtain t where t: "v = votes_of (adds c t)" "0 \<le> t_total (adds c t)" "chain (live w) = add_all (adds c t) (map snd (queued w))"
    using I writes by (auto simp: conserved_def)
  obtain s1 where s1: "set_proposalVotes E sc p v (live w) = (Inr (tally_key sc p), s1)"
    "visible s1 = (visible (live w))(tally_key sc p \<mapsto> VVotes v)" by (rule put_tally [OF C])
  then have "s' = s1" using writes by simp
  with s1(2) set_votes_chain [OF T s1(1)] t I writes(1) show ?thesis by (auto simp: conserved_def)
next
  case (misses i v s')
  then show ?thesis using I by (simp add: conserved_def)
next
  case (fills i v r l s')
  then show ?thesis using I by (simp add: conserved_def)
qed simp

text \<open>
  C12: the votes of a proposal are conserved while requests, events and the chain interleave. Let the
  entry of the proposal be in the cache with the contract's tally, and let it not expire. In every
  run, when the last event has been handled, a reader gets exactly the tally that the contract has counted;
  before that, what is missing are the votes in the queue and the one in hand.
\<close>

theorem votes_conserved:
  assumes C: "caching E visible" and N: "sdk_names E X" and T: "tally_chain E visible chain sc p"
    and "0 \<le> t_total (chain s)" and "visible s (tally_key sc p) = Some (VVotes (votes_of (chain s)))"
    and run: "votes_reach E X visible chain sc p False (start_run s) w"
  shows "\<exists>t. ts_proposalVotes E TOKEN_SNAPSHOT sc p (live w) = (Inr (votes_of t), live w) \<and>
    add_all t (map fst (case in_hand w of None \<Rightarrow> [] | Some h \<Rightarrow> [h]) @ map snd (queued w)) = chain (live w) \<and>
    (drained w \<longrightarrow> t = chain (live w))"
proof -
  from run have "conserved E X visible chain sc p w"
    by induction (use assms(4,5) votes_step_conserved [OF C N T] in \<open>auto simp: conserved_def start_run_def\<close>)
  then obtain t where t: "visible (live w) (tally_key sc p) = Some (VVotes (votes_of t))"
    "add_all t (map fst (case in_hand w of None \<Rightarrow> [] | Some h \<Rightarrow> [h]) @ map snd (queued w)) = chain (live w)"
    by (auto simp: conserved_def split: option.splits)
  then show ?thesis using read_tally [OF C t(1)] by (auto simp: drained_def)
qed


section \<open>When the entry expires\<close>

lemma read_tally_miss:
  assumes C: "caching E visible" and T: "tally_chain E visible chain sc p" and "visible s (tally_key sc p) = None"
  shows "\<exists>s'. ts_proposalVotes E TOKEN_SNAPSHOT sc p s = (Inr (votes_of (chain s)), s') \<and>
    visible s' = (visible s)(tally_key sc p \<mapsto> VVotes (votes_of (chain s))) \<and> chain s' = chain s"
proof -
  let ?raw = "ts_proposalVotesRaw E TOKEN_SNAPSHOT sc p"
  obtain s1 where s1: "?raw s = (Inr (votes_of (chain s)), s1)" "visible s1 = visible s" "chain s1 = chain s"
    using T unfolding tally_chain_def by blast
  have get: "ts_proposalVotes E TOKEN_SNAPSHOT sc p = cached E (tally_key sc p) (ttl_ContractState E) votesC ?raw"
    by (simp add: ts_proposalVotes_def by_proposal_def GetOrSetCache_def tally_key_def getCacheKey_def)
  obtain s2 where s2: "cached E (tally_key sc p) (ttl_ContractState E) votesC ?raw s = (Inr (votes_of (chain s)), s2)"
    "visible s2 = (visible s1)(tally_key sc p \<mapsto> VVotes (votes_of (chain s)))"
    using cached_miss_ex [where body = ?raw and s = s and c = votesC and t = "ttl_ContractState E", OF C _ assms(3) s1(1)] by auto
  have "chain (snd (mbind ?raw (\<lambda>a. mret (fst votesC a)) s)) = chain s" by (simp add: s1)
  with T have "chain (snd (getOrSet E (tally_key sc p) (mbind ?raw (\<lambda>a. mret (fst votesC a)))
      (fst (ttl_ContractState E)) (snd (ttl_ContractState E)) s)) = chain s"
    unfolding tally_chain_def by blast
  then have "chain (snd (cached E (tally_key sc p) (ttl_ContractState E) votesC ?raw s)) = chain s"
    by (auto simp: cached_def mbind_def split: prod.split sum.split)
  then have "chain s2 = chain s" by (simp add: s2(1))
  with s2 s1(2) show ?thesis by (auto simp: get)
qed

text \<open>The steps of a run, each as a state that it reaches.\<close>

definition finds ::
  "('x st \<Rightarrow> string \<Rightarrow> cval option) \<Rightarrow> ('x st \<Rightarrow> tally) \<Rightarrow> string \<Rightarrow> int \<Rightarrow> tally option \<Rightarrow> tally \<Rightarrow> 'x votes_run \<Rightarrow> bool" where
  "finds visible chain sc p entry counted w \<longleftrightarrow>
     visible (live w) (tally_key sc p) = map_option (\<lambda>t. VVotes (votes_of t)) entry \<and> chain (live w) = counted"

lemma run_expires:
  assumes expire: "\<forall>s. \<exists>s'. visible s' = (visible s)(tally_key sc p := None) \<and> chain s' = chain s"
    and w: "votes_reach E X visible chain sc p True w0 w" "finds visible chain sc p e n w"
  shows "\<exists>w'. votes_reach E X visible chain sc p True w0 w' \<and> finds visible chain sc p None n w' \<and>
    queued w' = queued w \<and> in_hand w' = in_hand w \<and> fetched w' = fetched w"
proof -
  obtain s' where s': "visible s' = (visible (live w))(tally_key sc p := None)" "chain s' = chain (live w)"
    using expire by blast
  then have "votes_step E X visible chain sc p True w (w\<lparr>live := s'\<rparr>)" by (intro votes_step.expires) simp_all
  from votes_reach.continues [OF w(1) this] s' w(2) show ?thesis
    by (intro exI [of _ "w\<lparr>live := s'\<rparr>"]) (simp add: finds_def)
qed

lemma run_votes:
  assumes vote: "\<forall>s. \<exists>s'. visible s' = visible s \<and> chain s' = adds c (chain s)"
    and ev: "event_casts E X ev c" "c_contract c = sc" "c_proposal c = p"
    and w: "votes_reach E X visible chain sc p True w0 w" "finds visible chain sc p e n w"
  shows "\<exists>w'. votes_reach E X visible chain sc p True w0 w' \<and> finds visible chain sc p e (adds c n) w' \<and>
    queued w' = queued w @ [(ev, c)] \<and> in_hand w' = in_hand w \<and> fetched w' = fetched w"
proof -
  obtain s' where s': "visible s' = visible (live w)" "chain s' = adds c (chain (live w))" using vote by blast
  then have "votes_step E X visible chain sc p True w (w\<lparr>live := s', queued := queued w @ [(ev, c)]\<rparr>)"
    by (intro votes_step.votes ev)
  from votes_reach.continues [OF w(1) this] s' w(2) show ?thesis
    by (intro exI [of _ "w\<lparr>live := s', queued := queued w @ [(ev, c)]\<rparr>"]) (simp add: finds_def)
qed

lemma run_misses:
  assumes T: "tally_chain E visible chain sc p" and "fetched w i = None"
    and w: "votes_reach E X visible chain sc p True w0 w" "finds visible chain sc p None n w"
  shows "\<exists>w'. votes_reach E X visible chain sc p True w0 w' \<and> finds visible chain sc p None n w' \<and>
    queued w' = queued w \<and> in_hand w' = in_hand w \<and> fetched w' = (fetched w)(i \<mapsto> votes_of n)"
proof -
  obtain s' where s': "ts_proposalVotesRaw E TOKEN_SNAPSHOT sc p (live w) = (Inr (votes_of n), s')"
    "visible s' = visible (live w)" "chain s' = n"
    using T w(2) unfolding tally_chain_def finds_def by metis
  then have "votes_step E X visible chain sc p True w (w\<lparr>live := s', fetched := (fetched w)(i \<mapsto> votes_of n)\<rparr>)"
    using w(2) assms(2) by (intro votes_step.misses) (simp_all add: finds_def)
  from votes_reach.continues [OF w(1) this] s' w(2) show ?thesis
    by (intro exI [of _ "w\<lparr>live := s', fetched := (fetched w)(i \<mapsto> votes_of n)\<rparr>"]) (simp add: finds_def)
qed

lemma run_fills:
  assumes C: "caching E visible" and T: "tally_chain E visible chain sc p" and i: "fetched w i = Some (votes_of t)"
    and w: "votes_reach E X visible chain sc p True w0 w" "finds visible chain sc p e n w"
  shows "\<exists>w'. votes_reach E X visible chain sc p True w0 w' \<and> finds visible chain sc p (Some t) n w' \<and>
    queued w' = queued w \<and> in_hand w' = in_hand w \<and> fetched w' = (fetched w)(i := None)"
proof -
  obtain s' where s': "cacheSet E (tally_key sc p) (VVotes (votes_of t)) 0 None (live w) = (Inr (), s')"
    "visible s' = (visible (live w))(tally_key sc p \<mapsto> VVotes (votes_of t))" by (rule caching_set [OF C])
  have "chain s' = chain (live w)" using T s'(1) unfolding tally_chain_def by (metis snd_conv)
  moreover have "votes_step E X visible chain sc p True w (w\<lparr>live := s', fetched := (fetched w)(i := None)\<rparr>)"
    using i s'(1) by (rule votes_step.fills)
  ultimately show ?thesis using votes_reach.continues [OF w(1)] s' w(2)
    by (intro exI [of _ "w\<lparr>live := s', fetched := (fetched w)(i := None)\<rparr>"]) (simp add: finds_def)
qed

text \<open>The handler takes the event and writes: it adds the vote to the entry, or to the contract's tally.\<close>

lemma run_handles:
  assumes C: "caching E visible" and N: "sdk_names E X" and T: "tally_chain E visible chain sc p"
    and ev: "event_casts E X ev c" "c_contract c = sc" "c_proposal c = p" and q: "queued w = (ev, c) # rest" "in_hand w = None"
    and t: "0 \<le> t_total (case e of Some t \<Rightarrow> t | None \<Rightarrow> n)"
    and w: "votes_reach E X visible chain sc p True w0 w" "finds visible chain sc p e n w"
  shows "\<exists>w'. votes_reach E X visible chain sc p True w0 w' \<and>
    finds visible chain sc p (Some (adds c (case e of Some t \<Rightarrow> t | None \<Rightarrow> n))) n w' \<and>
    queued w' = rest \<and> in_hand w' = None \<and> fetched w' = fetched w"
proof -
  let ?t = "case e of Some t \<Rightarrow> t | None \<Rightarrow> n"
  let ?v = "votes_of (adds c ?t)"
  have "\<exists>s1. ts_proposalVotes E TOKEN_SNAPSHOT sc p (live w) = (Inr (votes_of ?t), s1) \<and> chain s1 = n"
  proof (cases e)
    case None
    with w(2) have "visible (live w) (tally_key sc p) = None" "chain (live w) = n" by (simp_all add: finds_def)
    with read_tally_miss [OF C T] None show ?thesis by auto
  next
    case (Some t)
    with w(2) have "visible (live w) (tally_key sc p) = Some (VVotes (votes_of t))" "chain (live w) = n"
      by (simp_all add: finds_def)
    with read_tally [OF C] Some show ?thesis by auto
  qed
  then obtain s1 where s1: "ts_proposalVotes E TOKEN_SNAPSHOT sc p (live w) = (Inr (votes_of ?t), s1)" "chain s1 = n"
    by blast
  let ?w1 = "w\<lparr>live := s1, queued := rest, in_hand := Some (c, ?v)\<rparr>"
  have "votes_step E X visible chain sc p True w ?w1"
    using q(2,1) increase_read [OF N ev t s1(1)] by (rule votes_step.takes)
  with w(1) have r1: "votes_reach E X visible chain sc p True w0 ?w1" by (rule votes_reach.continues)
  obtain s2 where s2: "set_proposalVotes E sc p ?v s1 = (Inr (tally_key sc p), s2)"
    "visible s2 = (visible s1)(tally_key sc p \<mapsto> VVotes ?v)" by (rule put_tally [OF C])
  have "votes_step E X visible chain sc p True ?w1 (?w1\<lparr>live := s2, in_hand := None\<rparr>)"
    by (rule votes_step.writes [where c = c and v = ?v and k = "tally_key sc p"]) (simp_all add: s2(1))
  from votes_reach.continues [OF r1 this] set_votes_chain [OF T s2(1)] s1(2) s2(2) show ?thesis
    by (intro exI [of _ "?w1\<lparr>live := s2, in_hand := None\<rparr>"]) (simp add: finds_def)
qed

text \<open>
  C13: what the expiry of an entry does to the votes of a proposal. From a state where the entry is right,
  there are runs after which nothing is in flight and the entry is wrong. In one the entry expires before
  the event of a vote is handled: the handler asks the contract, which has already counted the vote, and
  adds it again. In the other two readers miss, and the slower one writes what it was told before the
  vote over the votes that the handler has written: the vote is lost to all readers.
\<close>

theorem expired_votes_drift:
  assumes C: "caching E visible" and N: "sdk_names E X" and T: "tally_chain E visible chain sc p"
    and ev: "event_casts E X ev c" "c_contract c = sc" "c_proposal c = p"
    and vote: "\<forall>s. \<exists>s'. visible s' = visible s \<and> chain s' = adds c (chain s)"
    and expire: "\<forall>s. \<exists>s'. visible s' = (visible s)(tally_key sc p := None) \<and> chain s' = chain s"
    and t: "chain s = t" "0 \<le> t_total t" "visible s (tally_key sc p) = Some (VVotes (votes_of t))"
  shows "(\<exists>w. votes_reach E X visible chain sc p True (start_run s) w \<and> drained w \<and> chain (live w) = adds c t \<and>
      ts_proposalVotes E TOKEN_SNAPSHOT sc p (live w) = (Inr (votes_of (adds c (adds c t))), live w)) \<and>
    (\<exists>w. votes_reach E X visible chain sc p True (start_run s) w \<and> drained w \<and> chain (live w) = adds c t \<and>
      ts_proposalVotes E TOKEN_SNAPSHOT sc p (live w) = (Inr (votes_of t), live w))"
proof
  let ?reach = "votes_reach E X visible chain sc p True (start_run s)"
  let ?finds = "finds visible chain sc p"
  have ends: "drained w \<and> chain (live w) = n \<and> ts_proposalVotes E TOKEN_SNAPSHOT sc p (live w) = (Inr (votes_of u), live w)"
    if "?finds (Some u) n w" "queued w = []" "in_hand w = None" "fetched w = Map.empty" for u n w
    using that read_tally [OF C, of "live w"] by (simp add: finds_def drained_def)
  have 0: "?reach (start_run s)" "?finds (Some t) t (start_run s)" "queued (start_run s) = []"
    "in_hand (start_run s) = None" "fetched (start_run s) = Map.empty"
    using t by (auto simp: start_run_def finds_def intro: votes_reach.begins)
  obtain a where a: "?reach a" "?finds None t a" "queued a = []" "in_hand a = None" "fetched a = Map.empty"
    using run_expires [OF expire 0(1,2)] 0(3-5) by auto
  show "\<exists>w. ?reach w \<and> drained w \<and> chain (live w) = adds c t \<and>
      ts_proposalVotes E TOKEN_SNAPSHOT sc p (live w) = (Inr (votes_of (adds c (adds c t))), live w)"
  proof -
    obtain b where b: "?reach b" "?finds None (adds c t) b" "queued b = [(ev, c)]" "in_hand b = None" "fetched b = Map.empty"
      using run_votes [OF vote ev a(1,2)] a(3-5) by auto
    obtain d where "?reach d" "?finds (Some (adds c (adds c t))) (adds c t) d" "queued d = []" "in_hand d = None"
      "fetched d = Map.empty"
      using run_handles [OF C N T ev b(3,4) _ b(1,2)] adds_total [OF N ev(1) t(2)] b(5) by auto
    then show ?thesis using ends by blast
  qed
  show "\<exists>w. ?reach w \<and> drained w \<and> chain (live w) = adds c t \<and>
      ts_proposalVotes E TOKEN_SNAPSHOT sc p (live w) = (Inr (votes_of t), live w)"
  proof -
    obtain b where b: "?reach b" "?finds None t b" "queued b = []" "in_hand b = None" "fetched b = [0 \<mapsto> votes_of t]"
      using run_misses [OF T, of a 0, OF _ a(1,2)] a(3-5) by auto
    obtain d where d: "?reach d" "?finds None t d" "queued d = []" "in_hand d = None"
        "fetched d = [0 \<mapsto> votes_of t, 1 \<mapsto> votes_of t]"
      using run_misses [OF T, of b 1, OF _ b(1,2)] b(3-5) by auto
    obtain f where f: "?reach f" "?finds (Some t) t f" "queued f = []" "in_hand f = None" "fetched f = [1 \<mapsto> votes_of t]"
      using run_fills [OF C T, of d 0 t, OF _ d(1,2)] d(3-5) by (auto simp: fun_upd_twist)
    obtain g where g: "?reach g" "?finds (Some t) (adds c t) g" "queued g = [(ev, c)]" "in_hand g = None"
        "fetched g = [1 \<mapsto> votes_of t]"
      using run_votes [OF vote ev f(1,2)] f(3-5) by auto
    obtain h where h: "?reach h" "?finds (Some (adds c t)) (adds c t) h" "queued h = []" "in_hand h = None"
        "fetched h = [1 \<mapsto> votes_of t]"
      using run_handles [OF C N T ev g(3,4) _ g(1,2)] t(2) g(5) by auto
    obtain k where "?reach k" "?finds (Some t) (adds c t) k" "queued k = []" "in_hand k = None" "fetched k = Map.empty"
      using run_fills [OF C T, of h 1 t, OF _ h(1,2)] h(3-5) by auto
    then show ?thesis using ends by blast
  qed
qed


section \<open>Requests after a block of votes\<close>

lemma tallies_fold:
  "tallies (foldl cast_on b cs) (sc, p) =
     map_option (\<lambda>t. add_all t (filter (\<lambda>c. c_contract c = sc \<and> c_proposal c = p) cs)) (tallies b (sc, p))"
  by (induction cs arbitrary: b) (auto simp: cast_on_def Let_def adds_def option.map_comp comp_def option.map_ident)

lemma votes_cast_fold:
  "votes_cast (foldl cast_on b cs) (sc, u) =
     map_option (\<lambda>f. foldl (\<lambda>f c. f(c_proposal c \<mapsto> c_kind c)) f (filter (\<lambda>c. c_contract c = sc \<and> c_voter c = u) cs))
       (votes_cast b (sc, u))"
  by (induction cs arbitrary: b) (auto simp: cast_on_def Let_def option.map_comp comp_def option.map_ident)

lemma last_kind:
  "foldl (\<lambda>f c. f(c_proposal c \<mapsto> c_kind c)) f cs p =
     (case filter (\<lambda>c. c_proposal c = p) cs of [] \<Rightarrow> f p | d # ds \<Rightarrow> Some (c_kind (last (d # ds))))"
  by (induction cs rule: rev_induct) (auto simp: last_append split: list.splits)

lemma represents_tally:
  "represents V b \<Longrightarrow> tallies b (sc, p) = Some t \<Longrightarrow> V (tally_key sc p) = Some (VVotes (votes_of t))"
  by (simp add: represents_def)

lemma represents_kinds:
  assumes "represents V b" "votes_cast b (sc, u) = Some f"
  obtains m where "V (types_key sc u) = Some (VVoteTypes m)" "map_of m = f"
  using assms unfolding represents_def by metis

lemma all2_right: "list_all2 P xs ys \<Longrightarrow> y \<in> set ys \<Longrightarrow> \<exists>x. P x y"
  by (induction rule: list_all2_induct) auto

definition of_proposal :: "governance_proposal \<Rightarrow> cast \<Rightarrow> bool" where
  "of_proposal q c \<longleftrightarrow> c_contract c = contractAddress q \<and> c_proposal c = proposalId q"

lemma vote_request:
  assumes C: "caching E visible" and "userService E (contractAddress q) = Some TokenSnapshotService" and "u \<noteq> []"
    and m: "visible s (types_key (contractAddress q) u) = Some (VVoteTypes m)" "map_of m (proposalId q) = Some k"
  shows "res_userVoteType E u q s = (Inr (VoteNum k), s) \<and> res_hasVoted E u q s = (Inr (k \<noteq> NotVoted), s)"
proof -
  have "userVotedProposalsWithVoteType E (contractAddress q) u (proposalId q) s = (Inr k, s)"
    using m(2) by (simp add: userVotedProposalsWithVoteType_def read_types [OF C m(1)])
  then have "svc_userVote E (contractAddress q) (proposalId q) (Some u) s = (Inr (VoteNum k), s)"
    using assms(2,3) by (simp add: svc_userVote_def ts_userVote_def given_def)
  then show ?thesis by (simp add: res_userVoteType_def res_hasVoted_def has_voted_def)
qed

text \<open>
  C11: what requests see after a block of votes on a token snapshot contract. For every proposal of such a
  contract and every user who voted for it in the block: the votes that the resolver serves are the earlier
  tally with the votes of this proposal in the block added, and no others; the user is reported to
  have voted, and the kind of the vote is that of the user's last vote in the block.
\<close>

theorem block_votes_served:
  assumes C: "caching E visible" and Q: "quiet E visible" and N: "sdk_names E X"
    and block: "be_events block = Some events" "list_all2 (event_casts E X) events casts"
    and mine: "\<forall>ev\<in>set events. re_address ev \<in> set filterAddresses"
    and pulse: "pulse_linear E = Inr pulse_contracts" "\<forall>ev\<in>set events. re_address ev \<notin> set pulse_contracts"
    and b: "represents (visible s) b" "\<forall>c\<in>set casts. covers b c"
    and q: "useAbi E (contractAddress q) = Some TokenSnapshotAbi" "userService E (contractAddress q) = Some TokenSnapshotService"
    and t: "tallies b (contractAddress q, proposalId q) = Some t"
    and u: "u \<noteq> []" "filter (\<lambda>c. of_proposal q c \<and> c_voter c = u) casts \<noteq> []"
  shows "\<exists>s'. consumeEvents E X filterAddresses block s = (Inr (), s') \<and>
    res_votes E q s' = (Inr (votes_of (add_all t (filter (of_proposal q) casts))), s') \<and>
    res_hasVoted E u q s' = (Inr True, s') \<and>
    res_userVoteType E u q s' = (Inr (VoteNum (c_kind (last (filter (\<lambda>c. of_proposal q c \<and> c_voter c = u) casts)))), s')"
proof -
  let ?b = "foldl cast_on b casts"
  let ?sc = "contractAddress q" and ?p = "proposalId q"
  let ?mine = "filter (\<lambda>c. of_proposal q c \<and> c_voter c = u) casts"
  obtain s' where s': "consumeEvents E X filterAddresses block s = (Inr (), s')" "represents (visible s') ?b"
    using block_of_votes [OF C Q N block mine pulse b] by blast
  have "tallies ?b (?sc, ?p) = Some (add_all t (filter (of_proposal q) casts))"
    using t by (simp add: tallies_fold of_proposal_def [abs_def])
  from represents_tally [OF s'(2) this] have votes: "res_votes E q s' = (Inr (votes_of (add_all t (filter (of_proposal q) casts))), s')"
    using read_tally [OF C] q(1) by (simp add: res_votes_def abi_proposalVotes_def with_abi_def)
  have last: "last ?mine \<in> set casts" "c_contract (last ?mine) = ?sc" "c_voter (last ?mine) = u"
    using last_in_set [OF u(2)] by (auto simp: of_proposal_def)
  then obtain f where f: "votes_cast b (?sc, u) = Some f" using b(2) by (auto simp: covers_def)
  let ?f = "foldl (\<lambda>f c. f(c_proposal c \<mapsto> c_kind c)) f (filter (\<lambda>c. c_contract c = ?sc \<and> c_voter c = u) casts)"
  have "votes_cast ?b (?sc, u) = Some ?f" using f by (simp add: votes_cast_fold)
  from represents_kinds [OF s'(2) this]
  obtain m where m: "visible s' (types_key ?sc u) = Some (VVoteTypes m)" "map_of m = ?f" .
  have "filter (\<lambda>c. c_proposal c = ?p) (filter (\<lambda>c. c_contract c = ?sc \<and> c_voter c = u) casts) = ?mine"
    unfolding filter_filter of_proposal_def by (rule filter_cong) auto
  with u(2) have kind: "map_of m ?p = Some (c_kind (last ?mine))"
    unfolding m(2) last_kind by (simp split: list.split)
  obtain ev where "event_casts E X ev (last ?mine)" using all2_right [OF block(2) last(1)] by (elim exE)
  then have "c_kind (last ?mine) \<noteq> NotVoted"
    using event_kind [of E "eventName X ev"] N by (simp add: event_casts_def sdk_names_def)
  with vote_request [OF C q(2) u(1) m(1) kind] votes s'(1) show ?thesis by (intro exI [of _ s']) simp
qed


section \<open>Witnesses\<close>

text \<open>A contract that has counted some votes for the proposal, of seven each, and answers with them.\<close>

definition counted_votes :: "nat \<Rightarrow> tally" where
  "counted_votes n = \<lparr>t_up = 7 * int n, t_down = 0, t_veto = 0, t_abstain = 0, t_quorum = 49 * int n\<rparr>"

definition counted_struct :: "nat \<Rightarrow> scval" where
  "counted_struct n = SStruct [(''up_votes'', SBig (7 * int n)), (''down_votes'', SBig 0), (''abstain_votes'', SBig 0),
     (''down_veto_votes'', SBig 0), (''quorum'', SBig (49 * int n))]"

definition counting_env :: "memory_state env" where
  "counting_env = example_env\<lparr>readFile := \<lambda>p. mret ''{}'', JSON_parse := \<lambda>j. Inr (JObj []),
     abi_governance := \<lambda>t. Some (''abi/'' @ t),
     queryContract := \<lambda>q. mbind (mget outside) (\<lambda>n.
       mret \<lparr>returnData = replicate n ''vote'', returnCode = ''ok'', returnMessage = []\<rparr>),
     buffersToValues := \<lambda>parts j endpoint. Inr [counted_struct (length parts)]\<rparr>"

lemma counting_caching: "caching counting_env store"
  by (rule memory_caching) (simp add: memory_cache_def counting_env_def example_env_def memory_env_def)

lemma counting_names: "sdk_names counting_env example_sdk"
  by (simp add: sdk_names_def event_names_ok_def event_votes_def example_sdk_def counting_env_def)

lemma counted_answer: "snapshot_votes (counted_struct n) = Inr (votes_of (counted_votes n))"
  using snapshot_votes_of [of "counted_struct n" "7 * int n" 0 0 0 "49 * int n"]
  by (simp add: counted_struct_def counted_votes_def sc_field_def tally_of_info_def)

lemma counting_chain: "tally_chain counting_env store (\<lambda>s. counted_votes (outside s)) ''erdB'' 1"
  unfolding tally_chain_def
proof (intro conjI allI impI)
  fix s
  show "\<exists>s'. ts_proposalVotesRaw counting_env TOKEN_SNAPSHOT ''erdB'' 1 s = (Inr (votes_of (counted_votes (outside s))), s') \<and>
      store s' = store s \<and> counted_votes (outside s') = counted_votes (outside s)"
  proof -
    obtain r s1 where r: "getGovernanceSmartContract counting_env ''erdB'' TOKEN_SNAPSHOT s = (Inr r, s1)"
      "store s1 = store s" "outside s1 = outside s"
      by (cases "smartContracts s (contract_key \<lparr>cr_address = ''erdB'', cr_abiPath = Some (''abi/'' @ type_string TOKEN_SNAPSHOT),
            cr_interface = ''GovernanceV2''\<rparr>)")
         (simp_all add: getGovernanceSmartContract_def getSmartContract_def createSmartContract_def load_contract_def
           mthen_apply counting_env_def example_env_def memory_env_def)
    have "getGenericData counting_env i s1 =
        (Inr \<lparr>to_returnCode = ''ok'', to_returnMessage = [], to_values = [counted_struct (outside s1)]\<rparr>, s1)" for i
      by (simp add: getGenericData_def parseQueryResponse_def counting_env_def example_env_def memory_env_def)
    with r show ?thesis
      by (simp add: ts_proposalVotesRaw_def firstValue_def counted_answer)
  qed
next
  fix k v r l s
  show "counted_votes (outside (snd (cacheSet counting_env k v r l s))) = counted_votes (outside s)"
    by (simp add: counting_env_def example_env_def memory_env_def)
next
  fix k and f :: "(memory_state, cval) prog" and r l s
  assume f: "counted_votes (outside (snd (f s))) = counted_votes (outside s)"
  have "getOrSet counting_env = memory_getOrSet"
    by (simp add: counting_env_def example_env_def memory_env_def)
  with f show "counted_votes (outside (snd (getOrSet counting_env k f r l s))) = counted_votes (outside s)"
    by (auto simp: memory_getOrSet_def split: option.split prod.split sum.split)
qed

definition up_cast :: cast where
  "up_cast = \<lparr>c_contract = ''erdB'', c_voter = ''erdU'', c_proposal = 1, c_kind = UpVote, c_votes = 7, c_quorum = 49\<rparr>"

lemma up_event: "event_casts counting_env example_sdk (vote_event ''upVoteCast'' ''erdU'') up_cast"
  by (simp add: up_cast_def event_casts_def vote_event_def example_sdk_def topic_def event_votes_def toVoteType_def counting_env_def)

lemma adds_up: "adds up_cast (counted_votes n) = counted_votes (Suc n)"
  by (simp add: adds_def up_cast_def counted_votes_def t_add_def)

definition counted_memory :: memory_state where
  "counted_memory = empty_memory\<lparr>store := [tally_key ''erdB'' 1 \<mapsto> VVotes (votes_of (counted_votes 0))]\<rparr>"

lemma counted_memory_simps: "outside counted_memory = 0"
  "store counted_memory (tally_key ''erdB'' 1) = Some (VVotes (votes_of (counted_votes 0)))"
  by (simp_all add: counted_memory_def empty_memory_def)

theorem expired_votes_drift_witness:
  "(\<exists>w. votes_reach counting_env example_sdk store (\<lambda>s. counted_votes (outside s)) ''erdB'' 1 True (start_run counted_memory) w \<and>
      drained w \<and> counted_votes (outside (live w)) = counted_votes 1 \<and>
      ts_proposalVotes counting_env TOKEN_SNAPSHOT ''erdB'' 1 (live w) = (Inr (votes_of (counted_votes 2)), live w)) \<and>
   (\<exists>w. votes_reach counting_env example_sdk store (\<lambda>s. counted_votes (outside s)) ''erdB'' 1 True (start_run counted_memory) w \<and>
      drained w \<and> counted_votes (outside (live w)) = counted_votes 1 \<and>
      ts_proposalVotes counting_env TOKEN_SNAPSHOT ''erdB'' 1 (live w) = (Inr (votes_of (counted_votes 0)), live w))"
proof -
  have vote: "\<forall>s :: memory_state. \<exists>s' :: memory_state. store s' = store s \<and> counted_votes (outside s') = adds up_cast (counted_votes (outside s))"
  proof
    fix s :: memory_state
    show "\<exists>s' :: memory_state. store s' = store s \<and> counted_votes (outside s') = adds up_cast (counted_votes (outside s))"
      by (rule exI [of _ "s\<lparr>outside := Suc (outside s)\<rparr>"]) (simp add: adds_up)
  qed
  have expire: "\<forall>s :: memory_state. \<exists>s' :: memory_state. store s' = (store s)(tally_key ''erdB'' 1 := None) \<and>
      counted_votes (outside s') = counted_votes (outside s)"
  proof
    fix s :: memory_state
    show "\<exists>s' :: memory_state. store s' = (store s)(tally_key ''erdB'' 1 := None) \<and> counted_votes (outside s') = counted_votes (outside s)"
      by (rule exI [of _ "s\<lparr>store := (store s)(tally_key ''erdB'' 1 := None)\<rparr>"]) simp
  qed
  have c: "c_contract up_cast = ''erdB''" "c_proposal up_cast = 1" by (simp_all add: up_cast_def)
  have t: "counted_votes (outside counted_memory) = counted_votes 0" "0 \<le> t_total (counted_votes 0)"
    by (simp_all add: counted_memory_simps counted_votes_def t_total_def)
  from expired_votes_drift [OF counting_caching counting_names counting_chain up_event c vote expire t
      counted_memory_simps(2)]
  show ?thesis by (simp add: adds_up numeral_2_eq_2)
qed

theorem votes_conserved_witness:
  "\<exists>w. votes_reach counting_env example_sdk store (\<lambda>s. counted_votes (outside s)) ''erdB'' 1 False (start_run counted_memory) w \<and>
     queued w \<noteq> [] \<and>
     (\<exists>t. ts_proposalVotes counting_env TOKEN_SNAPSHOT ''erdB'' 1 (live w) = (Inr (votes_of t), live w) \<and>
        add_all t (map snd (queued w)) = counted_votes 1)"
proof -
  let ?chain = "\<lambda>s :: memory_state. counted_votes (outside s)"
  let ?w = "(start_run counted_memory)\<lparr>live := counted_memory\<lparr>outside := 1\<rparr>, queued := [(vote_event ''upVoteCast'' ''erdU'', up_cast)]\<rparr>"
  have "votes_step counting_env example_sdk store ?chain ''erdB'' 1 False (start_run counted_memory)
      ((start_run counted_memory)\<lparr>live := counted_memory\<lparr>outside := 1\<rparr>,
         queued := queued (start_run counted_memory) @ [(vote_event ''upVoteCast'' ''erdU'', up_cast)]\<rparr>)"
    by (rule votes_step.votes [OF up_event]) (simp_all add: up_cast_def start_run_def counted_memory_simps adds_up [unfolded up_cast_def])
  then have run: "votes_reach counting_env example_sdk store ?chain ''erdB'' 1 False (start_run counted_memory) ?w"
    by (intro votes_reach.continues [OF votes_reach.begins]) (simp add: start_run_def)
  have "0 \<le> t_total (?chain counted_memory)"
    "store counted_memory (tally_key ''erdB'' 1) = Some (VVotes (votes_of (?chain counted_memory)))"
    by (simp_all add: counted_memory_simps counted_votes_def t_total_def)
  from votes_conserved [OF counting_caching counting_names counting_chain this run] run show ?thesis
    by (intro exI [of _ ?w]) (simp add: start_run_def, blast)
qed

definition served_proposal :: governance_proposal where
  "served_proposal = GovernanceLKMEXProposal ''erdB''"

lemma served_proposal_simps: "contractAddress served_proposal = ''erdB''" "proposalId served_proposal = 1"
  by (simp_all add: served_proposal_def GovernanceLKMEXProposal_def)

theorem block_votes_served_witness:
  "\<exists>s'. consumeEvents example_env example_sdk [''erdB''] two_votes ballot_memory = (Inr (), s') \<and>
     res_votes example_env served_proposal s' =
       (Inr (votes_of \<lparr>t_up = 7, t_down = 7, t_veto = 0, t_abstain = 0, t_quorum = 98\<rparr>), s') \<and>
     res_hasVoted example_env ''erdW'' served_proposal s' = (Inr True, s') \<and>
     res_userVoteType example_env ''erdW'' served_proposal s' = (Inr (VoteNum DownVote), s')"
proof -
  let ?events = "[vote_event ''upVoteCast'' ''erdU'', vote_event ''downVoteCast'' ''erdW'']"
  have b: "be_events two_votes = Some ?events" by (simp add: two_votes_def)
  have addr: "\<forall>ev\<in>set ?events. re_address ev \<in> set [''erdB'']" "\<forall>ev\<in>set ?events. re_address ev \<notin> set [''erdD'']"
    by (simp_all add: vote_event_def)
  have cov: "\<forall>c\<in>set two_casts. covers open_ballot c" by (simp add: two_casts_def covers_def open_ballot_def)
  have q: "useAbi example_env (contractAddress served_proposal) = Some TokenSnapshotAbi"
    "userService example_env (contractAddress served_proposal) = Some TokenSnapshotService"
    by (simp_all add: served_proposal_simps useAbi_def userService_def)
  have t: "tallies open_ballot (contractAddress served_proposal, proposalId served_proposal) = Some zero_tally"
    by (simp add: served_proposal_simps open_ballot_def)
  have mine: "filter (of_proposal served_proposal) two_casts = two_casts"
    "filter (\<lambda>c. of_proposal served_proposal c \<and> c_voter c = ''erdW'') two_casts = [two_casts ! 1]"
    by (simp_all add: two_casts_def of_proposal_def served_proposal_simps)
  have r: "add_all zero_tally two_casts = \<lparr>t_up = 7, t_down = 7, t_veto = 0, t_abstain = 0, t_quorum = 98\<rparr>"
    "c_kind (two_casts ! 1) = DownVote"
    by (simp_all add: two_casts_def adds_def t_add_def zero_tally_def)
  from block_votes_served [OF example_caching example_quiet example_sdk_names b two_votes_cast addr(1)
      pulse_linear_example addr(2) ballot_memory_represents cov q t, of "''erdW''"]
  show ?thesis by (simp add: mine r r(2) [unfolded One_nat_def])
qed

end
