(* ===== verification/Gov_Auth.thy ===== *)
theory Gov_Auth
  imports Gov_Registry
begin

text \<open>
  The guards of the requests: \<open>native.auth.guard.ts\<close> and \<open>native.admin.guard.ts\<close>. The token server of
  the SDK and the environment variables are parameters. The first guard keeps the address to
  impersonate in a field of the guard, which all requests share while they wait for the token server;
  so its two halves are steps of a transition system in which requests interleave.
\<close>

section \<open>Requests\<close>

record request_headers =
  h_impersonate :: "string option"
  h_authorization :: "string option"
  h_origin :: "string option"

record user_info =
  ui_address :: string
  ui_origin :: string
  ui_issued :: int
  ui_expires :: int

record auth_env =
  validate :: "string \<Rightarrow> exn + user_info"
  isLocalhost :: "string option \<Rightarrow> bool"
  securityAdmins :: "string option"
  auth_time :: int

text \<open>
  What a granted request carries: \<open>req.auth\<close> and \<open>req.jwt\<close>, which are one object, and the headers of the
  response.
\<close>

record granted =
  g_auth :: user_info
  g_headers :: "string \<Rightarrow> string option"

definition present :: "string option \<Rightarrow> bool" where
  "present t \<longleftrightarrow> t \<noteq> None \<and> t \<noteq> Some []"

definition bearer :: "request_headers \<Rightarrow> exn + string" where
  "bearer h =
     (case h_authorization h of
        None \<Rightarrow> Inl UnauthorizedException
      | Some a \<Rightarrow> if a = [] then Inl UnauthorizedException else Inr (replace_first ''Bearer '' [] a))"

definition address_header :: string where
  "address_header = ''X-Native-Auth-Address''"

definition auth_headers :: "auth_env \<Rightarrow> user_info \<Rightarrow> string \<Rightarrow> string option" where
  "auth_headers A u =
     [''X-Native-Auth-Issued'' \<mapsto> show_int (ui_issued u), ''X-Native-Auth-Expires'' \<mapsto> show_int (ui_expires u),
      address_header \<mapsto> ui_address u, ''X-Native-Auth-Timestamp'' \<mapsto> show_int (auth_time A)]"

text \<open>
  The cache that the two guards hand to the token server. The time of the latest block is the clock of the
  process, in seconds; everything else is in the cache of the service.
\<close>

definition auth_getValue :: "'s env \<Rightarrow> string \<Rightarrow> ('s, cval option) prog" where
  "auth_getValue E key =
     (if key = ''block:timestamp:latest''
      then mbind (now E) (\<lambda>t. mret (Some (VBn (bn_div (bn_int t) (bn_int 1000)))))
      else cacheGet E key)"

definition auth_setValue :: "'s env \<Rightarrow> string \<Rightarrow> cval \<Rightarrow> int \<Rightarrow> ('s, unit) prog" where
  "auth_setValue E key v ttl = cacheSet E key v ttl None"

definition admin_getValue :: "'s env \<Rightarrow> string \<Rightarrow> ('s, cval option) prog" where
  "admin_getValue E key =
     (if key = ''block:timestamp:latest''
      then mbind (now E) (\<lambda>t. mret (Some (VBn (bn_div (bn_int t) (bn_int 1000)))))
      else cacheGet E key)"

definition admin_setValue :: "'s env \<Rightarrow> string \<Rightarrow> cval \<Rightarrow> int \<Rightarrow> ('s, unit) prog" where
  "admin_setValue E key v ttl = cacheSet E key v ttl None"

definition admin_list :: "auth_env \<Rightarrow> exn + string list" where
  "admin_list A = (case securityAdmins A of None \<Rightarrow> Inl TypeError | Some t \<Rightarrow> Inr (split_char (CHR '','') t))"


section \<open>NativeAuthGuard\<close>

record guard_state =
  impersonateAddress :: "string option"

text \<open>The first half, up to the call of the token server; a request without headers throws.\<close>

definition before_validation :: "request_headers option \<Rightarrow> (guard_state, string) prog" where
  "before_validation headers =
     (case headers of
        None \<Rightarrow> mthrow TypeError
      | Some h \<Rightarrow> mthen (mmodify (\<lambda>g. g\<lparr>impersonateAddress := h_impersonate h\<rparr>)) (mlift (bearer h)))"

text \<open>
  The second half: every exception ends in \<open>false\<close>. An origin that does not match is only logged. The
  address to impersonate is the one that the field holds now.
\<close>

definition impersonated :: "auth_env \<Rightarrow> string option \<Rightarrow> granted \<Rightarrow> exn + granted" where
  "impersonated A imp g =
     (if \<not> present imp then Inr g
      else rbind (admin_list A) (\<lambda>admins.
        if ui_address (g_auth g) \<in> set admins \<and> ui_address (g_auth g) \<noteq> []
        then Inr \<lparr>g_auth = (g_auth g)\<lparr>ui_address := the imp\<rparr>,
                  g_headers = (g_headers g)(address_header \<mapsto> the imp)\<rparr>
        else Inr g))"

definition after_validation :: "auth_env \<Rightarrow> exn + user_info \<Rightarrow> (guard_state, granted option) prog" where
  "after_validation A validated =
     mbind (mget impersonateAddress) (\<lambda>imp.
       mret (case rbind validated (\<lambda>u. impersonated A imp \<lparr>g_auth = u, g_headers = auth_headers A u\<rparr>) of
               Inl e \<Rightarrow> None
             | Inr g \<Rightarrow> Some g))"

text \<open>A request that no other one interrupts.\<close>

definition auth_canActivate :: "auth_env \<Rightarrow> request_headers option \<Rightarrow> (guard_state, granted option) prog" where
  "auth_canActivate A headers =
     mbind (before_validation headers) (\<lambda>jwt. after_validation A (validate A jwt))"


section \<open>NativeAdminGuard\<close>

definition origin_accepted :: "auth_env \<Rightarrow> string option \<Rightarrow> user_info \<Rightarrow> bool" where
  "origin_accepted A origin u \<longleftrightarrow>
     isLocalhost A origin \<or> origin = Some (ui_origin u) \<or> origin = Some (''https://'' @ ui_origin u)"

definition admin_canActivate :: "auth_env \<Rightarrow> request_headers option \<Rightarrow> exn + granted option" where
  "admin_canActivate A headers =
     (case headers of
        None \<Rightarrow> Inl TypeError
      | Some h \<Rightarrow> rbind (bearer h) (\<lambda>jwt.
          Inr (case rbind (validate A jwt) (\<lambda>u.
                 if \<not> origin_accepted A (h_origin h) u then Inl (PlainError ''Invalid origin'')
                 else rbind (admin_list A) (\<lambda>admins.
                   Inr (if ui_address u \<in> set admins
                        then Some \<lparr>g_auth = u, g_headers = auth_headers A u\<rparr> else None))) of
               Inl e \<Rightarrow> None
             | Inr r \<Rightarrow> r)))"


section \<open>Requests that interleave\<close>

text \<open>The outcome of a request: an exception, or the answer of the guard.\<close>

datatype outcome = Raised exn | Answered "granted option"

record server =
  guard :: guard_state
  requests :: "nat \<Rightarrow> request_headers option option"
  waiting :: "nat \<Rightarrow> string option"
  outcomes :: "nat \<Rightarrow> outcome option"

definition idle_server :: server where
  "idle_server = \<lparr>guard = \<lparr>impersonateAddress = None\<rparr>, requests = Map.empty, waiting = Map.empty, outcomes = Map.empty\<rparr>"

text \<open>A request arrives and runs up to its call of the token server, or the answer of that call is there.\<close>

definition arrive :: "nat \<Rightarrow> request_headers option \<Rightarrow> server \<Rightarrow> server" where
  "arrive r headers s =
     (case before_validation headers (guard s) of
        (Inl e, g) \<Rightarrow> s\<lparr>guard := g, requests := (requests s)(r \<mapsto> headers), outcomes := (outcomes s)(r \<mapsto> Raised e)\<rparr>
      | (Inr jwt, g) \<Rightarrow> s\<lparr>guard := g, requests := (requests s)(r \<mapsto> headers), waiting := (waiting s)(r \<mapsto> jwt)\<rparr>)"

definition resume :: "auth_env \<Rightarrow> nat \<Rightarrow> string \<Rightarrow> server \<Rightarrow> server" where
  "resume A r jwt s =
     (case after_validation A (validate A jwt) (guard s) of
        (Inl e, g) \<Rightarrow> s\<lparr>guard := g, waiting := (waiting s)(r := None), outcomes := (outcomes s)(r \<mapsto> Raised e)\<rparr>
      | (Inr x, g) \<Rightarrow> s\<lparr>guard := g, waiting := (waiting s)(r := None), outcomes := (outcomes s)(r \<mapsto> Answered x)\<rparr>)"

inductive guard_step :: "auth_env \<Rightarrow> server \<Rightarrow> server \<Rightarrow> bool" for A where
  arrives: "requests s r = None \<Longrightarrow> guard_step A s (arrive r headers s)"
| resumes: "waiting s r = Some jwt \<Longrightarrow> guard_step A s (resume A r jwt s)"

inductive_cases guard_stepE: "guard_step A s s'"

inductive reachable :: "auth_env \<Rightarrow> server \<Rightarrow> bool" for A where
  starts: "reachable A idle_server"
| moves: "reachable A s \<Longrightarrow> guard_step A s s' \<Longrightarrow> reachable A s'"


section \<open>Who acts for whom\<close>

definition justified :: "auth_env \<Rightarrow> server \<Rightarrow> nat \<Rightarrow> granted \<Rightarrow> bool" where
  "justified A s r g \<longleftrightarrow>
     (\<exists>h jwt u. requests s r = Some (Some h) \<and> bearer h = Inr jwt \<and> validate A jwt = Inr u \<and>
        g_headers g address_header = Some (ui_address (g_auth g)) \<and>
        (ui_address (g_auth g) = ui_address u \<or>
         (\<exists>admins. admin_list A = Inr admins \<and> ui_address u \<in> set admins) \<and>
         (\<exists>r' h'. requests s r' = Some (Some h') \<and> h_impersonate h' = Some (ui_address (g_auth g)))))"

definition guard_inv :: "auth_env \<Rightarrow> server \<Rightarrow> bool" where
  "guard_inv A s \<longleftrightarrow>
     (\<forall>a. impersonateAddress (guard s) = Some a \<longrightarrow> (\<exists>r h. requests s r = Some (Some h) \<and> h_impersonate h = Some a)) \<and>
     (\<forall>r jwt. waiting s r = Some jwt \<longrightarrow> (\<exists>h. requests s r = Some (Some h) \<and> bearer h = Inr jwt)) \<and>
     (\<forall>r g. outcomes s r = Some (Answered (Some g)) \<longrightarrow> justified A s r g)"

lemma justified_mono:
  assumes "justified A s r g" and "\<And>q h. requests s q = Some h \<Longrightarrow> requests s' q = Some h"
  shows "justified A s' r g"
proof -
  from assms(1) obtain h jwt u where 1: "requests s r = Some (Some h)" "bearer h = Inr jwt" "validate A jwt = Inr u"
      "g_headers g address_header = Some (ui_address (g_auth g))"
    and 2: "ui_address (g_auth g) = ui_address u \<or>
         (\<exists>admins. admin_list A = Inr admins \<and> ui_address u \<in> set admins) \<and>
         (\<exists>r' h'. requests s r' = Some (Some h') \<and> h_impersonate h' = Some (ui_address (g_auth g)))"
    unfolding justified_def by blast
  then have "ui_address (g_auth g) = ui_address u \<or>
         (\<exists>admins. admin_list A = Inr admins \<and> ui_address u \<in> set admins) \<and>
         (\<exists>r' h'. requests s' r' = Some (Some h') \<and> h_impersonate h' = Some (ui_address (g_auth g)))"
    using assms(2) by blast
  with 1 assms(2) [OF 1(1)] show ?thesis unfolding justified_def by blast
qed

lemma auth_headers_address [simp]: "auth_headers A u address_header = Some (ui_address u)"
  by (simp add: auth_headers_def address_header_def)

lemma before_validation_cases:
  "before_validation headers g =
     (case headers of
        None \<Rightarrow> (Inl TypeError, g)
      | Some h \<Rightarrow> (bearer h, g\<lparr>impersonateAddress := h_impersonate h\<rparr>))"
  by (cases headers) (simp_all add: before_validation_def mthen_def)

lemma arrive_waits:
  "bearer h = Inr jwt \<Longrightarrow> arrive r (Some h) s =
     s\<lparr>guard := (guard s)\<lparr>impersonateAddress := h_impersonate h\<rparr>, requests := (requests s)(r \<mapsto> Some h),
       waiting := (waiting s)(r \<mapsto> jwt)\<rparr>"
  by (simp add: arrive_def before_validation_cases)

lemma arrive_refused:
  "bearer h = Inl e \<Longrightarrow> arrive r (Some h) s =
     s\<lparr>guard := (guard s)\<lparr>impersonateAddress := h_impersonate h\<rparr>, requests := (requests s)(r \<mapsto> Some h),
       outcomes := (outcomes s)(r \<mapsto> Raised e)\<rparr>"
  by (simp add: arrive_def before_validation_cases)

lemma after_validation_apply:
  "after_validation A v g =
     (Inr (case rbind v (\<lambda>u. impersonated A (impersonateAddress g) \<lparr>g_auth = u, g_headers = auth_headers A u\<rparr>) of
             Inl e \<Rightarrow> None | Inr x \<Rightarrow> Some x), g)"
  by (simp add: after_validation_def)

lemma impersonated_cases:
  assumes "impersonated A imp g = Inr g'"
  obtains "g' = g"
    | a admins where "imp = Some a" "admin_list A = Inr admins" "ui_address (g_auth g) \<in> set admins"
      "g' = \<lparr>g_auth = (g_auth g)\<lparr>ui_address := a\<rparr>, g_headers = (g_headers g)(address_header \<mapsto> a)\<rparr>"
proof (cases "present imp")
  case True
  then obtain a where a: "imp = Some a" by (auto simp: present_def)
  show thesis
  proof (cases "admin_list A")
    case (Inr admins)
    show thesis
    proof (cases "ui_address (g_auth g) \<in> set admins \<and> ui_address (g_auth g) \<noteq> []")
      case True
      then show thesis
        using assms \<open>present imp\<close> a Inr by (intro that(2) [OF a Inr]) (simp_all add: impersonated_def)
    next
      case False
      then show thesis
        using assms \<open>present imp\<close> Inr by (intro that(1)) (auto simp: impersonated_def split: if_splits)
    qed
  qed (use assms True in \<open>simp add: impersonated_def\<close>)
next
  case False
  with assms have "g' = g" by (simp add: impersonated_def)
  then show thesis by (rule that(1))
qed

lemma guard_invD:
  assumes "guard_inv A s"
  shows "impersonateAddress (guard s) = Some a \<Longrightarrow> \<exists>r h. requests s r = Some (Some h) \<and> h_impersonate h = Some a"
    and "waiting s r = Some jwt \<Longrightarrow> \<exists>h. requests s r = Some (Some h) \<and> bearer h = Inr jwt"
    and "outcomes s r = Some (Answered (Some g)) \<Longrightarrow> justified A s r g"
  using assms by (simp_all add: guard_inv_def)

text \<open>A step that only adds requests keeps the invariant if what is new in it is accounted for.\<close>

lemma guard_inv_grows:
  assumes I: "guard_inv A s" and mono: "\<And>q x. requests s q = Some x \<Longrightarrow> requests s' q = Some x"
    and imp: "\<And>a. impersonateAddress (guard s') = Some a \<Longrightarrow> impersonateAddress (guard s) = Some a \<or>
        (\<exists>r h. requests s' r = Some (Some h) \<and> h_impersonate h = Some a)"
    and wait: "\<And>q jwt. waiting s' q = Some jwt \<Longrightarrow> waiting s q = Some jwt \<or>
        (\<exists>h. requests s' q = Some (Some h) \<and> bearer h = Inr jwt)"
    and out: "\<And>q g. outcomes s' q = Some (Answered (Some g)) \<Longrightarrow> outcomes s q = Some (Answered (Some g)) \<or> justified A s q g"
  shows "guard_inv A s'"
  unfolding guard_inv_def
proof (intro conjI allI impI)
  show "\<exists>r h. requests s' r = Some (Some h) \<and> h_impersonate h = Some a" if "impersonateAddress (guard s') = Some a" for a
    using imp [OF that] guard_invD(1) [OF I] mono by metis
  show "\<exists>h. requests s' q = Some (Some h) \<and> bearer h = Inr jwt" if "waiting s' q = Some jwt" for q jwt
    using wait [OF that] guard_invD(2) [OF I] mono by metis
  show "justified A s' q g" if "outcomes s' q = Some (Answered (Some g))" for q g
    using out [OF that] guard_invD(3) [OF I] justified_mono [OF _ mono] by blast
qed

lemma arrive_inv:
  assumes I: "guard_inv A s" and fresh: "requests s r = None"
  shows "guard_inv A (arrive r headers s)"
proof (cases headers)
  case None
  then have a: "arrive r headers s = s\<lparr>requests := (requests s)(r \<mapsto> headers), outcomes := (outcomes s)(r \<mapsto> Raised TypeError)\<rparr>"
    by (simp add: arrive_def before_validation_cases)
  have mono: "requests (arrive r headers s) q = Some x" if "requests s q = Some x" for q x
    using that fresh by (auto simp: a)
  show ?thesis
  proof (rule guard_inv_grows [OF I mono])
    show "outcomes s q = Some (Answered (Some g)) \<or> justified A s q g"
      if "outcomes (arrive r headers s) q = Some (Answered (Some g))" for q g
      using that by (auto simp: a split: if_splits)
  qed (simp_all add: a)
next
  case (Some h)
  let ?s = "arrive r headers s"
  have a: "requests ?s = (requests s)(r \<mapsto> Some h)" "guard ?s = (guard s)\<lparr>impersonateAddress := h_impersonate h\<rparr>"
    "waiting ?s = (case bearer h of Inl e \<Rightarrow> waiting s | Inr jwt \<Rightarrow> (waiting s)(r \<mapsto> jwt))"
    "outcomes ?s = (case bearer h of Inl e \<Rightarrow> (outcomes s)(r \<mapsto> Raised e) | Inr jwt \<Rightarrow> outcomes s)"
    using Some by (simp_all add: arrive_def before_validation_cases split: sum.split)
  have mono: "requests ?s q = Some x" if "requests s q = Some x" for q x
    using that fresh by (auto simp: a(1))
  show ?thesis
  proof (rule guard_inv_grows [OF I mono])
    show "impersonateAddress (guard s) = Some b \<or> (\<exists>q h. requests ?s q = Some (Some h) \<and> h_impersonate h = Some b)"
      if "impersonateAddress (guard ?s) = Some b" for b
      using that by (intro disjI2 exI [of _ r] exI [of _ h]) (simp add: a)
    show "waiting s q = Some jwt \<or> (\<exists>h. requests ?s q = Some (Some h) \<and> bearer h = Inr jwt)"
      if "waiting ?s q = Some jwt" for q jwt
      using that by (auto simp: a split: sum.splits if_splits)
    show "outcomes s q = Some (Answered (Some g)) \<or> justified A s q g"
      if "outcomes ?s q = Some (Answered (Some g))" for q g
      using that by (auto simp: a split: sum.splits if_splits)
  qed
qed

lemma resume_inv:
  assumes I: "guard_inv A s" and w: "waiting s r = Some jwt"
  shows "guard_inv A (resume A r jwt s)"
proof -
  define x where "x = (case rbind (validate A jwt) (\<lambda>u. impersonated A (impersonateAddress (guard s))
      \<lparr>g_auth = u, g_headers = auth_headers A u\<rparr>) of Inl e \<Rightarrow> None | Inr x \<Rightarrow> Some x)"
  have a: "resume A r jwt s = s\<lparr>waiting := (waiting s)(r := None), outcomes := (outcomes s)(r \<mapsto> Answered x)\<rparr>"
    by (simp add: resume_def after_validation_apply x_def)
  have just: "justified A s r g" if "x = Some g" for g
  proof -
    from that obtain u where u: "validate A jwt = Inr u"
      "impersonated A (impersonateAddress (guard s)) \<lparr>g_auth = u, g_headers = auth_headers A u\<rparr> = Inr g"
      by (auto simp: x_def rbind_Inr_iff split: sum.splits)
    obtain h where h: "requests s r = Some (Some h)" "bearer h = Inr jwt"
      using guard_invD(2) [OF I w] by blast
    from u(2) show ?thesis
    proof (cases rule: impersonated_cases)
      case 1
      then show ?thesis using h u(1) by (auto simp: justified_def)
    next
      case (2 b admins)
      moreover obtain q h' where "requests s q = Some (Some h')" "h_impersonate h' = Some b"
        using guard_invD(1) [OF I 2(1)] by blast
      ultimately show ?thesis using h u(1) by (auto simp: justified_def)
    qed
  qed
  show ?thesis
  proof (rule guard_inv_grows [OF I])
    show "outcomes s q = Some (Answered (Some g)) \<or> justified A s q g"
      if "outcomes (resume A r jwt s) q = Some (Answered (Some g))" for q g
      using that just by (auto simp: a split: if_splits)
  qed (auto simp: a split: if_splits)
qed

lemma guard_step_inv: "guard_step A s s' \<Longrightarrow> guard_inv A s \<Longrightarrow> guard_inv A s'"
  by (auto elim!: guard_stepE intro: arrive_inv resume_inv)

lemma reachable_inv: "reachable A s \<Longrightarrow> guard_inv A s"
proof (induction rule: reachable.induct)
  case starts
  show ?case by (simp add: guard_inv_def idle_server_def)
qed (rule guard_step_inv)


text \<open>
  C18: only administrators ever act for somebody else. However requests interleave, a request that the
  guard granted had a token of some user that the token server accepted; it acts as that user, or the
  user is an administrator and the address it acts for was named by the impersonation header of some
  request. The response names the address that the request acts for.
\<close>

theorem only_admins_impersonate:
  assumes "reachable A s" and "outcomes s r = Some (Answered (Some g))"
  shows "\<exists>h jwt u. requests s r = Some (Some h) \<and> bearer h = Inr jwt \<and> validate A jwt = Inr u \<and>
    g_headers g address_header = Some (ui_address (g_auth g)) \<and>
    (ui_address (g_auth g) = ui_address u \<or>
     (\<exists>admins. admin_list A = Inr admins \<and> ui_address u \<in> set admins) \<and>
     (\<exists>r' h'. requests s r' = Some (Some h') \<and> h_impersonate h' = Some (ui_address (g_auth g))))"
  using guard_invD(3) [OF reachable_inv [OF assms(1)] assms(2)] by (simp only: justified_def)

definition intruder :: "string \<Rightarrow> request_headers" where
  "intruder a = \<lparr>h_impersonate = Some a, h_authorization = None, h_origin = None\<rparr>"

text \<open>
  C31: the address to impersonate crosses from one request to another. An administrator's request that
  names no address acts for the administrator when nothing interrupts it. But when a request without
  any authorization arrives while the token is being validated, the administrator's request acts for
  the address that the other one names, which may be any, although the other one is refused.
\<close>

theorem impersonation_crosses:
  assumes "bearer h = Inr jwt" and "h_impersonate h = None" and "validate A jwt = Inr u"
    and "admin_list A = Inr admins" and "ui_address u \<in> set admins" and "ui_address u \<noteq> []" and "a \<noteq> []"
  shows "(\<forall>gs. \<exists>g gs'. auth_canActivate A (Some h) gs = (Inr (Some g), gs') \<and> ui_address (g_auth g) = ui_address u) \<and>
    (\<exists>s g. reachable A s \<and> requests s 0 = Some (Some h) \<and> requests s 1 = Some (Some (intruder a)) \<and>
       outcomes s 1 = Some (Raised UnauthorizedException) \<and>
       outcomes s 0 = Some (Answered (Some g)) \<and> ui_address (g_auth g) = a)"
proof (intro conjI allI)
  show "\<exists>g gs'. auth_canActivate A (Some h) gs = (Inr (Some g), gs') \<and> ui_address (g_auth g) = ui_address u" for gs
    using assms(1-3) by (simp add: auth_canActivate_def mbind_def before_validation_cases after_validation_apply impersonated_def present_def)
  let ?s1 = "arrive 0 (Some h) idle_server"
  let ?s2 = "arrive 1 (Some (intruder a)) ?s1"
  let ?s3 = "resume A 0 jwt ?s2"
  have s1: "?s1 = idle_server\<lparr>requests := [0 \<mapsto> Some h], waiting := [0 \<mapsto> jwt]\<rparr>"
    using assms(2) by (simp add: arrive_waits [OF assms(1)] idle_server_def)
  have s2: "?s2 = ?s1\<lparr>guard := \<lparr>impersonateAddress = Some a\<rparr>, requests := [0 \<mapsto> Some h, 1 \<mapsto> Some (intruder a)],
      outcomes := [1 \<mapsto> Raised UnauthorizedException]\<rparr>"
  proof -
    have "bearer (intruder a) = Inl UnauthorizedException" by (simp add: intruder_def bearer_def)
    from arrive_refused [OF this, of 1 ?s1] show ?thesis unfolding s1 by (simp add: idle_server_def intruder_def)
  qed
  have imp: "impersonated A (Some a) \<lparr>g_auth = u, g_headers = auth_headers A u\<rparr> =
      Inr \<lparr>g_auth = u\<lparr>ui_address := a\<rparr>, g_headers = (auth_headers A u)(address_header \<mapsto> a)\<rparr>"
    using assms(4-7) by (simp add: impersonated_def present_def)
  have s3: "outcomes ?s3 = [1 \<mapsto> Raised UnauthorizedException,
      0 \<mapsto> Answered (Some \<lparr>g_auth = u\<lparr>ui_address := a\<rparr>, g_headers = (auth_headers A u)(address_header \<mapsto> a)\<rparr>)]"
    "requests ?s3 = requests ?s2"
    unfolding s2 by (simp_all add: resume_def after_validation_apply assms(3) imp)
  have "reachable A ?s1" by (rule moves [OF starts arrives]) (simp add: idle_server_def)
  then have "reachable A ?s2" by (rule moves [OF _ arrives]) (unfold s1, simp add: idle_server_def)
  then have "reachable A ?s3" by (rule moves [OF _ resumes]) (unfold s2, simp add: s1)
  moreover have "requests ?s3 0 = Some (Some h)" "requests ?s3 1 = Some (Some (intruder a))"
    unfolding s3(2) by (unfold s2, simp_all)
  moreover have "outcomes ?s3 1 = Some (Raised UnauthorizedException)"
    "outcomes ?s3 0 = Some (Answered (Some \<lparr>g_auth = u\<lparr>ui_address := a\<rparr>, g_headers = (auth_headers A u)(address_header \<mapsto> a)\<rparr>))"
    unfolding s3(1) by simp_all
  ultimately show "\<exists>s g. reachable A s \<and> requests s 0 = Some (Some h) \<and> requests s 1 = Some (Some (intruder a)) \<and>
       outcomes s 1 = Some (Raised UnauthorizedException) \<and>
       outcomes s 0 = Some (Answered (Some g)) \<and> ui_address (g_auth g) = a"
    by (intro exI conjI) (assumption+, simp)
qed

section \<open>Witnesses\<close>

definition example_user :: user_info where
  "example_user = \<lparr>ui_address = ''erdAdmin'', ui_origin = ''app'', ui_issued = 0, ui_expires = 100\<rparr>"

definition example_auth :: auth_env where
  "example_auth = \<lparr>validate = (\<lambda>jwt. if jwt = ''tok'' then Inr example_user else Inl (PlainError ''invalid'')),
     isLocalhost = (\<lambda>_. False), securityAdmins = Some ''erdAdmin,erdOther'', auth_time = 0\<rparr>"

definition admin_request :: request_headers where
  "admin_request = \<lparr>h_impersonate = None, h_authorization = Some ''Bearer tok'', h_origin = None\<rparr>"

lemma example_bearer: "bearer admin_request = Inr ''tok''"
  by code_simp

lemma example_admins: "admin_list example_auth = Inr [''erdAdmin'', ''erdOther'']"
  by code_simp

lemma example_valid: "validate example_auth ''tok'' = Inr example_user"
  by (simp add: example_auth_def)

theorem only_admins_impersonate_witness:
  "\<exists>s. reachable example_auth s \<and> (\<exists>g. outcomes s 0 = Some (Answered (Some g)) \<and>
     (\<exists>h jwt u. requests s 0 = Some (Some h) \<and> bearer h = Inr jwt \<and> validate example_auth jwt = Inr u))"
proof -
  let ?s1 = "arrive 0 (Some admin_request) idle_server"
  let ?s2 = "resume example_auth 0 ''tok'' ?s1"
  have s1: "?s1 = idle_server\<lparr>requests := [0 \<mapsto> Some admin_request], waiting := [0 \<mapsto> ''tok'']\<rparr>"
    by (simp add: arrive_def before_validation_cases example_bearer) (simp add: idle_server_def admin_request_def)
  have r1: "reachable example_auth ?s1" by (rule moves [OF starts arrives]) (simp add: idle_server_def)
  then have r2: "reachable example_auth ?s2" by (rule moves [OF _ resumes]) (simp add: s1)
  have out: "outcomes ?s2 0 = Some (Answered (Some \<lparr>g_auth = example_user, g_headers = auth_headers example_auth example_user\<rparr>))"
    unfolding s1 by (simp add: resume_def after_validation_apply example_valid idle_server_def impersonated_def present_def)
  show ?thesis
    using r2 out only_admins_impersonate [OF r2 out] by blast
qed

theorem impersonation_crosses_witness:
  "\<exists>s g. reachable example_auth s \<and> outcomes s 1 = Some (Raised UnauthorizedException) \<and>
     outcomes s 0 = Some (Answered (Some g)) \<and> ui_address (g_auth g) = ''erdVictim''"
proof -
  have "h_impersonate admin_request = None" "ui_address example_user \<in> set [''erdAdmin'', ''erdOther'']"
    "ui_address example_user \<noteq> []" "''erdVictim'' \<noteq> []"
    by (simp_all add: admin_request_def example_user_def)
  from impersonation_crosses [OF example_bearer this(1) example_valid example_admins this(2-4)] show ?thesis
    by (elim exE conjE) (intro exI conjI)
qed

end
