(* ===== verification/Gov_Executor.thy ===== *)
theory Gov_Executor
  imports Gov_Cache
begin

text \<open>
  \<open>pending.executor.ts\<close>: calls with equal arguments share one pending promise. The executor is a
  transition system over its dictionary, the promises it started and the callers that await them;
  calls, settlements and the resumption of callers interleave freely. The hash is a parameter.
\<close>

section \<open>The executor\<close>

text \<open>A started promise, and a call of \<open>execute\<close> with the promise that it awaits.\<close>

record 'a run =
  run_value :: jsval
  settled :: "(exn + 'a) option"

record 'a caller =
  call_value :: jsval
  awaits :: nat
  started_it :: bool
  returned :: "(exn + 'a) option"

record 'a executor =
  dictionary :: "string \<Rightarrow> nat option"
  runs :: "nat \<Rightarrow> 'a run option"
  next_run :: nat
  callers :: "nat \<Rightarrow> 'a caller option"

definition empty_executor :: "'a executor" where
  "empty_executor = \<lparr>dictionary = Map.empty, runs = Map.empty, next_run = 0, callers = Map.empty\<rparr>"

definition request_key :: "(string \<Rightarrow> string) \<Rightarrow> jsval \<Rightarrow> string" where
  "request_key md5 v = md5 (json_stringify v)"

text \<open>\<open>execute\<close> up to its first \<open>await\<close>: join the pending promise of the key, or start one.\<close>

definition execute :: "(string \<Rightarrow> string) \<Rightarrow> nat \<Rightarrow> jsval \<Rightarrow> 'a executor \<Rightarrow> 'a executor" where
  "execute md5 c v s =
     (let key = request_key md5 v in
      case dictionary s key of
        Some n \<Rightarrow> s\<lparr>callers := (callers s)(c \<mapsto> \<lparr>call_value = v, awaits = n, started_it = False, returned = None\<rparr>)\<rparr>
      | None \<Rightarrow>
          (let n = next_run s in
           s\<lparr>runs := (runs s)(n \<mapsto> \<lparr>run_value = v, settled = None\<rparr>), next_run := n + 1,
             dictionary := (dictionary s)(key \<mapsto> n),
             callers := (callers s)(c \<mapsto> \<lparr>call_value = v, awaits = n, started_it = True, returned = None\<rparr>)\<rparr>))"

definition settle_run :: "nat \<Rightarrow> 'a run \<Rightarrow> exn + 'a \<Rightarrow> 'a executor \<Rightarrow> 'a executor" where
  "settle_run n r res s = s\<lparr>runs := (runs s)(n \<mapsto> r\<lparr>settled := Some res\<rparr>)\<rparr>"

text \<open>A caller resumes with the outcome; the one that started the promise deletes the key, whatever it is.\<close>

definition give_back :: "(string \<Rightarrow> string) \<Rightarrow> nat \<Rightarrow> 'a caller \<Rightarrow> exn + 'a \<Rightarrow> 'a executor \<Rightarrow> 'a executor" where
  "give_back md5 c cl res s =
     s\<lparr>callers := (callers s)(c \<mapsto> cl\<lparr>returned := Some res\<rparr>),
       dictionary := (if started_it cl then (dictionary s)(request_key md5 (call_value cl) := None) else dictionary s)\<rparr>"

inductive executor_step :: "(string \<Rightarrow> string) \<Rightarrow> 'a executor \<Rightarrow> 'a executor \<Rightarrow> bool" for md5 where
  calls: "callers s c = None \<Longrightarrow> executor_step md5 s (execute md5 c v s)"
| settles: "runs s n = Some r \<Longrightarrow> settled r = None \<Longrightarrow> executor_step md5 s (settle_run n r res s)"
| returns: "callers s c = Some cl \<Longrightarrow> returned cl = None \<Longrightarrow> runs s (awaits cl) = Some r \<Longrightarrow>
    settled r = Some res \<Longrightarrow> executor_step md5 s (give_back md5 c cl res s)"

inductive_cases executor_stepE: "executor_step md5 s s'"

inductive executor_reachable :: "(string \<Rightarrow> string) \<Rightarrow> 'a executor \<Rightarrow> bool" for md5 where
  starts: "executor_reachable md5 empty_executor"
| moves: "executor_reachable md5 s \<Longrightarrow> executor_step md5 s s' \<Longrightarrow> executor_reachable md5 s'"


section \<open>The invariant\<close>

text \<open>An entry of the dictionary is a promise of that key whose starter still waits.\<close>

definition entries_held :: "(string \<Rightarrow> string) \<Rightarrow> 'a executor \<Rightarrow> bool" where
  "entries_held md5 s \<longleftrightarrow> (\<forall>k n. dictionary s k = Some n \<longrightarrow>
     (\<exists>r. runs s n = Some r \<and> request_key md5 (run_value r) = k) \<and>
     (\<exists>c cl. callers s c = Some cl \<and> started_it cl \<and> awaits cl = n \<and> returned cl = None))"

text \<open>An unsettled promise is in the dictionary.\<close>

definition unsettled_listed :: "(string \<Rightarrow> string) \<Rightarrow> 'a executor \<Rightarrow> bool" where
  "unsettled_listed md5 s \<longleftrightarrow> (\<forall>n r. runs s n = Some r \<and> settled r = None \<longrightarrow>
     dictionary s (request_key md5 (run_value r)) = Some n)"

definition callers_ok :: "(string \<Rightarrow> string) \<Rightarrow> 'a executor \<Rightarrow> bool" where
  "callers_ok md5 s \<longleftrightarrow> (\<forall>c cl. callers s c = Some cl \<longrightarrow>
     (\<exists>r. runs s (awaits cl) = Some r \<and> request_key md5 (run_value r) = request_key md5 (call_value cl) \<and>
        (returned cl \<noteq> None \<longrightarrow> settled r = returned cl)) \<and>
     (started_it cl \<and> returned cl = None \<longrightarrow> dictionary s (request_key md5 (call_value cl)) = Some (awaits cl)))"

definition starters_differ :: "'a executor \<Rightarrow> bool" where
  "starters_differ s \<longleftrightarrow> (\<forall>c d cl dl. callers s c = Some cl \<and> callers s d = Some dl \<and> started_it cl \<and> started_it dl \<and>
     awaits cl = awaits dl \<longrightarrow> c = d)"

definition numbers_ok :: "'a executor \<Rightarrow> bool" where
  "numbers_ok s \<longleftrightarrow> (\<forall>n\<ge>next_run s. runs s n = None)"

lemmas executor_inv_defs = entries_held_def unsettled_listed_def callers_ok_def starters_differ_def numbers_ok_def

definition executor_inv :: "(string \<Rightarrow> string) \<Rightarrow> 'a executor \<Rightarrow> bool" where
  "executor_inv md5 s \<longleftrightarrow> entries_held md5 s \<and> unsettled_listed md5 s \<and> callers_ok md5 s \<and> starters_differ s \<and> numbers_ok s"

lemma empty_inv: "executor_inv md5 empty_executor"
  by (simp add: executor_inv_def executor_inv_defs empty_executor_def)

lemma awaited_exists: "callers_ok md5 s \<Longrightarrow> callers s c = Some cl \<Longrightarrow> runs s (awaits cl) \<noteq> None"
  unfolding callers_ok_def by (metis option.distinct(1))

lemma settle_inv:
  assumes I: "executor_inv md5 s" and r: "runs s n = Some r" "settled r = None"
  shows "executor_inv md5 (settle_run n r res s)"
proof -
  let ?s = "settle_run n r res s"
  have s: "dictionary ?s = dictionary s" "callers ?s = callers s" "next_run ?s = next_run s"
    "runs ?s = (runs s)(n \<mapsto> r\<lparr>settled := Some res\<rparr>)"
    by (simp_all add: settle_run_def)
  have "entries_held md5 ?s" using I r unfolding executor_inv_def entries_held_def s by fastforce
  moreover have "unsettled_listed md5 ?s" using I unfolding executor_inv_def unsettled_listed_def s by auto
  moreover have "callers_ok md5 ?s" using I r unfolding executor_inv_def callers_ok_def s by fastforce
  moreover have "starters_differ ?s" using I unfolding executor_inv_def starters_differ_def s by auto
  moreover have "numbers_ok ?s" using I r unfolding executor_inv_def numbers_ok_def s by auto
  ultimately show ?thesis by (simp add: executor_inv_def)
qed

lemma join_inv:
  assumes I: "executor_inv md5 s" and c: "callers s c = None" and k: "dictionary s (request_key md5 v) = Some n"
  shows "executor_inv md5 (execute md5 c v s)"
proof -
  let ?s = "execute md5 c v s"
  have s: "dictionary ?s = dictionary s" "runs ?s = runs s" "next_run ?s = next_run s"
    "callers ?s = (callers s)(c \<mapsto> \<lparr>call_value = v, awaits = n, started_it = False, returned = None\<rparr>)"
    by (simp_all add: execute_def k)
  have "entries_held md5 ?s"
    unfolding entries_held_def s
  proof (intro allI impI conjI)
    fix k m assume e: "dictionary s k = Some m"
    with I show "\<exists>r. runs s m = Some r \<and> request_key md5 (run_value r) = k"
      by (auto simp: executor_inv_def entries_held_def)
    from e I obtain d dl where "callers s d = Some dl" "started_it dl" "awaits dl = m" "returned dl = None"
      unfolding executor_inv_def entries_held_def by blast
    with c show "\<exists>d dl. ((callers s)(c \<mapsto> \<lparr>call_value = v, awaits = n, started_it = False, returned = None\<rparr>)) d = Some dl \<and>
        started_it dl \<and> awaits dl = m \<and> returned dl = None"
      by (intro exI [of _ d] exI [of _ dl]) auto
  qed
  moreover have "unsettled_listed md5 ?s" using I unfolding executor_inv_def unsettled_listed_def s by blast
  moreover have "callers_ok md5 ?s"
    using I k unfolding executor_inv_def callers_ok_def entries_held_def s by auto
  moreover have "starters_differ ?s" using I unfolding executor_inv_def starters_differ_def s by auto
  moreover have "numbers_ok ?s" using I unfolding executor_inv_def numbers_ok_def s by blast
  ultimately show ?thesis by (simp add: executor_inv_def)
qed


lemma executor_invD:
  assumes "executor_inv md5 s"
  shows "dictionary s k = Some n \<Longrightarrow> \<exists>r. runs s n = Some r \<and> request_key md5 (run_value r) = k"
    and "dictionary s k = Some n \<Longrightarrow> \<exists>c cl. callers s c = Some cl \<and> started_it cl \<and> awaits cl = n \<and> returned cl = None"
    and "runs s n = Some r \<Longrightarrow> settled r = None \<Longrightarrow> dictionary s (request_key md5 (run_value r)) = Some n"
    and "callers s c = Some cl \<Longrightarrow> \<exists>r. runs s (awaits cl) = Some r \<and>
        request_key md5 (run_value r) = request_key md5 (call_value cl) \<and> (returned cl \<noteq> None \<longrightarrow> settled r = returned cl)"
    and "callers s c = Some cl \<Longrightarrow> started_it cl \<Longrightarrow> returned cl = None \<Longrightarrow>
        dictionary s (request_key md5 (call_value cl)) = Some (awaits cl)"
    and "callers s c = Some cl \<Longrightarrow> callers s d = Some dl \<Longrightarrow> started_it cl \<Longrightarrow> started_it dl \<Longrightarrow>
        awaits cl = awaits dl \<Longrightarrow> c = d"
    and "runs s (next_run s) = None"
  using assms unfolding executor_inv_def executor_inv_defs by blast+

lemma start_inv:
  assumes I: "executor_inv md5 s" and c: "callers s c = None" and k: "dictionary s (request_key md5 v) = None"
  shows "executor_inv md5 (execute md5 c v s)"
proof -
  let ?s = "execute md5 c v s" and ?n = "next_run s" and ?k = "request_key md5 v"
  let ?c = "\<lparr>call_value = v, awaits = ?n, started_it = True, returned = None\<rparr> :: 'a caller"
  have s: "dictionary ?s = (dictionary s)(?k \<mapsto> ?n)" "runs ?s = (runs s)(?n \<mapsto> \<lparr>run_value = v, settled = None\<rparr>)"
    "next_run ?s = ?n + 1" "callers ?s = (callers s)(c \<mapsto> ?c)"
    by (simp_all add: execute_def k Let_def)
  have old: "awaits cl \<noteq> ?n" if "callers s d = Some cl" for d cl
    using executor_invD(4) [OF I that] executor_invD(7) [OF I] by auto
  have "entries_held md5 ?s"
    unfolding entries_held_def s
  proof (intro allI impI conjI)
    fix j m assume e: "((dictionary s)(?k \<mapsto> ?n)) j = Some m"
    show "\<exists>r. ((runs s)(?n \<mapsto> \<lparr>run_value = v, settled = None\<rparr>)) m = Some r \<and> request_key md5 (run_value r) = j"
      using e executor_invD(1) [OF I, of j m] executor_invD(7) [OF I] by (cases "j = ?k") auto
    show "\<exists>d dl. ((callers s)(c \<mapsto> ?c)) d = Some dl \<and> started_it dl \<and> awaits dl = m \<and> returned dl = None"
    proof (cases "j = ?k")
      case True
      with e show ?thesis by (intro exI [of _ c] exI [of _ ?c]) simp
    next
      case False
      with e have "dictionary s j = Some m" by simp
      then obtain d dl where "callers s d = Some dl" "started_it dl" "awaits dl = m" "returned dl = None"
        using executor_invD(2) [OF I] by blast
      with c show ?thesis by (intro exI [of _ d] exI [of _ dl]) auto
    qed
  qed
  moreover have "unsettled_listed md5 ?s"
    unfolding unsettled_listed_def s
  proof (intro allI impI, elim conjE)
    fix m q assume q: "((runs s)(?n \<mapsto> \<lparr>run_value = v, settled = None\<rparr>)) m = Some q" "settled q = None"
    show "((dictionary s)(?k \<mapsto> ?n)) (request_key md5 (run_value q)) = Some m"
    proof (cases "m = ?n")
      case False
      with q executor_invD(3) [OF I, of m q] k show ?thesis by (cases "request_key md5 (run_value q) = ?k") auto
    qed (use q in auto)
  qed
  moreover have "callers_ok md5 ?s"
    unfolding callers_ok_def s
  proof (intro allI impI conjI)
    fix d dl assume d: "((callers s)(c \<mapsto> ?c)) d = Some dl"
    show "\<exists>r. ((runs s)(?n \<mapsto> \<lparr>run_value = v, settled = None\<rparr>)) (awaits dl) = Some r \<and>
        request_key md5 (run_value r) = request_key md5 (call_value dl) \<and> (returned dl \<noteq> None \<longrightarrow> settled r = returned dl)"
      using d executor_invD(4) [OF I, of d dl] old [of d dl] by (cases "d = c") auto
    assume w: "started_it dl \<and> returned dl = None"
    show "((dictionary s)(?k \<mapsto> ?n)) (request_key md5 (call_value dl)) = Some (awaits dl)"
    proof (cases "d = c")
      case False
      with d w have "dictionary s (request_key md5 (call_value dl)) = Some (awaits dl)"
        using executor_invD(5) [OF I, of d dl] by simp
      then show ?thesis using k by auto
    qed (use d in auto)
  qed
  moreover have "starters_differ ?s"
    unfolding starters_differ_def s
  proof (intro allI impI, elim conjE)
    fix d e dl el
    assume d: "((callers s)(c \<mapsto> ?c)) d = Some dl" "((callers s)(c \<mapsto> ?c)) e = Some el"
      "started_it dl" "started_it el" "awaits dl = awaits el"
    then show "d = e"
      using old [of d dl] old [of e el] executor_invD(6) [OF I, of d dl e el]
      by (cases "d = c"; cases "e = c") auto
  qed
  moreover have "numbers_ok ?s" using I unfolding executor_inv_def numbers_ok_def s by auto
  ultimately show ?thesis by (simp add: executor_inv_def)
qed

lemma give_back_inv:
  assumes I: "executor_inv md5 s" and c: "callers s c = Some cl" "returned cl = None"
    and r: "runs s (awaits cl) = Some r" "settled r = Some res"
  shows "executor_inv md5 (give_back md5 c cl res s)"
proof -
  let ?s = "give_back md5 c cl res s" and ?k = "request_key md5 (call_value cl)"
  let ?c = "cl\<lparr>returned := Some res\<rparr>"
  let ?D = "if started_it cl then (dictionary s)(?k := None) else dictionary s"
  have s: "dictionary ?s = ?D" "runs ?s = runs s" "next_run ?s = next_run s" "callers ?s = (callers s)(c \<mapsto> ?c)"
    by (simp_all add: give_back_def)
  have key: "request_key md5 (run_value r) = ?k" using executor_invD(4) [OF I c(1)] r(1) by auto
  have held: "?D j = Some m \<Longrightarrow> dictionary s j = Some m" for j m by (simp split: if_splits)
  have "entries_held md5 ?s"
    unfolding entries_held_def s
  proof (intro allI impI conjI)
    fix j m assume e: "?D j = Some m"
    show "\<exists>r. runs s m = Some r \<and> request_key md5 (run_value r) = j" by (rule executor_invD(1) [OF I held [OF e]])
    obtain d dl where d: "callers s d = Some dl" "started_it dl" "awaits dl = m" "returned dl = None"
      using executor_invD(2) [OF I held [OF e]] by blast
    have "d \<noteq> c"
    proof
      assume "d = c"
      with d c have "started_it cl" "awaits cl = m" by simp_all
      then have "?D ?k = None" "j = ?k"
        using executor_invD(1) [OF I held [OF e]] r(1) key by auto
      with e show False by simp
    qed
    with d show "\<exists>d dl. ((callers s)(c \<mapsto> ?c)) d = Some dl \<and> started_it dl \<and> awaits dl = m \<and> returned dl = None"
      by (intro exI [of _ d] exI [of _ dl]) auto
  qed
  moreover have "unsettled_listed md5 ?s"
    unfolding unsettled_listed_def s
  proof (intro allI impI, elim conjE)
    fix m q assume q: "runs s m = Some q" "settled q = None"
    have d: "dictionary s (request_key md5 (run_value q)) = Some m" by (rule executor_invD(3) [OF I q])
    show "?D (request_key md5 (run_value q)) = Some m"
    proof (cases "started_it cl \<and> request_key md5 (run_value q) = ?k")
      case True
      then have "m = awaits cl" using d executor_invD(5) [OF I c(1) _ c(2)] by simp
      with q r show ?thesis by simp
    qed (use d in auto)
  qed
  moreover have "callers_ok md5 ?s"
    unfolding callers_ok_def s
  proof (intro allI impI conjI)
    fix d dl assume d: "((callers s)(c \<mapsto> ?c)) d = Some dl"
    show "\<exists>r. runs s (awaits dl) = Some r \<and> request_key md5 (run_value r) = request_key md5 (call_value dl) \<and>
        (returned dl \<noteq> None \<longrightarrow> settled r = returned dl)"
      using d r key executor_invD(4) [OF I, of d dl] by (cases "d = c") auto
    assume "started_it dl \<and> returned dl = None"
    with d have d: "d \<noteq> c" "callers s d = Some dl" "started_it dl" "returned dl = None" by (auto split: if_splits)
    have e: "dictionary s (request_key md5 (call_value dl)) = Some (awaits dl)" by (rule executor_invD(5) [OF I d(2-4)])
    show "?D (request_key md5 (call_value dl)) = Some (awaits dl)"
    proof (cases "started_it cl \<and> request_key md5 (call_value dl) = ?k")
      case True
      then have "awaits dl = awaits cl" using e executor_invD(5) [OF I c(1) _ c(2)] by simp
      then show ?thesis using executor_invD(6) [OF I d(2) c(1) d(3)] True d(1) by blast
    qed (use e in auto)
  qed
  moreover have "starters_differ ?s"
    unfolding starters_differ_def s using executor_invD(6) [OF I] c(1) by auto
  moreover have "numbers_ok ?s" using I unfolding executor_inv_def numbers_ok_def s by blast
  ultimately show ?thesis by (simp add: executor_inv_def)
qed

lemma executor_step_inv: "executor_step md5 s s' \<Longrightarrow> executor_inv md5 s \<Longrightarrow> executor_inv md5 s'"
proof (induction rule: executor_step.induct)
  case (calls s c v)
  then show ?case by (cases "dictionary s (request_key md5 v)") (auto intro: start_inv join_inv)
qed (auto intro: settle_inv give_back_inv)

lemma executor_reachable_inv: "executor_reachable md5 s \<Longrightarrow> executor_inv md5 s"
  by (induction rule: executor_reachable.induct) (auto intro: empty_inv executor_step_inv)

section \<open>One pending promise per key\<close>

text \<open>
  C23: in every state that calls, settlements and resumptions lead to, at most one promise of a key is
  unsettled; a caller that has returned got the outcome of a promise with the key of its own argument,
  whoever started it; and when every caller has returned, the dictionary is empty: no entry is left
  behind that later calls would join, and none is deleted while its promise is pending.
\<close>

theorem one_pending_promise:
  assumes "executor_reachable md5 s"
  shows "(\<forall>m n r q. runs s m = Some r \<and> runs s n = Some q \<and> settled r = None \<and> settled q = None \<and>
       request_key md5 (run_value r) = request_key md5 (run_value q) \<longrightarrow> m = n) \<and>
    (\<forall>c cl res. callers s c = Some cl \<and> returned cl = Some res \<longrightarrow>
       (\<exists>r. runs s (awaits cl) = Some r \<and> settled r = Some res \<and>
          request_key md5 (run_value r) = request_key md5 (call_value cl))) \<and>
    ((\<forall>c cl. callers s c = Some cl \<longrightarrow> returned cl \<noteq> None) \<longrightarrow> dictionary s = Map.empty)"
proof -
  note I = executor_reachable_inv [OF assms]
  have "m = n" if "runs s m = Some r" "runs s n = Some q" "settled r = None" "settled q = None"
    "request_key md5 (run_value r) = request_key md5 (run_value q)" for m n r q
    using executor_invD(3) [OF I that(1,3)] executor_invD(3) [OF I that(2,4)] that(5) by simp
  moreover have "\<exists>r. runs s (awaits cl) = Some r \<and> settled r = Some res \<and>
      request_key md5 (run_value r) = request_key md5 (call_value cl)"
    if "callers s c = Some cl" "returned cl = Some res" for c cl res
    using executor_invD(4) [OF I that(1)] that(2) by auto
  moreover have "dictionary s k = None" if "\<forall>c cl. callers s c = Some cl \<longrightarrow> returned cl \<noteq> None" for k
    using executor_invD(2) [OF I, of k] that by (cases "dictionary s k") blast+
  ultimately show ?thesis by blast
qed


section \<open>Witness\<close>

text \<open>Two calls with the same argument: the second joins the promise of the first, and both get its outcome.\<close>

definition shared_call :: "int executor" where
  "shared_call =
     \<lparr>dictionary = Map.empty, runs = [0 \<mapsto> \<lparr>run_value = JNull, settled = Some (Inr 5)\<rparr>], next_run = 1,
      callers = [0 \<mapsto> \<lparr>call_value = JNull, awaits = 0, started_it = True, returned = Some (Inr 5)\<rparr>,
                 1 \<mapsto> \<lparr>call_value = JNull, awaits = 0, started_it = False, returned = Some (Inr 5)\<rparr>]\<rparr>"

lemma shared_call_reachable: "executor_reachable md5 shared_call"
proof -
  let ?s1 = "execute md5 0 JNull empty_executor :: int executor"
  let ?k = "request_key md5 JNull"
  have s1: "?s1 = \<lparr>dictionary = [?k \<mapsto> 0], runs = [0 \<mapsto> \<lparr>run_value = JNull, settled = None\<rparr>], next_run = 1,
      callers = [0 \<mapsto> \<lparr>call_value = JNull, awaits = 0, started_it = True, returned = None\<rparr>]\<rparr>"
    by (simp add: execute_def empty_executor_def Let_def)
  have r1: "executor_reachable md5 ?s1" by (rule moves [OF starts calls]) (simp add: empty_executor_def)
  let ?s2 = "execute md5 1 JNull ?s1"
  have s2: "?s2 = ?s1\<lparr>callers := (callers ?s1)(1 \<mapsto> \<lparr>call_value = JNull, awaits = 0, started_it = False, returned = None\<rparr>)\<rparr>"
    unfolding s1 by (simp add: execute_def)
  have r2: "executor_reachable md5 ?s2" by (rule moves [OF r1 calls]) (unfold s1, simp)
  let ?s3 = "settle_run 0 \<lparr>run_value = JNull, settled = None\<rparr> (Inr 5) ?s2"
  have r3: "executor_reachable md5 ?s3" by (rule moves [OF r2 settles]) (unfold s2, unfold s1, simp_all)
  let ?c0 = "\<lparr>call_value = JNull, awaits = 0, started_it = True, returned = None\<rparr> :: int caller"
  let ?c1 = "\<lparr>call_value = JNull, awaits = 0, started_it = False, returned = None\<rparr> :: int caller"
  have r4: "executor_reachable md5 (give_back md5 0 ?c0 (Inr 5) ?s3)"
    by (rule moves [OF r3 returns [where r = "\<lparr>run_value = JNull, settled = Some (Inr 5)\<rparr>"]])
       (unfold s2, unfold s1, simp_all add: settle_run_def)
  have r5: "executor_reachable md5 (give_back md5 1 ?c1 (Inr 5) (give_back md5 0 ?c0 (Inr 5) ?s3))"
    by (rule moves [OF r4 returns [where r = "\<lparr>run_value = JNull, settled = Some (Inr 5)\<rparr>"]])
       (unfold s2, unfold s1, simp_all add: settle_run_def give_back_def)
  have "give_back md5 1 ?c1 (Inr 5) (give_back md5 0 ?c0 (Inr 5) ?s3) = shared_call"
    unfolding s2 unfolding s1 by (simp add: settle_run_def give_back_def shared_call_def)
  with r5 show ?thesis by simp
qed

theorem one_pending_promise_witness:
  "callers shared_call 1 = Some \<lparr>call_value = JNull, awaits = 0, started_it = False, returned = Some (Inr 5)\<rparr> \<and>
   (\<exists>r. runs shared_call 0 = Some r \<and> settled r = Some (Inr 5)) \<and> dictionary shared_call = Map.empty"
proof -
  have c: "callers shared_call 1 = Some \<lparr>call_value = JNull, awaits = 0, started_it = False, returned = Some (Inr 5)\<rparr>"
    by (simp add: shared_call_def)
  have "\<forall>c cl. callers shared_call c = Some cl \<longrightarrow> returned cl \<noteq> None"
    by (auto simp: shared_call_def split: if_splits)
  with one_pending_promise [OF shared_call_reachable, of id] c show ?thesis by fastforce
qed

end
