(* ===== verification/Gov_Guest.thy ===== *)
theory Gov_Guest
  imports Gov_Cache "HOL-Library.Multiset"
begin

text \<open>
  Answers for guests: \<open>guestCaching.middleware.ts\<close> counts the queries of requests without
  authorization and answers from prepared responses, and \<open>CacheWarmerService.cacheGuest\<close> in
  \<open>cache.warmer.service.ts\<close> prepares the responses of the queries asked most. Redis, the clock, the
  hash, the lock, the HTTP client and the metrics (modelled in \<open>Gov_Observe\<close>) are parameters;
  environment variables are read as integers. The objects that count the hits of a minute are kept in a
  store, because a request holds on to its object while it waits. A request is cut at its awaits, so that
  requests which overlap are runs of a step relation, and a request handled alone is the composition of
  its parts.
\<close>

section \<open>Requests and state\<close>

record guest_request =
  gr_authorization :: "string option"
  gr_noCache :: "string option"
  gr_body :: jsval

text \<open>
  \<open>cacheHitsCounter\<close> maps a minute to the object with the hits of its queries: a place in the list of
  the objects made so far.
\<close>

record guest_state =
  cacheHitsCounter :: "string \<Rightarrow> nat option"
  hitObjects :: "(string \<Rightarrow> int option) list"

datatype guest_metric = QueriesAsked jsval int | HitServed | NoHit | HitQueries int

record 's guest_env =
  guest_md5 :: "string \<Rightarrow> string"
  batchVariable :: "int option"
  thresholdVariable :: "int option"
  defaultTtl :: int
  guestMinute :: int
  guestSecond :: int
  minuteNow :: "('s, string) prog"
  minuteBefore :: "('s, string) prog"
  guestGet :: "string \<Rightarrow> ('s, jsval) prog"
  guestSet :: "string \<Rightarrow> jsval \<Rightarrow> int \<Rightarrow> ('s, unit) prog"
  guestGetOrSet :: "string \<Rightarrow> jsval \<Rightarrow> int \<Rightarrow> ('s, unit) prog"
  zIncrementRemote :: "string \<Rightarrow> int \<Rightarrow> string \<Rightarrow> ('s, unit) prog"
  setTtlRemote :: "string \<Rightarrow> int \<Rightarrow> ('s, unit) prog"
  zRangeByScoreRemote :: "string \<Rightarrow> int \<Rightarrow> ('s, string list) prog"
  postGraphql :: "jsval \<Rightarrow> ('s, jsval) prog"
  guestLock :: "string \<Rightarrow> ('s, unit) prog \<Rightarrow> ('s, unit) prog"
  guestMetric :: "guest_metric \<Rightarrow> ('s, unit) prog"

text \<open>The header that tells whether a prepared answer was found, and what happens next.\<close>

datatype guest_action = Next | Json jsval

record guest_answer =
  ga_hit :: "bool option"
  ga_action :: guest_action

text \<open>What a request remembers over its awaits: the constants of \<open>use\<close>.\<close>

record guest_frame =
  gf_minute :: string
  gf_previous :: string
  gf_query :: string
  gf_body :: jsval
  gf_object :: nat
  gf_first :: bool


section \<open>GuestCachingMiddleware\<close>

text \<open>\<open>Number(variable) || 3\<close>.\<close>

definition batch_size :: "'s guest_env \<Rightarrow> int" where
  "batch_size G = (case batchVariable G of None \<Rightarrow> 3 | Some n \<Rightarrow> if n = 0 then 3 else n)"

definition next_hit :: "int \<Rightarrow> int \<Rightarrow> int" where
  "next_hit batch n = (if n < batch then n + 1 else 1)"

definition skips_cache :: "guest_request \<Rightarrow> bool" where
  "skips_cache req \<longleftrightarrow> (gr_authorization req \<noteq> None \<and> gr_authorization req \<noteq> Some []) \<or> gr_noCache req = Some ''true''"

definition query_hash :: "'s guest_env \<Rightarrow> jsval \<Rightarrow> string" where
  "query_hash G body = guest_md5 G (json_stringify body)"

definition counter_key :: "string \<Rightarrow> string" where
  "counter_key minute = ''guestCache.'' @ minute"

text \<open>The number an object holds of a query, and the number a request finds when it looks.\<close>

definition hits_in :: "(string \<Rightarrow> int option) \<Rightarrow> string \<Rightarrow> int" where
  "hits_in counts q = (case counts q of None \<Rightarrow> 0 | Some n \<Rightarrow> n)"

definition hits_seen :: "guest_frame \<Rightarrow> 'x guest_state_scheme \<Rightarrow> int" where
  "hits_seen f s = hits_in (hitObjects s ! gf_object f) (gf_query f)"

text \<open>Up to the first await: the counter of the query in the object of the minute moves on.\<close>

definition guest_count ::
  "('x guest_state_scheme) guest_env \<Rightarrow> guest_request \<Rightarrow> ('x guest_state_scheme, guest_frame) prog" where
  "guest_count G req =
     mbind (minuteNow G) (\<lambda>currentMinute.
     mbind (minuteBefore G) (\<lambda>previousMinute.
     let q = query_hash G (gr_body req) in
     mbind (mget cacheHitsCounter) (\<lambda>counter.
     mbind (mget hitObjects) (\<lambda>made.
     let isFirst = (counter currentMinute = None);
         objects = (if isFirst then made @ [Map.empty] else made);
         a = (case counter currentMinute of None \<Rightarrow> List.length made | Some a \<Rightarrow> a);
         hits = next_hit (batch_size G) (hits_in (objects ! a) q) in
     mthen (mmodify (\<lambda>s. s\<lparr>cacheHitsCounter := counter(currentMinute \<mapsto> a), hitObjects := objects[a := (objects ! a)(q \<mapsto> hits)]\<rparr>))
       (mret \<lparr>gf_minute = currentMinute, gf_previous = previousMinute, gf_query = q, gf_body = gr_body req,
              gf_object = a, gf_first = isFirst\<rparr>)))))"

definition batch_full :: "'s guest_env \<Rightarrow> guest_frame \<Rightarrow> 'x guest_state_scheme \<Rightarrow> bool" where
  "batch_full G f s \<longleftrightarrow> batch_size G \<le> hits_seen f s"

definition guest_store :: "'s guest_env \<Rightarrow> guest_frame \<Rightarrow> ('s, unit) prog" where
  "guest_store G f = guestGetOrSet G (''guestCache.'' @ gf_query f @ ''.body'') (gf_body f) (defaultTtl G)"

text \<open>After that await, the counter is read again, and once more for the metrics after the next.\<close>

definition guest_report :: "('x guest_state_scheme) guest_env \<Rightarrow> guest_frame \<Rightarrow> ('x guest_state_scheme, unit) prog" where
  "guest_report G f =
     mbind (mget (hits_seen f)) (\<lambda>n. zIncrementRemote G (counter_key (gf_minute f)) n (gf_query f))"

definition guest_measure :: "('x guest_state_scheme) guest_env \<Rightarrow> guest_frame \<Rightarrow> ('x guest_state_scheme, unit) prog" where
  "guest_measure G f =
     mbind (mget (hits_seen f)) (\<lambda>n. guestMetric G (QueriesAsked (js_field ''operationName'' (gf_body f)) n))"

definition guest_open :: "'s guest_env \<Rightarrow> guest_frame \<Rightarrow> ('s, unit) prog" where
  "guest_open G f =
     mthen (zIncrementRemote G (counter_key (gf_minute f)) 0 (gf_query f))
           (setTtlRemote G (counter_key (gf_minute f)) (2 * guestMinute G))"

definition guest_reply :: "('x guest_state_scheme) guest_env \<Rightarrow> guest_frame \<Rightarrow> ('x guest_state_scheme, guest_answer) prog" where
  "guest_reply G f =
     mbind (guestGet G (''guestCache.'' @ gf_query f @ ''.response'')) (\<lambda>cacheResponse.
     mthen (mmodify (\<lambda>s. s\<lparr>cacheHitsCounter := (cacheHitsCounter s)(gf_previous f := None)\<rparr>))
    (mthen (guestMetric G (if js_bool cacheResponse then HitServed else NoHit))
           (mret \<lparr>ga_hit = Some (js_bool cacheResponse),
                  ga_action = (if js_bool cacheResponse then Json cacheResponse else Next)\<rparr>)))"

definition guest_use :: "('x guest_state_scheme) guest_env \<Rightarrow> guest_request \<Rightarrow> ('x guest_state_scheme, guest_answer) prog" where
  "guest_use G req =
     (if skips_cache req then mret \<lparr>ga_hit = None, ga_action = Next\<rparr>
      else
        mbind (guest_count G req) (\<lambda>f.
        mbind (mget (batch_full G f)) (\<lambda>full.
        mthen (mwhen full (mthen (guest_store G f) (mthen (guest_report G f) (guest_measure G f))))
       (mthen (mwhen (gf_first f) (guest_open G f))
              (guest_reply G f)))))"


section \<open>Requests that overlap\<close>

text \<open>
  A request that waits is at one of these awaits. The step after an answer runs to the next await: the
  report to Redis starts when the stored body is answered, and the counter it reports is the counter of
  that moment.
\<close>

datatype guest_thread =
    Storing guest_frame | Reporting guest_frame | Measuring guest_frame | Opening guest_frame | Replying guest_frame

primrec thread_frame :: "guest_thread \<Rightarrow> guest_frame" where
  "thread_frame (Storing f) = f"
| "thread_frame (Reporting f) = f"
| "thread_frame (Measuring f) = f"
| "thread_frame (Opening f) = f"
| "thread_frame (Replying f) = f"

definition after_report :: "guest_frame \<Rightarrow> guest_thread" where
  "after_report f = (if gf_first f then Opening f else Replying f)"

definition first_wait :: "'s guest_env \<Rightarrow> guest_frame \<Rightarrow> 'x guest_state_scheme \<Rightarrow> guest_thread" where
  "first_wait G f s = (if batch_full G f s then Storing f else after_report f)"

primrec guest_stage ::
  "('x guest_state_scheme) guest_env \<Rightarrow> guest_thread \<Rightarrow> ('x guest_state_scheme, guest_thread option) prog" where
  "guest_stage G (Storing f) = mthen (guest_store G f) (mret (Some (Reporting f)))"
| "guest_stage G (Reporting f) = mthen (guest_report G f) (mret (Some (Measuring f)))"
| "guest_stage G (Measuring f) = mthen (guest_measure G f) (mret (Some (after_report f)))"
| "guest_stage G (Opening f) = mthen (guest_open G f) (mret (Some (Replying f)))"
| "guest_stage G (Replying f) = mthen (guest_reply G f) (mret None)"

text \<open>
  The requests accepted so far, in order, the state and the requests that wait. An exception ends its
  request.
\<close>

inductive guest_run ::
  "('x guest_state_scheme) guest_env \<Rightarrow> 'x guest_state_scheme \<Rightarrow> guest_request list \<Rightarrow> 'x guest_state_scheme \<Rightarrow> guest_thread multiset \<Rightarrow> bool"
  for G s\<^sub>0 where
  Start: "guest_run G s\<^sub>0 [] s\<^sub>0 {#}"
| Arrive: "guest_run G s\<^sub>0 reqs s T \<Longrightarrow> \<not> skips_cache req \<Longrightarrow> guest_count G req s = (Inr f, s')
    \<Longrightarrow> guest_run G s\<^sub>0 (reqs @ [req]) s' (add_mset (first_wait G f s') T)"
| Resume: "guest_run G s\<^sub>0 reqs s (add_mset t T) \<Longrightarrow> guest_stage G t s = (Inr (Some t'), s')
    \<Longrightarrow> guest_run G s\<^sub>0 reqs s' (add_mset t' T)"
| Finish: "guest_run G s\<^sub>0 reqs s (add_mset t T) \<Longrightarrow> guest_stage G t s = (Inr None, s')
    \<Longrightarrow> guest_run G s\<^sub>0 reqs s' T"
| Fail: "guest_run G s\<^sub>0 reqs s (add_mset t T) \<Longrightarrow> guest_stage G t s = (Inl e, s')
    \<Longrightarrow> guest_run G s\<^sub>0 reqs s' T"


section \<open>CacheWarmerService.cacheGuest\<close>

text \<open>
  A query that fails leaves its data \<open>undefined\<close>, and the message that measures its text throws before
  anything is stored.
\<close>

definition warm_query :: "'s guest_env \<Rightarrow> string \<Rightarrow> ('s, unit) prog" where
  "warm_query G key =
     guestLock G key
       (mbind (guestGet G (''guestCache.'' @ key @ ''.body'')) (\<lambda>keyValue.
          if \<not> js_bool keyValue then mret ()
          else
            mbind (mtry (postGraphql G keyValue) (\<lambda>error. mret JUndef)) (\<lambda>data.
              if data = JUndef then mthrow TypeError
              else guestSet G (''guestCache.'' @ key @ ''.response'') data (guestSecond G * 30))))"

definition cacheGuest :: "'s guest_env \<Rightarrow> ('s, unit) prog" where
  "cacheGuest G =
     mbind (minuteNow G) (\<lambda>currentDate.
     mbind (minuteBefore G) (\<lambda>previousMinute.
     let threshold = (case thresholdVariable G of None \<Rightarrow> 100 | Some n \<Rightarrow> n) in
     mbind (zRangeByScoreRemote G (counter_key currentDate) threshold) (\<lambda>now_keys.
     mbind (zRangeByScoreRemote G (counter_key previousMinute) threshold) (\<lambda>before_keys.
     mbind (mmap (\<lambda>key. mattempt (warm_query G key)) (js_set (now_keys @ before_keys))) (\<lambda>_.
     guestMetric G (HitQueries (int (List.length (js_set (now_keys @ before_keys))))))))))"


section \<open>What is counted\<close>

text \<open>
  Redis and the clock as the counting relies on them: within a minute, an increment adds to the score of
  a member, and nothing else changes scores or the counters of the process.
\<close>

definition hits_kept :: "('x guest_state_scheme) \<Rightarrow> 'x guest_state_scheme \<Rightarrow> bool" where
  "hits_kept s s' \<longleftrightarrow> cacheHitsCounter s' = cacheHitsCounter s \<and> hitObjects s' = hitObjects s"

definition counting ::
  "('x guest_state_scheme) guest_env \<Rightarrow> ('x guest_state_scheme \<Rightarrow> string \<Rightarrow> string \<Rightarrow> int) \<Rightarrow> string \<Rightarrow> bool" where
  "counting G score minute \<longleftrightarrow>
     (\<forall>s. minuteNow G s = (Inr minute, s)) \<and>
     (\<exists>before. before \<noteq> minute \<and> (\<forall>s. minuteBefore G s = (Inr before, s))) \<and>
     (\<forall>s k n m. \<exists>s'. zIncrementRemote G k n m s = (Inr (), s') \<and> hits_kept s s' \<and>
        score s' = (score s)(k := (score s k)(m := score s k m + n))) \<and>
     (\<forall>s k v t. \<exists>s'. guestGetOrSet G k v t s = (Inr (), s') \<and> hits_kept s s' \<and> score s' = score s) \<and>
     (\<forall>s k t. \<exists>s'. setTtlRemote G k t s = (Inr (), s') \<and> hits_kept s s' \<and> score s' = score s) \<and>
     (\<forall>s m. \<exists>s'. guestMetric G m s = (Inr (), s') \<and> hits_kept s s' \<and> score s' = score s) \<and>
     (\<forall>s k. \<exists>v. guestGet G k s = (Inr v, s)) \<and>
     (\<forall>s c h. score (s\<lparr>cacheHitsCounter := c, hitObjects := h\<rparr>) = score s) \<and>
     (\<forall>s c. score (s\<lparr>cacheHitsCounter := c\<rparr>) = score s)"

text \<open>The counters of a minute, and what a part of a request leaves alone.\<close>

definition hits_of :: "'x guest_state_scheme \<Rightarrow> string \<Rightarrow> string \<Rightarrow> int" where
  "hits_of s minute q =
     (case cacheHitsCounter s minute of None \<Rightarrow> 0 | Some a \<Rightarrow> hits_in (hitObjects s ! a) q)"

definition calm ::
  "('x guest_state_scheme \<Rightarrow> string \<Rightarrow> string \<Rightarrow> int) \<Rightarrow> string \<Rightarrow> 'x guest_state_scheme \<Rightarrow> 'x guest_state_scheme \<Rightarrow> bool" where
  "calm score minute s s' \<longleftrightarrow> cacheHitsCounter s' minute = cacheHitsCounter s minute \<and> hitObjects s' = hitObjects s \<and>
     score s' (counter_key minute) = score s (counter_key minute)"

definition counter_open :: "string \<Rightarrow> 'x guest_state_scheme \<Rightarrow> bool" where
  "counter_open minute s \<longleftrightarrow> (\<forall>a. cacheHitsCounter s minute = Some a \<longrightarrow> a < List.length (hitObjects s))"

definition frame_of :: "string \<Rightarrow> 'x guest_state_scheme \<Rightarrow> guest_frame \<Rightarrow> bool" where
  "frame_of minute s f \<longleftrightarrow>
     gf_minute f = minute \<and> gf_previous f \<noteq> minute \<and> cacheHitsCounter s minute = Some (gf_object f)"

named_theorems calm_simps

lemma calmD [calm_simps]:
  assumes "calm score minute s s'"
  shows "hits_of s' minute = hits_of s minute" "counter_open minute s' = counter_open minute s"
    "frame_of minute s' = frame_of minute s" "score s' (counter_key minute) = score s (counter_key minute)"
  using assms by (auto simp: calm_def hits_of_def counter_open_def frame_of_def fun_eq_iff split: option.split)

lemma calm_trans: "calm score minute s s' \<Longrightarrow> calm score minute s' s'' \<Longrightarrow> calm score minute s s''"
  by (simp add: calm_def)

lemma frame_sees: "frame_of minute s f \<Longrightarrow> hits_seen f s = hits_of s minute (gf_query f)"
  by (simp add: frame_of_def hits_seen_def hits_of_def)

lemma guest_store_calm: "counting G score minute \<Longrightarrow> \<exists>s'. guest_store G f s = (Inr (), s') \<and> calm score minute s s'"
  unfolding counting_def guest_store_def calm_def hits_kept_def by metis

lemma guest_measure_calm: "counting G score minute \<Longrightarrow> \<exists>s'. guest_measure G f s = (Inr (), s') \<and> calm score minute s s'"
  unfolding counting_def guest_measure_def calm_def hits_kept_def by (simp add: mbind_def mget_def) metis

lemma guest_open_calm:
  assumes C: "counting G score minute" and "frame_of minute s f"
  shows "\<exists>s'. guest_open G f s = (Inr (), s') \<and> calm score minute s s'"
proof -
  let ?k = "counter_key minute"
  obtain s1 where 1: "zIncrementRemote G ?k 0 (gf_query f) s = (Inr (), s1)" "hits_kept s s1" "score s1 ?k = score s ?k"
    using C unfolding counting_def by (metis add.right_neutral fun_upd_triv)
  obtain s2 where 2: "setTtlRemote G ?k (2 * guestMinute G) s1 = (Inr (), s2)" "hits_kept s1 s2" "score s2 = score s1"
    using C unfolding counting_def by metis
  have "guest_open G f s = (Inr (), s2)" using 1(1) 2(1) assms(2) by (simp add: guest_open_def frame_of_def mthen_apply)
  with 1 2 show ?thesis by (auto simp: calm_def hits_kept_def)
qed

lemma guest_reply_calm:
  assumes C: "counting G score minute" and f: "frame_of minute s f"
  shows "\<exists>a s'. guest_reply G f s = (Inr a, s') \<and> calm score minute s s'"
proof -
  obtain v where v: "guestGet G (''guestCache.'' @ gf_query f @ ''.response'') s = (Inr v, s)"
    using C unfolding counting_def by metis
  let ?s1 = "s\<lparr>cacheHitsCounter := (cacheHitsCounter s)(gf_previous f := None)\<rparr>"
  obtain s2 where 2: "guestMetric G (if js_bool v then HitServed else NoHit) ?s1 = (Inr (), s2)" "hits_kept ?s1 s2" "score s2 = score ?s1"
    using C unfolding counting_def by metis
  have "score ?s1 = score s" using C by (simp add: counting_def)
  moreover have "\<exists>a. guest_reply G f s = (Inr a, s2)" using v 2(1) by (simp add: guest_reply_def mbind_def mthen_def mmodify_def mret_def)
  ultimately show ?thesis using 2 f by (auto simp: calm_def hits_kept_def frame_of_def)
qed

text \<open>The two parts that matter: the counter moves on, and the number it shows is reported.\<close>

lemma guest_count_step:
  assumes C: "counting G score minute" and w: "counter_open minute s"
  defines "h \<equiv> \<lambda>q. next_hit (batch_size G) (hits_of s minute q)"
  shows "\<exists>f s'. guest_count G req s = (Inr f, s') \<and> gf_query f = query_hash G (gr_body req) \<and> frame_of minute s' f \<and>
    counter_open minute s' \<and> hits_of s' minute = (hits_of s minute)(gf_query f := h (gf_query f)) \<and> score s' = score s \<and>
    (cacheHitsCounter s minute \<noteq> None \<longrightarrow> cacheHitsCounter s' minute = cacheHitsCounter s minute)"
proof -
  obtain before where b: "before \<noteq> minute" "\<And>s. minuteBefore G s = (Inr before, s)"
    using C by (auto simp: counting_def)
  have now: "minuteNow G s = (Inr minute, s)" for s using C by (simp add: counting_def)
  have upd: "score (s\<lparr>cacheHitsCounter := c, hitObjects := h\<rparr>) = score s" for s c h using C by (simp add: counting_def)
  show ?thesis
  proof (cases "cacheHitsCounter s minute")
    case None
    with b(1) show ?thesis
      by (auto simp: guest_count_def now b(2) upd mbind_def mthen_def Let_def mget_def mmodify_def mret_def frame_of_def
        counter_open_def hits_of_def h_def hits_in_def fun_eq_iff nth_append list_update_append)
  next
    case (Some a)
    with w have "a < List.length (hitObjects s)" by (simp add: counter_open_def)
    with Some b(1) show ?thesis
      by (auto simp: guest_count_def now b(2) upd mbind_def mthen_def Let_def mget_def mmodify_def mret_def frame_of_def
        counter_open_def hits_of_def h_def hits_in_def fun_eq_iff)
  qed
qed

lemma guest_report_step:
  assumes C: "counting G score minute" and f: "frame_of minute s f"
  shows "\<exists>s'. guest_report G f s = (Inr (), s') \<and> hits_of s' minute = hits_of s minute \<and>
    counter_open minute s' = counter_open minute s \<and> frame_of minute s' = frame_of minute s \<and>
    cacheHitsCounter s' = cacheHitsCounter s \<and>
    score s' (counter_key minute) =
      (score s (counter_key minute))(gf_query f := score s (counter_key minute) (gf_query f) + hits_of s minute (gf_query f))"
proof -
  obtain s' where "zIncrementRemote G (counter_key minute) (hits_seen f s) (gf_query f) s = (Inr (), s')" "hits_kept s s'"
    "score s' = (score s)(counter_key minute := (score s (counter_key minute))
      (gf_query f := score s (counter_key minute) (gf_query f) + hits_seen f s))"
    using C unfolding counting_def by metis
  with f show ?thesis
    by (auto simp: guest_report_def mbind_def mget_def frame_sees hits_kept_def frame_of_def hits_of_def counter_open_def fun_eq_iff)
qed

text \<open>A request handled alone: a full batch is reported as such.\<close>

lemma mwhen_skip: "\<not> b \<Longrightarrow> mwhen b m s = (Inr (), s)"
  by (simp add: mwhen_def mret_def)

lemma guest_use_step:
  assumes C: "counting G score minute" and w: "counter_open minute s" and "\<not> skips_cache req"
    and q: "q = query_hash G (gr_body req)" and h: "h = next_hit (batch_size G) (hits_of s minute q)"
  shows "\<exists>a s'. guest_use G req s = (Inr a, s') \<and> counter_open minute s' \<and>
    hits_of s' minute = (hits_of s minute)(q := h) \<and>
    score s' (counter_key minute) =
      (score s (counter_key minute))(q := score s (counter_key minute) q + (if batch_size G \<le> h then h else 0))"
proof -
  let ?K = "counter_key minute"
  obtain f s1 where 1: "guest_count G req s = (Inr f, s1)" "gf_query f = q" "frame_of minute s1 f" "counter_open minute s1"
      "hits_of s1 minute = (hits_of s minute)(q := h)" "score s1 = score s"
    using guest_count_step [OF C w, of req] q h by metis
  have full: "batch_full G f s1 = (batch_size G \<le> h)" using frame_sees [OF 1(3)] 1(2,5) by (simp add: batch_full_def)
  let ?part = "mthen (guest_store G f) (mthen (guest_report G f) (guest_measure G f))"
  obtain s2 where 2: "mwhen (batch_full G f s1) ?part s1 = (Inr (), s2)" "frame_of minute s2 f" "counter_open minute s2"
      "hits_of s2 minute = hits_of s1 minute"
      "score s2 ?K = (score s ?K)(q := score s ?K q + (if batch_size G \<le> h then h else 0))"
  proof (cases "batch_size G \<le> h")
    case True
    obtain t1 where t1: "guest_store G f s1 = (Inr (), t1)" "calm score minute s1 t1" using guest_store_calm [OF C] by blast
    have "frame_of minute t1 f" using 1(3) calmD [OF t1(2)] by simp
    from guest_report_step [OF C this] obtain t2 where t2: "guest_report G f t1 = (Inr (), t2)"
      "hits_of t2 minute = hits_of t1 minute" "counter_open minute t2 = counter_open minute t1"
      "frame_of minute t2 = frame_of minute t1"
      "score t2 ?K = (score t1 ?K)(gf_query f := score t1 ?K (gf_query f) + hits_of t1 minute (gf_query f))" by blast
    obtain t3 where t3: "guest_measure G f t2 = (Inr (), t3)" "calm score minute t2 t3" using guest_measure_calm [OF C] by blast
    show thesis
    proof (rule that [of t3])
      show "mwhen (batch_full G f s1) ?part s1 = (Inr (), t3)"
        using True full t1(1) t2(1) t3(1) by (simp add: mwhen_def mthen_apply)
    qed (use True 1 t2 calmD [OF t1(2)] calmD [OF t3(2)] in simp_all)
  next
    case False
    with full show thesis using 1 by (intro that [of s1] mwhen_skip) simp_all
  qed
  obtain s3 where 3: "mwhen (gf_first f) (guest_open G f) s2 = (Inr (), s3)" "calm score minute s2 s3"
    using guest_open_calm [OF C 2(2)] by (cases "gf_first f") (auto simp: mwhen_def mret_def calm_def)
  have "frame_of minute s3 f" using 2(2) calmD [OF 3(2)] by simp
  from guest_reply_calm [OF C this] obtain a s4 where 4: "guest_reply G f s3 = (Inr a, s4)" "calm score minute s3 s4" by blast
  have "guest_use G req s = (Inr a, s4)"
    using assms(3) 1(1) 2(1) 3(1) 4(1) by (simp add: guest_use_def mbind_def mthen_apply mget_def)
  then show ?thesis using 1 2 calmD [OF 3(2)] calmD [OF 4(2)] by auto
qed

text \<open>After \<open>k\<close> requests of a query in batches of \<open>b\<close>, its counter is at this place of the batch.\<close>

definition batch_place :: "int \<Rightarrow> nat \<Rightarrow> int" where
  "batch_place b k = (if k = 0 then 0 else (int k - 1) mod b + 1)"

lemma next_batch_place:
  assumes "0 < b"
  shows "next_hit b (batch_place b k) = batch_place b (Suc k)"
proof (cases "k = 0")
  case True
  with assms show ?thesis by (simp add: next_hit_def batch_place_def)
next
  case False
  define r where "r = (int k - 1) mod b"
  have r: "0 \<le> r" "r < b" "int k mod b = (r + 1) mod b"
    using assms by (simp_all add: r_def mod_simps)
  show ?thesis
  proof (cases "r + 1 < b")
    case True
    with r False show ?thesis by (simp add: next_hit_def batch_place_def r_def [symmetric])
  next
    case full: False
    with r have "r + 1 = b" by simp
    with r False show ?thesis by (simp add: next_hit_def batch_place_def r_def [symmetric])
  qed
qed

lemma batch_reported:
  assumes "0 < b"
  shows "b * (int (Suc k) div b) =
    b * (int k div b) + (if b \<le> batch_place b (Suc k) then batch_place b (Suc k) else 0)"
proof -
  define r where "r = int k mod b"
  have r: "0 \<le> r" "r < b" "int k = b * (int k div b) + r" using assms by (simp_all add: r_def)
  have place: "batch_place b (Suc k) = r + 1" by (simp add: batch_place_def r_def)
  have "int (Suc k) = b * (int k div b) + (r + 1)" using r(3) unfolding of_nat_Suc by linarith
  then have "int (Suc k) div b = (b * (int k div b) + (r + 1)) div b" by (rule arg_cong)
  also have "\<dots> = int k div b + (r + 1) div b" using assms by simp
  finally have "int (Suc k) div b = int k div b + (r + 1) div b" .
  moreover have "(r + 1) div b = (if b \<le> r + 1 then 1 else 0)"
  proof (cases "b \<le> r + 1")
    case True
    with r(2) have "r + 1 = b" by simp
    with True assms show ?thesis by simp
  next
    case False
    with r(1) show ?thesis by (simp add: div_pos_pos_trivial)
  qed
  ultimately show ?thesis using place r(2) by (auto simp: distrib_left)
qed

text \<open>The requests of one query among those handled.\<close>

definition times_asked :: "'s guest_env \<Rightarrow> guest_request list \<Rightarrow> string \<Rightarrow> nat" where
  "times_asked G reqs q = List.length (filter (\<lambda>r. query_hash G (gr_body r) = q) reqs)"

lemma guest_requests_counted:
  assumes C: "counting G score minute" and b: "0 < batch_size G" and "\<forall>r\<in>set reqs. \<not> skips_cache r"
    and "counter_open minute s" and "\<forall>q. hits_of s minute q = batch_place (batch_size G) (k q)"
  shows "\<exists>as s'. mmap (guest_use G) reqs s = (Inr as, s') \<and>
    (\<forall>q. score s' (counter_key minute) q + batch_size G * (int (k q) div batch_size G) =
        score s (counter_key minute) q + batch_size G * (int (k q + times_asked G reqs q) div batch_size G))"
  using assms(3-5)
proof (induction reqs arbitrary: s k)
  case Nil
  then show ?case by (simp add: times_asked_def mret_def)
next
  case (Cons r reqs)
  let ?b = "batch_size G" and ?K = "counter_key minute"
  define q where "q = query_hash G (gr_body r)"
  define k' where "k' = k(q := Suc (k q))"
  have h: "next_hit ?b (hits_of s minute q) = batch_place ?b (Suc (k q))"
    using Cons.prems(3) next_batch_place [OF b] by simp
  obtain a t where t: "guest_use G r s = (Inr a, t)" "counter_open minute t"
    "hits_of t minute = (hits_of s minute)(q := batch_place ?b (Suc (k q)))"
    "score t ?K = (score s ?K)(q := score s ?K q + (if ?b \<le> batch_place ?b (Suc (k q)) then batch_place ?b (Suc (k q)) else 0))"
    using guest_use_step [OF C Cons.prems(2) _ q_def h [symmetric]] Cons.prems(1) by auto
  have "\<forall>p. hits_of t minute p = batch_place ?b (k' p)"
    using Cons.prems(3) t(3) by (simp add: k'_def)
  then obtain as s' where s': "mmap (guest_use G) reqs t = (Inr as, s')"
    "\<And>p. score s' ?K p + ?b * (int (k' p) div ?b) = score t ?K p + ?b * (int (k' p + times_asked G reqs p) div ?b)"
    using Cons.IH [of t k'] Cons.prems(1) t(2) by auto
  have asked: "k' p + times_asked G reqs p = k p + times_asked G (r # reqs) p" for p
    by (simp add: k'_def times_asked_def q_def)
  have "score s' ?K p + ?b * (int (k p) div ?b) = score s ?K p + ?b * (int (k p + times_asked G (r # reqs) p) div ?b)" for p
  proof (cases "p = q")
    case True
    then show ?thesis
      using s'(2) [of q] t(4) batch_reported [OF b, of "k q"]
      by (simp add: asked [symmetric] k'_def del: of_nat_Suc of_nat_add)
  next
    case False
    then show ?thesis using s'(2) [of p] t(4) by (simp add: asked) (simp add: k'_def)
  qed
  moreover have "mmap (guest_use G) (r # reqs) s = (Inr (a # as), s')"
    using t(1) s'(1) by (simp add: mbind_def mret_def)
  ultimately show ?case by auto
qed

text \<open>
  Requests that overlap. The requests that wait to report a full batch of a query, and the invariant: what
  was reported came in as many reports as batches are full and not waiting, each between one hit and a
  full batch.
\<close>

primrec will_report :: "string \<Rightarrow> guest_thread \<Rightarrow> bool" where
  "will_report q (Storing f) \<longleftrightarrow> gf_query f = q"
| "will_report q (Reporting f) \<longleftrightarrow> gf_query f = q"
| "will_report q (Measuring f) \<longleftrightarrow> False"
| "will_report q (Opening f) \<longleftrightarrow> False"
| "will_report q (Replying f) \<longleftrightarrow> False"

definition unreported :: "guest_thread multiset \<Rightarrow> string \<Rightarrow> nat" where
  "unreported T q = size (filter_mset (will_report q) T)"

definition reports_sound ::
  "('x guest_state_scheme) guest_env \<Rightarrow> ('x guest_state_scheme \<Rightarrow> string \<Rightarrow> string \<Rightarrow> int) \<Rightarrow> string \<Rightarrow>
   (string \<Rightarrow> int) \<Rightarrow> guest_request list \<Rightarrow> 'x guest_state_scheme \<Rightarrow> guest_thread multiset \<Rightarrow> bool" where
  "reports_sound G score minute old reqs s T \<longleftrightarrow>
     counter_open minute s \<and> (\<forall>t\<in>#T. frame_of minute s (thread_frame t)) \<and>
     (\<forall>q. hits_of s minute q = batch_place (batch_size G) (times_asked G reqs q) \<and>
        (let r = int (times_asked G reqs q) div batch_size G - int (unreported T q) in
         0 \<le> r \<and> old q + r \<le> score s (counter_key minute) q \<and>
         score s (counter_key minute) q \<le> old q + batch_size G * r))"

lemma unreported_add: "unreported (add_mset t T) q = unreported T q + (if will_report q t then 1 else 0)"
  by (simp add: unreported_def)

lemma reports_sound_move:
  assumes "reports_sound G score minute old reqs s (add_mset t T)" and "calm score minute s s'"
    and "thread_frame t' = thread_frame t" and "\<And>q. will_report q t' = will_report q t"
  shows "reports_sound G score minute old reqs s' (add_mset t' T)"
  using assms(1) by (simp add: reports_sound_def calmD [OF assms(2)] unreported_add assms(3,4))

lemma reports_sound_end:
  assumes "reports_sound G score minute old reqs s (add_mset t T)" and "calm score minute s s'"
    and "\<And>q. \<not> will_report q t"
  shows "reports_sound G score minute old reqs s' T"
  using assms(1) by (simp add: reports_sound_def calmD [OF assms(2)] unreported_add assms(3))

lemma times_asked_snoc:
  "times_asked G (reqs @ [r]) = (times_asked G reqs)(query_hash G (gr_body r) := Suc (times_asked G reqs (query_hash G (gr_body r))))"
  by (auto simp: times_asked_def)

lemma will_report_waits [simp]: "\<not> will_report q (after_report f)" "thread_frame (after_report f) = f"
  "will_report q (first_wait G f s) \<longleftrightarrow> batch_full G f s \<and> gf_query f = q" "thread_frame (first_wait G f s) = f"
  by (simp_all add: after_report_def first_wait_def)

lemma full_batch_place:
  assumes "0 < b"
  shows "int (Suc k) div b = int k div b + (if b \<le> batch_place b (Suc k) then 1 else 0)"
    and "0 < k \<Longrightarrow> 1 \<le> batch_place b k" and "batch_place b k \<le> b"
proof -
  have "batch_place b (Suc k) \<le> b" using assms by (simp add: batch_place_def add1_zle_eq)
  then have "b * (int (Suc k) div b) = b * (int k div b + (if b \<le> batch_place b (Suc k) then 1 else 0))"
    unfolding batch_reported [OF assms, of k] by (simp add: distrib_left)
  then show "int (Suc k) div b = int k div b + (if b \<le> batch_place b (Suc k) then 1 else 0)" using assms by simp
  show "0 < k \<Longrightarrow> 1 \<le> batch_place b k" "batch_place b k \<le> b" using assms by (auto simp: batch_place_def add1_zle_eq)
qed

lemma reports_sound_arrive:
  assumes C: "counting G score minute" and b: "0 < batch_size G" and I: "reports_sound G score minute old reqs s T"
    and step: "guest_count G req s = (Inr f, s')"
  shows "reports_sound G score minute old (reqs @ [req]) s' (add_mset (first_wait G f s') T)"
proof -
  let ?b = "batch_size G" and ?k = "times_asked G reqs"
  have h: "\<And>q. hits_of s minute q = batch_place ?b (?k q)" and w: "counter_open minute s"
    using I by (simp_all add: reports_sound_def)
  have f: "gf_query f = query_hash G (gr_body req)" "frame_of minute s' f" "counter_open minute s'"
      "hits_of s' minute = (hits_of s minute)(gf_query f := batch_place ?b (Suc (?k (gf_query f))))" "score s' = score s"
      "cacheHitsCounter s minute \<noteq> None \<longrightarrow> cacheHitsCounter s' minute = cacheHitsCounter s minute"
    using guest_count_step [OF C w, of req] step by (simp_all add: h next_batch_place [OF b])
  have full: "batch_full G f s' \<longleftrightarrow> ?b \<le> batch_place ?b (Suc (?k (gf_query f)))"
    using frame_sees [OF f(2)] f(4) by (simp add: batch_full_def)
  have r: "int (times_asked G (reqs @ [req]) q) div ?b - int (unreported (add_mset (first_wait G f s') T) q) =
      int (?k q) div ?b - int (unreported T q)" for q
    using full full_batch_place(1) [OF b, of "?k (gf_query f)"]
    by (auto simp: times_asked_snoc f(1) [symmetric] unreported_add simp del: of_nat_Suc)
  show ?thesis unfolding reports_sound_def Let_def r
    using I f(2,3,4,6) unfolding reports_sound_def Let_def
    by (auto simp: f(5) times_asked_snoc f(1) [symmetric] frame_of_def)
qed

lemma reports_sound_report:
  assumes C: "counting G score minute" and b: "0 < batch_size G"
    and I: "reports_sound G score minute old reqs s (add_mset (Reporting f) T)" and step: "guest_report G f s = (r, s')"
  shows "r = Inr () \<and> reports_sound G score minute old reqs s' (add_mset (Measuring f) T)"
proof -
  let ?b = "batch_size G" and ?k = "times_asked G reqs" and ?q = "gf_query f" and ?K = "counter_key minute"
  have f: "frame_of minute s f" and h: "\<And>q. hits_of s minute q = batch_place ?b (?k q)"
    using I by (simp_all add: reports_sound_def)
  have s': "r = Inr ()" "hits_of s' minute = hits_of s minute" "counter_open minute s' = counter_open minute s"
    "frame_of minute s' = frame_of minute s"
    "score s' ?K = (score s ?K)(?q := score s ?K ?q + batch_place ?b (?k ?q))"
    using guest_report_step [OF C f] step by (auto simp: h)
  have "0 \<le> int (?k ?q) div ?b - int (unreported (add_mset (Reporting f) T) ?q)" using I by (simp add: reports_sound_def Let_def)
  then have "0 < int (?k ?q) div ?b" by (simp add: unreported_add)
  then have "0 < ?k ?q" by (rule_tac ccontr) simp
  then have p: "1 \<le> batch_place ?b (?k ?q)" "batch_place ?b (?k ?q) \<le> ?b" using full_batch_place(2,3) [OF b] by auto
  have u: "unreported (add_mset (Measuring f) T) q = unreported T q"
    "unreported (add_mset (Reporting f) T) q = unreported T q + (if ?q = q then 1 else 0)" for q by (simp_all add: unreported_add)
  define g where "g = (\<lambda>q. int (?k q) div ?b - int (unreported T q))"
  have old: "0 \<le> g q - (if ?q = q then 1 else 0) \<and> old q + (g q - (if ?q = q then 1 else 0)) \<le> score s ?K q \<and>
      score s ?K q \<le> old q + ?b * (g q - (if ?q = q then 1 else 0))" for q
  proof -
    have "int (?k q) div ?b - int (unreported (add_mset (Reporting f) T) q) = g q - (if ?q = q then 1 else 0)"
      by (simp add: u(2) g_def)
    then show ?thesis using I unfolding reports_sound_def Let_def by metis
  qed
  have "0 \<le> g q \<and> old q + g q \<le> score s' ?K q \<and> score s' ?K q \<le> old q + ?b * g q" for q
  proof (cases "?q = q")
    case True
    with old [of q] p s'(5) show ?thesis by (simp add: right_diff_distrib)
  next
    case False
    with old [of q] s'(5) show ?thesis by simp
  qed
  with I s'(1-4) show ?thesis by (simp add: reports_sound_def Let_def u(1) g_def)
qed

lemma guest_stage_sound:
  assumes C: "counting G score minute" and b: "0 < batch_size G"
    and I: "reports_sound G score minute old reqs s (add_mset t T)" and step: "guest_stage G t s = (r, s')"
  shows "(\<exists>t'. r = Inr (Some t') \<and> reports_sound G score minute old reqs s' (add_mset t' T)) \<or>
    (r = Inr None \<and> reports_sound G score minute old reqs s' T)"
proof -
  have f: "frame_of minute s (thread_frame t)" using I by (simp add: reports_sound_def)
  show ?thesis
  proof (cases t)
    case (Storing f)
    obtain t1 where "guest_store G f s = (Inr (), t1)" "calm score minute s t1" using guest_store_calm [OF C] by blast
    with Storing step reports_sound_move [OF I, of t1 "Reporting f"] show ?thesis
      by (auto simp: mthen_apply mret_def)
  next
    case (Reporting f)
    with step I reports_sound_report [OF C b, of old reqs s f T] show ?thesis
      by (auto simp: mthen_apply mret_def split: prod.splits sum.splits)
  next
    case (Measuring f)
    obtain t1 where "guest_measure G f s = (Inr (), t1)" "calm score minute s t1" using guest_measure_calm [OF C] by blast
    with Measuring step reports_sound_move [OF I, of t1 "after_report f"] show ?thesis
      by (auto simp: mthen_apply mret_def)
  next
    case (Opening f)
    obtain t1 where "guest_open G f s = (Inr (), t1)" "calm score minute s t1" using guest_open_calm [OF C f] Opening by auto
    with Opening step reports_sound_move [OF I, of t1 "Replying f"] show ?thesis
      by (auto simp: mthen_apply mret_def)
  next
    case (Replying f)
    obtain a t1 where "guest_reply G f s = (Inr a, t1)" "calm score minute s t1" using guest_reply_calm [OF C f] Replying by auto
    with Replying step reports_sound_end [OF I, of t1] show ?thesis
      by (auto simp: mthen_apply mret_def)
  qed
qed

lemma guest_run_sound:
  assumes C: "counting G score minute" and b: "0 < batch_size G" and "cacheHitsCounter s\<^sub>0 minute = None"
  shows "guest_run G s\<^sub>0 reqs s T \<Longrightarrow> reports_sound G score minute (score s\<^sub>0 (counter_key minute)) reqs s T"
proof (induction rule: guest_run.induct)
  case Start
  with assms(3) show ?case
    by (simp add: reports_sound_def counter_open_def hits_of_def times_asked_def batch_place_def unreported_def)
next
  case (Arrive reqs s T req f s')
  then show ?case using reports_sound_arrive [OF C b] by blast
qed (use guest_stage_sound [OF C b] in fastforce)+

text \<open>
  C25: The score Redis keeps of a query for the warmer. When the requests of a minute are handled one after
  another, it is the number of times the query was asked, rounded down to whole batches. However they
  overlap, every full batch that no longer waits to be reported adds at least one hit and at most a batch,
  so a query is never counted more often than it was asked.
\<close>

theorem guest_hits_reported:
  assumes "counting G score minute" and "0 < batch_size G" and "cacheHitsCounter s minute = None"
    and "\<forall>r\<in>set reqs. \<not> skips_cache r"
  shows "(\<exists>as s'. mmap (guest_use G) reqs s = (Inr as, s') \<and>
      (\<forall>q. score s' (counter_key minute) q = score s (counter_key minute) q +
        int (times_asked G reqs q) - int (times_asked G reqs q) mod batch_size G)) \<and>
    (\<forall>s' T. guest_run G s reqs s' T \<longrightarrow>
      (\<forall>q. let r = int (times_asked G reqs q) div batch_size G - int (unreported T q);
              gained = score s' (counter_key minute) q - score s (counter_key minute) q
           in r \<le> gained \<and> gained \<le> batch_size G * r \<and> gained \<le> int (times_asked G reqs q)))"
proof -
  have "\<forall>q. hits_of s minute q = batch_place (batch_size G) ((\<lambda>_. 0) q)" and w: "counter_open minute s"
    using assms(3) by (simp_all add: hits_of_def batch_place_def counter_open_def)
  from guest_requests_counted [OF assms(1,2,4) w this(1)]
  have "\<exists>as s'. mmap (guest_use G) reqs s = (Inr as, s') \<and>
      (\<forall>q. score s' (counter_key minute) q = score s (counter_key minute) q +
        int (times_asked G reqs q) - int (times_asked G reqs q) mod batch_size G)"
    by (auto simp: minus_mod_eq_mult_div [symmetric] add_diff_eq)
  moreover have "let r = int (times_asked G reqs q) div batch_size G - int (unreported T q);
      gained = score s' (counter_key minute) q - score s (counter_key minute) q
    in r \<le> gained \<and> gained \<le> batch_size G * r \<and> gained \<le> int (times_asked G reqs q)"
    if run: "guest_run G s reqs s' T" for s' T q
  proof -
    define r where "r = int (times_asked G reqs q) div batch_size G - int (unreported T q)"
    have "batch_size G * r \<le> batch_size G * (int (times_asked G reqs q) div batch_size G)"
      using assms(2) by (simp add: r_def)
    also have "\<dots> \<le> int (times_asked G reqs q)"
      using assms(2) by (simp add: minus_mod_eq_mult_div [symmetric])
    finally have "batch_size G * r \<le> int (times_asked G reqs q)" .
    moreover have "score s (counter_key minute) q + r \<le> score s' (counter_key minute) q"
      "score s' (counter_key minute) q \<le> score s (counter_key minute) q + batch_size G * r"
      using guest_run_sound [OF assms(1-3) run] by (auto simp: reports_sound_def Let_def r_def)
    ultimately show ?thesis unfolding Let_def r_def [symmetric] by linarith
  qed
  ultimately show ?thesis by blast
qed

record guest_tally = guest_state +
  tally :: "string \<Rightarrow> string \<Rightarrow> int"

definition tally_env :: "guest_tally guest_env" where
  "tally_env =
     \<lparr>guest_md5 = (\<lambda>s. s), batchVariable = Some 2, thresholdVariable = None, defaultTtl = 3, guestMinute = 60,
      guestSecond = 1, minuteNow = mret ''12:01'', minuteBefore = mret ''12:00'',
      guestGet = (\<lambda>k. mret JUndef), guestSet = (\<lambda>k v t. mret ()), guestGetOrSet = (\<lambda>k v t. mret ()),
      zIncrementRemote = (\<lambda>k n m. mmodify (\<lambda>s. s\<lparr>tally := (tally s)(k := (tally s k)(m := tally s k m + n))\<rparr>)),
      setTtlRemote = (\<lambda>k t. mret ()), zRangeByScoreRemote = (\<lambda>k n. mret []),
      postGraphql = (\<lambda>q. mret JUndef), guestLock = (\<lambda>k m. m), guestMetric = (\<lambda>m. mret ())\<rparr>"

definition asks :: "string \<Rightarrow> guest_request" where
  "asks q = \<lparr>gr_authorization = None, gr_noCache = None, gr_body = JStr q\<rparr>"

definition no_tally :: guest_tally where
  "no_tally = \<lparr>cacheHitsCounter = Map.empty, hitObjects = [], tally = (\<lambda>k m. 0)\<rparr>"

lemma tally_counting: "counting tally_env tally ''12:01''"
  by (auto simp: counting_def hits_kept_def tally_env_def mret_def mmodify_def)


text \<open>
  The lower bound is reached: with batches of two, a third request of the query arrives while the second
  waits to store the body, the counter starts again, and one hit is reported instead of two. Handled one
  after another, the three requests report two.
\<close>

definition asked_a :: "bool \<Rightarrow> guest_frame" where
  "asked_a first =
     \<lparr>gf_minute = ''12:01'', gf_previous = ''12:00'', gf_query = query_hash tally_env (JStr ''a''), gf_body = JStr ''a'',
      gf_object = 0, gf_first = first\<rparr>"

definition tallied :: "int \<Rightarrow> (string \<Rightarrow> string \<Rightarrow> int) \<Rightarrow> guest_tally" where
  "tallied n told =
     \<lparr>cacheHitsCounter = [''12:01'' \<mapsto> 0], hitObjects = [[query_hash tally_env (JStr ''a'') \<mapsto> n]], tally = told\<rparr>"

lemma tally_batches: "batch_size tally_env = 2" "minuteNow tally_env = mret ''12:01''" "minuteBefore tally_env = mret ''12:00''"
  by (simp_all add: tally_env_def batch_size_def)

lemma tally_counts:
  "guest_count tally_env (asks ''a'') no_tally = (Inr (asked_a True), tallied 1 (\<lambda>k m. 0))"
  "guest_count tally_env (asks ''a'') (tallied n told) = (Inr (asked_a False), tallied (next_hit 2 n) told)"
  by (simp_all add: guest_count_def tally_batches no_tally_def tallied_def asked_a_def asks_def Let_def mbind_def mret_def mget_def
    mthen_def mmodify_def hits_in_def next_hit_def)

lemma overlapping_hits_lost:
  "\<exists>s' T. guest_run tally_env no_tally [asks ''a'', asks ''a'', asks ''a''] s' T \<and>
     unreported T (query_hash tally_env (JStr ''a'')) = 0 \<and>
     tally s' (counter_key ''12:01'') (query_hash tally_env (JStr ''a'')) = 1"
proof -
  let ?run = "guest_run tally_env no_tally" and ?q = "query_hash tally_env (JStr ''a'')" and ?zero = "\<lambda>k m. 0"
  let ?told = "?zero(counter_key ''12:01'' := (?zero (counter_key ''12:01''))(?q := 1))"
  have asks: "\<not> skips_cache (asks ''a'')" by (simp add: asks_def skips_cache_def)
  have full: "batch_full tally_env (asked_a b) (tallied n told) \<longleftrightarrow> 2 \<le> n" for b n told
    by (simp add: batch_full_def hits_seen_def tallied_def asked_a_def hits_in_def tally_batches)
  have 1: "?run [asks ''a''] (tallied 1 ?zero) {#Opening (asked_a True)#}"
    using guest_run.Arrive [OF guest_run.Start asks tally_counts(1)]
    by (simp add: first_wait_def full after_report_def) (simp add: asked_a_def)
  have 2: "?run [asks ''a'', asks ''a''] (tallied 2 ?zero) {#Storing (asked_a False), Opening (asked_a True)#}"
    using guest_run.Arrive [OF 1 asks tally_counts(2)] by (simp add: first_wait_def full next_hit_def)
  have 3: "?run [asks ''a'', asks ''a'', asks ''a''] (tallied 1 ?zero) {#Storing (asked_a False), Replying (asked_a False), Opening (asked_a True)#}"
    using guest_run.Arrive [OF 2 asks tally_counts(2)]
    by (simp add: first_wait_def full next_hit_def after_report_def add_mset_commute) (simp add: asked_a_def add_mset_commute)
  have store: "guest_stage tally_env (Storing (asked_a False)) (tallied 1 ?zero) = (Inr (Some (Reporting (asked_a False))), tallied 1 ?zero)"
    by (simp add: guest_store_def tally_env_def mthen_def mbind_def mret_def)
  have report: "guest_stage tally_env (Reporting (asked_a False)) (tallied 1 ?zero) = (Inr (Some (Measuring (asked_a False))), tallied 1 ?told)"
    by (simp add: guest_report_def tally_env_def mthen_def mbind_def mret_def mget_def mmodify_def hits_seen_def tallied_def asked_a_def hits_in_def)
  have "?run [asks ''a'', asks ''a'', asks ''a''] (tallied 1 ?told) {#Measuring (asked_a False), Replying (asked_a False), Opening (asked_a True)#}"
    by (rule guest_run.Resume [OF guest_run.Resume [OF 3 store] report])
  then show ?thesis by (rule_tac exI, rule_tac exI) (rule conjI, assumption, simp add: unreported_def tallied_def)
qed

text \<open>Four requests one after another, and the run of three that overlap.\<close>

theorem guest_hits_reported_witness:
  "(\<exists>as s'. mmap (guest_use tally_env) [asks ''a'', asks ''b'', asks ''a'', asks ''a''] no_tally = (Inr as, s') \<and>
     tally s' (counter_key ''12:01'') (query_hash tally_env (JStr ''a'')) = 2) \<and>
   (\<exists>s' T. guest_run tally_env no_tally [asks ''a'', asks ''a'', asks ''a''] s' T \<and>
     1 \<le> tally s' (counter_key ''12:01'') (query_hash tally_env (JStr ''a'')) \<and>
     tally s' (counter_key ''12:01'') (query_hash tally_env (JStr ''a'')) \<le> 2)"
proof -
  let ?q = "query_hash tally_env (JStr ''a'')"
  have start: "cacheHitsCounter no_tally ''12:01'' = None" "tally no_tally k q = 0" for k q by (simp_all add: no_tally_def)
  have two: "batch_size tally_env = 2" "0 < batch_size tally_env" by (simp_all add: tally_batches)
  have asked: "\<forall>r\<in>set (map asks qs). \<not> skips_cache r" for qs by (simp add: asks_def skips_cache_def)
  have times: "times_asked tally_env [asks ''a'', asks ''b'', asks ''a'', asks ''a''] ?q = 3"
    "times_asked tally_env [asks ''a'', asks ''a'', asks ''a''] ?q = 3"
    by (simp_all add: times_asked_def query_hash_def tally_env_def asks_def json_quote_def)
  note reported = guest_hits_reported [OF tally_counting two(2) start(1) asked]
  from reported [of "[''a'', ''b'', ''a'', ''a'']", THEN conjunct1] obtain as s' where
    "mmap (guest_use tally_env) [asks ''a'', asks ''b'', asks ''a'', asks ''a''] no_tally = (Inr as, s')"
    "tally s' (counter_key ''12:01'') ?q = 2"
    using times(1) by (auto simp: start(2) two(1))
  moreover obtain s1 T where "guest_run tally_env no_tally [asks ''a'', asks ''a'', asks ''a''] s1 T" "unreported T ?q = 0"
    using overlapping_hits_lost by blast
  moreover from this have "1 \<le> tally s1 (counter_key ''12:01'') ?q \<and> tally s1 (counter_key ''12:01'') ?q \<le> 2"
    using reported [of "[''a'', ''a'', ''a'']", THEN conjunct2, rule_format, of s1 T ?q] times(2)
    by (simp add: start(2) two(1) Let_def)
  ultimately show ?thesis by blast
qed

end
