(* ===== verification/Gov_Warmers.thy ===== *)
theory Gov_Warmers
  imports Gov_Resolvers
begin

text \<open>
  The periodic jobs that fill the cache: \<open>governance.cache.warmer.service.ts\<close>,
  \<open>pulse.cache.warmer.service.ts\<close> and the jobs of \<open>cache.warmer.service.ts\<close> that read the network's
  statistics. \<open>Locker.lock\<close> and the decorator \<open>@Lock\<close> are a parameter. A setter whose promise is
  awaited later runs when it is started (\<open>mattempt\<close>), and \<open>Promise.all\<close> settles the outcomes.
\<close>

section \<open>CacheWarmerService\<close>

definition warm_publish :: "'s env \<Rightarrow> string list \<Rightarrow> ('s, unit) prog" where
  "warm_publish E keys = publishKeys E ''deleteCacheKeys'' keys"

definition js_ceil_div :: "int \<Rightarrow> int \<Rightarrow> int" where
  "js_ceil_div a b = - ((- a) div b)"

definition cacheCurrentEpoch :: "'s env \<Rightarrow> ('s, unit) prog" where
  "cacheCurrentEpoch E =
     mbind (doGetGeneric E ''getStats'' ''stats'' 1) (\<lambda>v.
     mbind (mlift (stats_of_json v)) (\<lambda>st.
     mbind (mlift (rbind (js_get ''refreshRate'' v) js_int)) (\<lambda>refreshRate.
     let secs = js_ceil_div ((roundsPerEpoch st - roundsPassed st) * refreshRate) 1000;
         cacheKey = generateCacheKeyFromParams [KStr ''context'', KStr ''currentEpoch''] in
     mthen (cacheSet E cacheKey (VNum (epoch st)) secs None)
           (warm_publish E [cacheKey]))))"

text \<open>The list of keys to publish is never filled.\<close>

definition shard_nonce_key :: "int \<Rightarrow> string" where
  "shard_nonce_key index = generateCacheKeyFromParams [KStr ''context'', KStr ''shardBlockNonce'', KNum index]"

definition cacheShardCurrentBlockNonce :: "'s env \<Rightarrow> ('s, unit) prog" where
  "cacheShardCurrentBlockNonce E =
     mbind (doGetGeneric E ''getStats'' ''stats'' 1) (\<lambda>v.
     mbind (mlift (rbind (js_get ''shards'' v) js_int)) (\<lambda>shards.
     mbind (promise_map (\<lambda>index. mbind (api_getCurrentBlockNonce E index) (\<lambda>n. mlift (js_int n))) [0..shards - 1])
       (\<lambda>shardsNonces.
     mbind (mmap (\<lambda>(index, nonce). cacheSet E (shard_nonce_key index) (VNum nonce) (oneMinute E) None)
             (zip [0..shards - 1] shardsNonces)) (\<lambda>_.
       warm_publish E []))))"


section \<open>GovernanceCacheWarmerService\<close>

text \<open>The uncached methods of the service that the factory chooses.\<close>

definition abi_proposalsRaw :: "('x st) env \<Rightarrow> string \<Rightarrow> ('x st, governance_proposal list) prog" where
  "abi_proposalsRaw E sc = with_abi E sc (\<lambda>c. case c of
      EnergyAbi \<Rightarrow> ts_proposalsRaw E ENERGY sc | TokenSnapshotAbi \<Rightarrow> ts_proposalsRaw E TOKEN_SNAPSHOT sc
    | OldEnergyAbi \<Rightarrow> ts_proposalsRaw E OLD_ENERGY sc | OnChainAbi \<Rightarrow> oc_proposalsRaw E sc)"

definition ts_proposalStatusRaw ::
  "('x st) env \<Rightarrow> GovernanceType \<Rightarrow> string \<Rightarrow> int \<Rightarrow> ('x st, GovernanceProposalStatus option) prog" where
  "ts_proposalStatusRaw E T sc pid =
     ask E T sc ''getProposalStatus'' [PlainNum pid] (\<lambda>v. rbind (sc_name v) (\<lambda>n. Inr (toGovernanceProposalStatus n)))"

definition abi_proposalStatusRaw ::
  "('x st) env \<Rightarrow> string \<Rightarrow> int \<Rightarrow> ('x st, GovernanceProposalStatus option) prog" where
  "abi_proposalStatusRaw E sc pid = with_abi E sc (\<lambda>c. case c of
      EnergyAbi \<Rightarrow> ts_proposalStatusRaw E ENERGY sc pid | TokenSnapshotAbi \<Rightarrow> ts_proposalStatusRaw E TOKEN_SNAPSHOT sc pid
    | OldEnergyAbi \<Rightarrow> ts_proposalStatusRaw E OLD_ENERGY sc pid
    | OnChainAbi \<Rightarrow> mbind (oc_proposalStatusRaw E sc pid) (\<lambda>st. mret (Some st)))"

definition abi_proposalVotesRaw :: "('x st) env \<Rightarrow> string \<Rightarrow> int \<Rightarrow> ('x st, proposal_votes) prog" where
  "abi_proposalVotesRaw E sc pid = with_abi E sc (\<lambda>c. case c of
      EnergyAbi \<Rightarrow> ts_proposalVotesRaw E ENERGY sc pid | TokenSnapshotAbi \<Rightarrow> ts_proposalVotesRaw E TOKEN_SNAPSHOT sc pid
    | OldEnergyAbi \<Rightarrow> ts_proposalVotesRaw E OLD_ENERGY sc pid | OnChainAbi \<Rightarrow> oc_proposalVotesRaw E sc pid)"

text \<open>What one contract contributes: the status of each proposal and the list of them.\<close>

definition warm_contract :: "('x st) env \<Rightarrow> string \<Rightarrow> ('x st, unit) prog" where
  "warm_contract E a =
     mbind (abi_proposalsRaw E a) (\<lambda>proposals.
     mbind (mmap (\<lambda>p. mbind (abi_proposalStatusRaw E a (proposalId p)) (\<lambda>status.
                      mattempt (set_proposalStatus E a (proposalId p) status))) proposals) (\<lambda>promises.
     mbind (mattempt (set_proposals E a proposals)) (\<lambda>list_promise.
     mbind (mlift (settle (promises @ [list_promise]))) (warm_publish E))))"

type_synonym 's lock = "string \<Rightarrow> ('s, unit) prog \<Rightarrow> ('s, unit) prog"

definition cacheGovernanceStatuses :: "('x st) lock \<Rightarrow> ('x st) env \<Rightarrow> ('x st, unit) prog" where
  "cacheGovernanceStatuses lock E =
     lock ''update governance statuses''
       (mbind (mlift (governanceContractsAddresses E (Some [type_string ENERGY, type_string TOKEN_SNAPSHOT]))) (\<lambda>addresses.
        mbind (mmap (warm_contract E) addresses) (\<lambda>_. mret ())))"

text \<open>
  The first address of the chain's own type; without one the service of the factory is \<open>undefined\<close>, and
  the first method called on it throws.
\<close>

definition onchain_address :: "'s env \<Rightarrow> exn + string" where
  "onchain_address E =
     rbind (governanceContractsAddresses E (Some [type_string ONCHAIN])) (\<lambda>as.
       case as of [] \<Rightarrow> Inl TypeError | a # _ \<Rightarrow> Inr a)"

definition invalidateConfig :: "'s env \<Rightarrow> ('s, governance_config_model) prog" where
  "invalidateConfig E =
     mbind (mlift (onchain_address E)) (\<lambda>sc.
     mbind (with_onchain_abi E sc (getConfigRaw E)) (\<lambda>config.
     mbind (set_getConfig E config) (\<lambda>key.
     mthen (warm_publish E [key]) (mret config))))"

text \<open>A loop that awaits a value and starts to store it, with the values and the outcomes it leaves.\<close>

definition fetch_and_start :: "('k \<Rightarrow> ('s, 'a) prog) \<Rightarrow> ('k \<Rightarrow> 'a \<Rightarrow> ('s, string) prog) \<Rightarrow> 'k list \<Rightarrow> ('s, ('a \<times> (exn + string)) list) prog" where
  "fetch_and_start fetch put ks =
     mmap (\<lambda>k. mbind (fetch k) (\<lambda>a. mbind (mattempt (put k a)) (\<lambda>r. mret (a, r)))) ks"

definition onchain_count :: "governance_config_model \<Rightarrow> int" where
  "onchain_count config = proposal_count (lastProposalNonce config)"

definition invalidateProposalsRaw :: "'s env \<Rightarrow> governance_config_model \<Rightarrow> ('s, proposal_info list) prog" where
  "invalidateProposalsRaw E config =
     mbind (mlift (onchain_address E)) (\<lambda>sc.
     mbind (fetch_and_start (\<lambda>n. with_onchain_abi E sc (getProposalRaw E n))
              (\<lambda>n proposal. set_getProposal E (pi_nonce proposal) proposal) [1..onchain_count config]) (\<lambda>done_list.
     mbind (mlift (settle (map snd done_list))) (\<lambda>keys.
     mthen (warm_publish E keys) (mret (map fst done_list)))))"

text \<open>The proposals of the list, as far as the loop over the nonces reaches.\<close>

definition listed :: "governance_config_model \<Rightarrow> proposal_info list \<Rightarrow> (int \<times> proposal_info) list" where
  "listed config proposals = zip [1..onchain_count config] proposals"

definition invalidateProposalsStatuses ::
  "'s env \<Rightarrow> governance_config_model \<Rightarrow> proposal_info list \<Rightarrow> ('s, unit) prog" where
  "invalidateProposalsStatuses E config proposals =
     mbind (mlift (onchain_address E)) (\<lambda>sc.
     mbind (fetch_and_start (\<lambda>(n, proposal). with_onchain_abi E sc (getStatusForProposal E proposal))
              (\<lambda>(n, proposal) status. set_proposalStatus E sc (pi_nonce proposal) (Some status))
              (listed config proposals)) (\<lambda>done_list.
     mbind (mlift (settle (map snd done_list))) (warm_publish E)))"

definition invalidateProposalsVotes ::
  "('x st) env \<Rightarrow> governance_config_model \<Rightarrow> proposal_info list \<Rightarrow> ('x st, unit) prog" where
  "invalidateProposalsVotes E config proposals =
     mbind (mlift (onchain_address E)) (\<lambda>sc.
     mbind (fetch_and_start (\<lambda>(n, proposal). abi_proposalVotesRaw E sc n)
              (\<lambda>(n, proposal) votes. set_proposalVotes E sc (pi_nonce proposal) votes)
              (listed config proposals)) (\<lambda>done_list.
     mbind (mlift (settle (map snd done_list))) (warm_publish E)))"

definition invalidateAllProposals :: "('x st) env \<Rightarrow> ('x st, unit) prog" where
  "invalidateAllProposals E =
     mbind (mlift (onchain_address E)) (\<lambda>sc.
     mbind (abi_proposalsRaw E sc) (\<lambda>allProposals.
     mbind (promise_all [set_proposals E sc allProposals]) (warm_publish E)))"

definition warm_onchain :: "('x st) env \<Rightarrow> ('x st, unit) prog" where
  "warm_onchain E =
     mbind (invalidateConfig E) (\<lambda>config.
     mbind (invalidateProposalsRaw E config) (\<lambda>proposalsRaw.
     mthen (invalidateProposalsStatuses E config proposalsRaw)
    (mthen (invalidateProposalsVotes E config proposalsRaw)
           (invalidateAllProposals E))))"

definition warmOnChainGovernance :: "('x st) lock \<Rightarrow> ('x st) env \<Rightarrow> ('x st, unit) prog" where
  "warmOnChainGovernance lock E =
     lock ''warmOnChainGovernance'' (mtry (warm_onchain E) (\<lambda>error. mret ()))"


section \<open>PulseCacheWarmerService\<close>

definition refreshPollsNumber :: "'s env \<Rightarrow> string list \<Rightarrow> ('s, int list) prog" where
  "refreshPollsNumber E scAddresses =
     mbind (fetch_and_start (pabi_getTotalPolls E) (set_getTotalPolls E) scAddresses) (\<lambda>done_list.
     mbind (mlift (settle (map snd done_list))) (\<lambda>keys.
     mthen (warm_publish E keys) (mret (map fst done_list))))"

definition warm_poll :: "'s env \<Rightarrow> string \<Rightarrow> int \<Rightarrow> ('s, (exn + string) list) prog" where
  "warm_poll E sc pid =
     mbind (promise_both (getPollRaw E sc pid) (getPollResultsRaw E sc pid)) (\<lambda>(poll, pollResults).
     mbind (mattempt (set_getPoll E sc pid poll)) (\<lambda>r1.
     mbind (mattempt (set_getPollResults E sc pid pollResults)) (\<lambda>r2. mret [r1, r2])))"

definition refreshPollsInfo :: "'s env \<Rightarrow> string list \<Rightarrow> int list \<Rightarrow> ('s, unit) prog" where
  "refreshPollsInfo E scAddresses totalPolls =
     mbind (mmap (\<lambda>(sc, n). mbind (mmap (warm_poll E sc) [0..n - 1]) (\<lambda>rs. mret (concat rs)))
              (zip scAddresses totalPolls)) (\<lambda>promises.
     mbind (mlift (settle (concat promises))) (warm_publish E))"

definition refreshIdeasNumber :: "'s env \<Rightarrow> string list \<Rightarrow> ('s, int list) prog" where
  "refreshIdeasNumber E scAddresses =
     mbind (fetch_and_start (pabi_getTotalIdeas E) (set_getTotalIdeas E) scAddresses) (\<lambda>done_list.
     mbind (mlift (settle (map snd done_list))) (\<lambda>keys.
     mthen (warm_publish E keys) (mret (map fst done_list))))"

text \<open>The ideas of every contract, in the order of the two loops.\<close>

definition numbered :: "string list \<Rightarrow> int list \<Rightarrow> (string \<times> int) list" where
  "numbered scAddresses totals = concat (map (\<lambda>(sc, n). map (Pair sc) [0..n - 1]) (zip scAddresses totals))"

definition refreshIdeasInfo :: "'s env \<Rightarrow> string list \<Rightarrow> int list \<Rightarrow> ('s, unit) prog" where
  "refreshIdeasInfo E scAddresses totalIdeas =
     mbind (fetch_and_start (\<lambda>(sc, i). getIdeaRaw E sc i) (\<lambda>(sc, i). set_getIdea E sc i)
              (numbered scAddresses totalIdeas)) (\<lambda>done_list.
     mbind (mlift (settle (map snd done_list))) (warm_publish E))"

definition warmPulsePolls :: "'s lock \<Rightarrow> 's env \<Rightarrow> ('s, unit) prog" where
  "warmPulsePolls lock E =
     lock ''warmPulsePolls''
       (mbind (mlift (governanceContractsAddresses E (Some [type_string PULSE]))) (\<lambda>scAddresses.
        mbind (refreshPollsNumber E scAddresses) (refreshPollsInfo E scAddresses)))"

definition warmPulseIdeas :: "'s lock \<Rightarrow> 's env \<Rightarrow> ('s, unit) prog" where
  "warmPulseIdeas lock E =
     lock ''warmPulseIdeas''
       (mbind (mlift (governanceContractsAddresses E (Some [type_string PULSE]))) (\<lambda>scAddresses.
        mbind (refreshIdeasNumber E scAddresses) (refreshIdeasInfo E scAddresses)))"


section \<open>Readers after a job\<close>

text \<open>A program that leaves what readers of the cache see.\<close>

definition undisturbed :: "('s \<Rightarrow> string \<Rightarrow> cval option) \<Rightarrow> ('s, 'a) prog \<Rightarrow> bool" where
  "undisturbed visible m \<longleftrightarrow> (\<forall>s. visible (snd (m s)) = visible s)"

lemma quiet_keeps: "undisturbed visible m \<longleftrightarrow> (\<forall>V. keeps (\<lambda>s. visible s = V) m)"
  by (auto simp: undisturbed_def keeps_def)

lemma quietD: "undisturbed visible m \<Longrightarrow> m s = (r, s') \<Longrightarrow> visible s' = visible s"
  unfolding undisturbed_def by (metis snd_conv)

lemma quiet_mbind [intro]: "undisturbed visible m \<Longrightarrow> (\<And>a. undisturbed visible (f a)) \<Longrightarrow> undisturbed visible (mbind m f)"
  by (auto simp: quiet_keeps)

lemma quiet_mret [intro, simp]: "undisturbed visible (mret a)"
  by (auto simp: quiet_keeps)

lemma quiet_mlift [intro, simp]: "undisturbed visible (mlift r)"
  by (auto simp: quiet_keeps)

lemma quiet_promise_both [intro]:
  assumes "undisturbed visible m1" "undisturbed visible m2"
  shows "undisturbed visible (promise_both m1 m2)"
  unfolding promise_both_def
  by (intro quiet_mbind quiet_mlift) (use assms in \<open>auto simp: quiet_keeps\<close>)

lemma quiet_pulse:
  assumes "\<forall>sc f args. undisturbed visible (pulseQuery E sc f args)"
  shows "undisturbed visible (pabi_getTotalIdeas E sc)" and "undisturbed visible (getIdeaRaw E sc i)"
  using assms unfolding pabi_getTotalIdeas_def pulse_count_def pulse_ask_def getIdeaRaw_def pabi_getIdea_def
    pabi_getIdeaVotesCount_def
  by (auto intro!: quiet_mbind quiet_promise_both split: prod.split)

lemma quiet_publish: "\<forall>ch ks. undisturbed visible (publishKeys E ch ks) \<Longrightarrow> undisturbed visible (warm_publish E ks)"
  by (simp add: warm_publish_def)

lemma stored_forms: "fst numC n = VNum n" "fst ideaC i = VIdea i"
  by (simp_all add: numC_def ideaC_def)

context cached_entry
begin

text \<open>A loop that fetches values and starts to store them leaves each where its reader looks.\<close>

lemma fetch_and_start_visible:
  assumes C: "caching E visible" and "\<forall>k\<in>set ks. undisturbed visible (fetch k)" and "distinct (map key ks)"
    and "fetch_and_start fetch put ks s = (Inr d, s')"
  shows "list_all2 (\<lambda>k (a, r). r = Inr (key k) \<and> visible s' (key k) = Some (fst c a) \<and> (\<exists>t t'. fetch k t = (Inr a, t'))) ks d \<and>
    (\<forall>q. q \<notin> key ` set ks \<longrightarrow> visible s' q = visible s q)"
  using assms(2-4)
proof (induction ks arbitrary: s d)
  case Nil
  then show ?case by (simp add: fetch_and_start_def)
next
  case (Cons k ks)
  obtain a s1 where fetched: "fetch k s = (Inr a, s1)"
    and rest: "mbind (mattempt (put k a)) (\<lambda>r. mbind (fetch_and_start fetch put ks) (\<lambda>d'. mret ((a, r) # d'))) s1 = (Inr d, s')"
    using Cons.prems(3) by (auto simp: fetch_and_start_def mbind_Inr_iff)
  obtain s2 where s2: "put k a s1 = (Inr (key k), s2)" "visible s2 = (visible s1)(key k \<mapsto> fst c a)"
    using write_visible [OF C] by blast
  obtain d' where d': "fetch_and_start fetch put ks s2 = (Inr d', s')" "d = (a, Inr (key k)) # d'"
    using rest s2(1) by (auto simp: mattempt_def mbind_Inr_iff)
  have IH: "list_all2 (\<lambda>k (a, r). r = Inr (key k) \<and> visible s' (key k) = Some (fst c a) \<and> (\<exists>t t'. fetch k t = (Inr a, t'))) ks d'"
    "\<And>q. q \<notin> key ` set ks \<Longrightarrow> visible s' q = visible s2 q"
    using Cons.IH [of s2 d'] Cons.prems(1,2) d'(1) by auto
  have "visible s1 = visible s" using Cons.prems(1) fetched quietD by (metis list.set_intros(1))
  with IH s2(2) fetched Cons.prems(2) show ?case unfolding d'(2) by (auto simp: image_iff)
qed

end

lemma all2_settled:
  assumes "list_all2 (\<lambda>k (a, r). r = Inr (f k) \<and> P k a) ks d"
  shows "settle (map snd d) = Inr (map f ks)" and "list_all2 P ks (map fst d)"
  using assms by (induction rule: list_all2_induct) auto

lemma numbered_Cons: "numbered (a # as) (n # ns) = map (Pair a) [0..n - 1] @ numbered as ns"
  by (simp add: numbered_def)

lemma numbered_mem: "length as = length ns \<Longrightarrow> (sc, i) \<in> set (numbered as ns) \<longleftrightarrow> (\<exists>n. (sc, n) \<in> set (zip as ns) \<and> 0 \<le> i \<and> i < n)"
proof (induction as ns rule: list_induct2)
  case (Cons a as n ns)
  then show ?case by (auto simp: numbered_Cons)
qed (simp add: numbered_def)

lemma numbered_distinct: "length as = length ns \<Longrightarrow> distinct as \<Longrightarrow> distinct (numbered as ns)"
proof (induction as ns rule: list_induct2)
  case (Cons a as n ns)
  have "(a, i) \<notin> set (numbered as ns)" for i
    using Cons.hyps Cons.prems by (auto simp: numbered_mem dest: set_zip_leftD)
  then show ?case using Cons by (auto simp: numbered_Cons distinct_map inj_on_def)
qed (simp add: numbered_def)

definition warm_idea_key :: "string \<times> int \<Rightarrow> string" where
  "warm_idea_key = (\<lambda>(a, p). getCacheKey ''pulse'' [KStr ''getIdea'', KStr a, KNum p])"

definition ideas_total_key :: "string \<Rightarrow> string" where
  "ideas_total_key a = getCacheKey ''pulse'' [KStr ''getTotalIdeas'', KStr a]"

lemma idea_key_inj:
  assumes "warm_idea_key (a, p) = warm_idea_key (b, q)" and "dotless (KStr a)" "dotless (KStr b)"
  shows "a = b \<and> p = q"
  using cache_key_inj [OF assms(1) [unfolded warm_idea_key_def getCacheKey_def prod.case]] assms(2,3)
  by (auto simp: dotless_def show_int_no_dot dest: show_int_inj)

lemma ideas_total_key_inj:
  assumes "ideas_total_key a = ideas_total_key b" and "dotless (KStr a)" "dotless (KStr b)"
  shows "a = b"
  using cache_key_inj [OF assms(1) [unfolded ideas_total_key_def getCacheKey_def]] assms(2,3)
  by (auto simp: dotless_def)

lemma ideas_total_not_idea:
  assumes "dotless (KStr a)" "dotless (KStr b)"
  shows "ideas_total_key a \<noteq> warm_idea_key (b, q)"
proof
  assume "ideas_total_key a = warm_idea_key (b, q)"
  from cache_key_inj [OF this [unfolded ideas_total_key_def warm_idea_key_def getCacheKey_def prod.case]] assms
  show False by (auto simp: dotless_def show_int_no_dot)
qed

lemma idea_keys_distinct:
  assumes "\<forall>(a, i)\<in>set ps. dotless (KStr a)" and "distinct ps"
  shows "distinct (map warm_idea_key ps)"
  using assms by (auto simp: distinct_map inj_on_def dest!: idea_key_inj)

lemmas ideas_stored = idea_entry.fetch_and_start_visible [folded warm_idea_key_def]

lemmas totals_stored = total_ideas_entry.fetch_and_start_visible [folded ideas_total_key_def]

lemma refreshIdeasNumber_stores:
  assumes C: "caching E visible" and quiet: "\<forall>sc f args. undisturbed visible (pulseQuery E sc f args)"
    "\<forall>ch ks. undisturbed visible (publishKeys E ch ks)"
    and as: "distinct as" "\<forall>a\<in>set as. dotless (KStr a)" and run: "refreshIdeasNumber E as s = (Inr ns, s')"
  shows "list_all2 (\<lambda>a n. visible s' (ideas_total_key a) = Some (VNum n) \<and> (\<exists>t t'. pabi_getTotalIdeas E a t = (Inr n, t'))) as ns"
proof -
  obtain d s1 ks where d: "fetch_and_start (pabi_getTotalIdeas E) (set_getTotalIdeas E) as s = (Inr d, s1)" "ns = map fst d"
    and "warm_publish E ks s1 = (Inr (), s')"
    using run unfolding refreshIdeasNumber_def mthen_def by (elim mbind_InrE) (simp add: mlift_def)
  then have pub: "visible s' = visible s1" by (intro quietD [OF quiet_publish [OF quiet(2)]])
  have "distinct (map ideas_total_key as)"
    using as by (auto simp: distinct_map inj_on_def dest!: ideas_total_key_inj)
  from totals_stored [OF C _ this d(1)] quiet_pulse(1) [OF quiet(1)]
  have "list_all2 (\<lambda>a (n, r). r = Inr (ideas_total_key a) \<and> visible s1 (ideas_total_key a) = Some (VNum n) \<and>
      (\<exists>t t'. pabi_getTotalIdeas E a t = (Inr n, t'))) as d"
    by (simp add: stored_forms)
  from all2_settled(2) [OF this] show ?thesis by (simp add: d(2) pub)
qed

lemma refreshIdeasInfo_stores:
  assumes C: "caching E visible" and quiet: "\<forall>sc f args. undisturbed visible (pulseQuery E sc f args)"
    "\<forall>ch ks. undisturbed visible (publishKeys E ch ks)"
    and as: "distinct as" "\<forall>a\<in>set as. dotless (KStr a)" "length as = length ns"
    and run: "refreshIdeasInfo E as ns s = (Inr (), s')"
  shows "\<forall>(a, i)\<in>set (numbered as ns). \<exists>idea. visible s' (warm_idea_key (a, i)) = Some (VIdea idea) \<and> (\<exists>t t'. getIdeaRaw E a i t = (Inr idea, t'))"
    and "\<forall>a\<in>set as. visible s' (ideas_total_key a) = visible s (ideas_total_key a)"
proof -
  obtain d s1 ks where d: "fetch_and_start (\<lambda>(sc, i). getIdeaRaw E sc i) (\<lambda>(sc, i). set_getIdea E sc i) (numbered as ns) s = (Inr d, s1)"
    and "warm_publish E ks s1 = (Inr (), s')"
    using run unfolding refreshIdeasInfo_def by (elim mbind_InrE) (simp add: mlift_def)
  then have pub: "visible s' = visible s1" by (intro quietD [OF quiet_publish [OF quiet(2)]])
  have plain: "\<forall>(a, i)\<in>set (numbered as ns). dotless (KStr a)"
    using as(2,3) by (fastforce simp: numbered_mem dest: set_zip_leftD)
  have "distinct (map warm_idea_key (numbered as ns))"
    using idea_keys_distinct [OF plain numbered_distinct [OF as(3,1)]] .
  from ideas_stored [OF C _ this d] quiet_pulse(2) [OF quiet(1)]
  have stored: "list_all2 (\<lambda>k (a, r). r = Inr (warm_idea_key k) \<and> visible s1 (warm_idea_key k) = Some (fst ideaC a) \<and>
      (\<exists>t t'. (case k of (sc, i) \<Rightarrow> getIdeaRaw E sc i) t = (Inr a, t'))) (numbered as ns) d"
    and other: "\<forall>q. q \<notin> warm_idea_key ` set (numbered as ns) \<longrightarrow> visible s1 q = visible s q"
    by (auto simp: split_beta)
  from all2_settled(2) [OF stored] show "\<forall>(a, i)\<in>set (numbered as ns). \<exists>idea. visible s' (warm_idea_key (a, i)) = Some (VIdea idea) \<and>
      (\<exists>t t'. getIdeaRaw E a i t = (Inr idea, t'))"
    by (fastforce simp: list_all2_conv_all_nth in_set_conv_nth pub stored_forms)
  show "\<forall>a\<in>set as. visible s' (ideas_total_key a) = visible s (ideas_total_key a)"
    using other plain as(2) ideas_total_not_idea by (fastforce simp: pub)
qed

lemma getIdeas_from_cache:
  assumes C: "caching E visible" and "visible s (ideas_total_key a) = Some (VNum n)"
    and "\<And>i. 0 \<le> i \<Longrightarrow> i < n \<Longrightarrow> visible s (warm_idea_key (a, i)) = Some (VIdea (f i))"
  shows "getIdeas E a s = (Inr (map f [0..min n IDEAS_THRESHOLD - 1]), s)"
proof -
  have "getTotalIdeas E a s = (Inr n, s)"
    unfolding getTotalIdeas_def GetOrSetCache_def
    by (rule cached_hit [OF C]) (use assms(2) in \<open>simp_all add: ideas_total_key_def getCacheKey_def stored_forms\<close>)
  moreover have "getIdea E a i s = (Inr (f i), s)" if "i \<in> set [0..min n IDEAS_THRESHOLD - 1]" for i
    unfolding getIdea_def GetOrSetCache_def
    by (rule cached_hit [OF C]) (use assms(3) [of i] that in \<open>simp_all add: warm_idea_key_def getCacheKey_def stored_forms\<close>)
  then have "promise_map (getIdea E a) [0..min n IDEAS_THRESHOLD - 1] s = (Inr (map f [0..min n IDEAS_THRESHOLD - 1]), s)"
    by (rule promise_all_pure)
  ultimately show ?thesis by (simp add: getIdeas_def)
qed

text \<open>
  C24: When the job that warms the ideas completes, a page of ideas of any pulse contract is answered from
  the cache alone: the state does not change, and the list holds, up to the reader's threshold, one answer
  of the contract for each idea the contract counted, in order.
\<close>

theorem warmed_ideas_served:
  assumes "caching E visible" and "\<forall>sc f args. undisturbed visible (pulseQuery E sc f args)"
    and "\<forall>ch ks. undisturbed visible (publishKeys E ch ks)" and "\<forall>name job. lock name job = job"
    and "governanceContractsAddresses E (Some [type_string PULSE]) = Inr as"
    and "distinct as" and "\<forall>a\<in>set as. dotless (KStr a)" and "a \<in> set as"
    and "warmPulseIdeas lock E s = (Inr (), s')"
  shows "\<exists>n ideas. getIdeas E a s' = (Inr ideas, s') \<and> (\<exists>t t'. pabi_getTotalIdeas E a t = (Inr n, t')) \<and>
    length ideas = nat (min n IDEAS_THRESHOLD) \<and>
    (\<forall>i<length ideas. \<exists>t t'. getIdeaRaw E a (int i) t = (Inr (ideas ! i), t'))"
proof -
  obtain ns s1 where ns: "refreshIdeasNumber E as s = (Inr ns, s1)" and info: "refreshIdeasInfo E as ns s1 = (Inr (), s')"
    using assms(4,5,9) by (auto simp: warmPulseIdeas_def mbind_Inr_iff mlift_def)
  from refreshIdeasNumber_stores [OF assms(1-3,6,7) ns]
  have totals: "length as = length ns" "\<And>j. j < length as \<Longrightarrow> visible s1 (ideas_total_key (as ! j)) = Some (VNum (ns ! j)) \<and>
      (\<exists>t t'. pabi_getTotalIdeas E (as ! j) t = (Inr (ns ! j), t'))"
    by (auto simp: list_all2_conv_all_nth)
  obtain j where j: "j < length as" "a = as ! j" using assms(8) by (auto simp: in_set_conv_nth)
  let ?n = "ns ! j"
  note stores = refreshIdeasInfo_stores [OF assms(1-3,6,7) totals(1) info]
  have "(a, ?n) \<in> set (zip as ns)" using j totals(1) by (force simp: set_zip)
  then have "\<exists>idea. visible s' (warm_idea_key (a, i)) = Some (VIdea idea) \<and> (\<exists>t t'. getIdeaRaw E a i t = (Inr idea, t'))"
    if "0 \<le> i" "i < ?n" for i using stores(1) that numbered_mem [OF totals(1)] by blast
  then obtain f where f: "\<And>i. 0 \<le> i \<Longrightarrow> i < ?n \<Longrightarrow> visible s' (warm_idea_key (a, i)) = Some (VIdea (f i)) \<and>
      (\<exists>t t'. getIdeaRaw E a i t = (Inr (f i), t'))" by metis
  have "visible s' (ideas_total_key a) = Some (VNum ?n)" using stores(2) totals(2) j assms(8) by simp
  then have "getIdeas E a s' = (Inr (map f [0..min ?n IDEAS_THRESHOLD - 1]), s')"
    using getIdeas_from_cache [OF assms(1)] f by blast
  moreover have "\<exists>t t'. getIdeaRaw E a (int i) t = (Inr (map f [0..min ?n IDEAS_THRESHOLD - 1] ! i), t')"
    if "i < length (map f [0..min ?n IDEAS_THRESHOLD - 1])" for i
  proof -
    have i: "int i < min ?n IDEAS_THRESHOLD" using that by (simp add: zless_nat_eq_int_zless)
    then have "[0..min ?n IDEAS_THRESHOLD - 1] ! i = int i" using nth_upto [of 0 i "min ?n IDEAS_THRESHOLD - 1"] by simp
    with that i f [of "int i"] show ?thesis by simp
  qed
  ultimately show ?thesis using totals(2) [OF j(1)] j(2)
    by (intro exI [of _ ?n] exI [of _ "map f [0..min ?n IDEAS_THRESHOLD - 1]"]) simp
qed

definition free_lock :: "'s lock" where
  "free_lock name job = job"

lemma ideas_warm_run: "result_of (warmPulseIdeas free_lock pulse_env) empty_memory = Some ()"
  by code_simp

lemma pulse_addresses_run: "governanceContractsAddresses pulse_env (Some [type_string PULSE]) = Inr [''erdD'']"
  by code_simp

theorem warmed_ideas_served_witness:
  "\<exists>s' n ideas. getIdeas pulse_env ''erdD'' s' = (Inr ideas, s') \<and> (\<exists>t t'. pabi_getTotalIdeas pulse_env ''erdD'' t = (Inr n, t')) \<and>
    length ideas = nat (min n IDEAS_THRESHOLD) \<and>
    (\<forall>i<length ideas. \<exists>t t'. getIdeaRaw pulse_env ''erdD'' (int i) t = (Inr (ideas ! i), t'))"
proof -
  obtain s' where s': "warmPulseIdeas free_lock pulse_env empty_memory = (Inr (), s')"
    using result_of_SomeD [OF ideas_warm_run] by blast
  have "\<forall>sc f args. undisturbed store (pulseQuery pulse_env sc f args)" "\<forall>ch ks. undisturbed store (publishKeys pulse_env ch ks)"
    by (simp_all add: pulse_env_def pulse_answer_def snap_env_def example_env_def memory_env_def)
  from warmed_ideas_served [OF pulse_caching this _ pulse_addresses_run _ _ _ s', of "''erdD''"]
  show ?thesis by (intro exI [of _ s']) (simp add: free_lock_def dotless_def)
qed

end
