(* ===== verification/Gov_Config.thy ===== *)
theory Gov_Config
  imports Gov_Cache
begin

text \<open>
  \<open>ApiConfigService\<close> of \<open>api.config.service.ts\<close>, whose settings are texts of the environment, and the
  order in which \<open>main.ts\<close> starts the servers they select. The Nest applications are not modelled: what
  the bootstrap does to them is a trace of actions.
\<close>

section \<open>ApiConfigService\<close>

type_synonym settings = "string \<Rightarrow> string option"

text \<open>A setting that must be present and not empty.\<close>

definition required :: "settings \<Rightarrow> string \<Rightarrow> string \<Rightarrow> exn + string" where
  "required C name complaint =
     (case C name of
        Some v \<Rightarrow> if v = [] then Inl (PlainError complaint) else Inr v
      | None \<Rightarrow> Inl (PlainError complaint))"

definition required_flag :: "settings \<Rightarrow> string \<Rightarrow> string \<Rightarrow> exn + bool" where
  "required_flag C name complaint = rbind (required C name complaint) (\<lambda>v. Inr (v = ''true''))"

text \<open>\<open>parseInt\<close>: spaces, a sign, an optional \<open>0x\<close>, and the digits that follow; without any, \<open>NaN\<close>.\<close>

definition parseInt_number :: "string \<Rightarrow> bn" where
  "parseInt_number t =
     (let u = dropWhile is_space t;
          neg = prefix ''-'' u;
          v = (if neg \<or> prefix ''+'' u then tl u else u);
          hex = prefix ''0x'' v \<or> prefix ''0X'' v;
          radix = (if hex then 16 else 10);
          ds = takeWhile (is_digit radix) (if hex then drop 2 v else v)
      in if ds = [] then BNaN else bn_int ((if neg then - 1 else 1) * int (read_digits radix ds)))"

definition required_number :: "settings \<Rightarrow> string \<Rightarrow> string \<Rightarrow> exn + bn" where
  "required_number C name complaint = rbind (required C name complaint) (\<lambda>v. Inr (parseInt_number v))"

definition getPublicAppPort :: "settings \<Rightarrow> exn + string" where
  "getPublicAppPort C = required C ''PORT'' ''No public app port present''"

definition getPrefix :: "settings \<Rightarrow> exn + string" where
  "getPrefix C = required C ''PREFIX'' ''No prefix present''"

definition getPublicAppListenAddress :: "settings \<Rightarrow> exn + string" where
  "getPublicAppListenAddress C = required C ''LISTEN_ADDRESS'' ''No public app listen address present''"

definition getPrivateAppPort :: "settings \<Rightarrow> exn + string" where
  "getPrivateAppPort C = required C ''PRIVATE_PORT'' ''No private app port present''"

definition getPrivateAppListenAddress :: "settings \<Rightarrow> exn + string" where
  "getPrivateAppListenAddress C = required C ''PRIVATE_LISTEN_ADDRESS'' ''No private app listen address present''"

definition getCacheWarmerPort :: "settings \<Rightarrow> exn + string" where
  "getCacheWarmerPort C = required C ''CACHEWARMER_PORT'' ''No cache warmer app port present''"

definition isPublicApiActive :: "settings \<Rightarrow> exn + bool" where
  "isPublicApiActive C = required_flag C ''ENABLE_PUBLIC_API'' ''No public api flag present''"

definition isCacheWarmerCronActive :: "settings \<Rightarrow> exn + bool" where
  "isCacheWarmerCronActive C = required_flag C ''ENABLE_CACHE_WARMER'' ''No cache warmer flag present''"

definition isPrivateAppActive :: "settings \<Rightarrow> exn + bool" where
  "isPrivateAppActive C = required_flag C ''ENABLE_PRIVATE_API'' ''No private api flag present''"

definition isEventsNotifierAppActive :: "settings \<Rightarrow> exn + bool" where
  "isEventsNotifierAppActive C = required_flag C ''ENABLE_EVENTS_NOTIFIER'' ''No events notifier api flag present''"

definition isTracerActive :: "settings \<Rightarrow> exn + bool" where
  "isTracerActive C = required_flag C ''ENABLE_TRACER'' ''No tracer flag present''"

definition getRedisUrl :: "settings \<Rightarrow> exn + string" where
  "getRedisUrl C = required C ''REDIS_URL'' ''No redis url present''"

definition getRedisPort :: "settings \<Rightarrow> exn + string" where
  "getRedisPort C = required C ''REDIS_PORT'' ''No redis port present''"

definition getRedisPassword :: "settings \<Rightarrow> string option" where
  "getRedisPassword C = (if C ''REDIS_PASSWORD'' = Some [] then None else C ''REDIS_PASSWORD'')"

definition getApiUrl :: "settings \<Rightarrow> exn + string" where
  "getApiUrl C = required C ''MX_API_URL'' ''No apiUrl present''"

definition getKeepAliveTimeoutDownstream :: "settings \<Rightarrow> exn + bn" where
  "getKeepAliveTimeoutDownstream C =
     required_number C ''KEEPALIVE_TIMEOUT_DOWNSTREAM'' ''No keepAliveTimeoutDownstream present''"

definition getKeepAliveTimeoutUpstream :: "settings \<Rightarrow> exn + bn" where
  "getKeepAliveTimeoutUpstream C =
     required_number C ''KEEPALIVE_TIMEOUT_UPSTREAM'' ''No keepAliveTimeoutUpstream present''"

definition getMongoDBURL :: "settings \<Rightarrow> exn + string" where
  "getMongoDBURL C = required C ''MONGODB_URL'' ''No MongoDB URL present''"

definition getMongoDBDatabase :: "settings \<Rightarrow> exn + string" where
  "getMongoDBDatabase C = required C ''MONGODB_DATABASE'' ''No MongoDB Database present''"

definition getMongoDBUsername :: "settings \<Rightarrow> exn + string" where
  "getMongoDBUsername C = required C ''MONGODB_USERNAME'' ''No MongoDB username present''"

definition getMongoDBPassword :: "settings \<Rightarrow> exn + string" where
  "getMongoDBPassword C = required C ''MONGODB_PASSWORD'' ''No MongoDB password present''"

definition getNativeAuthMaxExpirySeconds :: "settings \<Rightarrow> exn + bn" where
  "getNativeAuthMaxExpirySeconds C =
     required_number C ''NATIVE_AUTH_MAX_EXPIRY_SECONDS'' ''No native auth max expiry in seconds present''"

definition getNativeAuthAcceptedOrigins :: "settings \<Rightarrow> exn + string list" where
  "getNativeAuthAcceptedOrigins C =
     rbind (required C ''NATIVE_AUTH_ACCEPTED_ORIGINS'' ''No accepted origins present'') (\<lambda>v. Inr (split_char (CHR '','') v))"

definition getSecurityAdmins :: "settings \<Rightarrow> exn + string list" where
  "getSecurityAdmins C =
     rbind (required C ''SECURITY_ADMINS'' ''No security admins present'') (\<lambda>v. Inr (split_char (CHR '','') v))"

definition getValidateImpersionateUrl :: "settings \<Rightarrow> string" where
  "getValidateImpersionateUrl C =
     (case C ''MX_VALIDATE_IMPERSONATE_URL'' of
        Some v \<Rightarrow> if v = [] then ''https://extras-api.multiversx.com/impersonate/allowed'' else v
      | None \<Rightarrow> ''https://extras-api.multiversx.com/impersonate/allowed'')"


section \<open>The bootstrap\<close>

datatype server_action =
    SetKeepAlive bn
  | ConnectPubSub string string
  | ListenPubSub
  | AllowAnyOrigin
  | ListenPublic string string
  | ListenPrivate string string string
  | ListenWarmer string string
  | ListenEvents int string

type_synonym 'a boot = "(server_action list, 'a) prog"

definition act :: "server_action \<Rightarrow> unit boot" where
  "act a = mmodify (\<lambda>done_actions. done_actions @ [a])"

text \<open>Both time limits of the server get the same setting.\<close>

definition boot_public :: "settings \<Rightarrow> unit boot" where
  "boot_public C =
     mthen (act ListenPubSub) (mthen (act AllowAnyOrigin)
    (mbind (mlift (getPublicAppPort C)) (\<lambda>port.
     mbind (mlift (getPublicAppListenAddress C)) (\<lambda>addr. act (ListenPublic port addr)))))"

definition boot_private :: "settings \<Rightarrow> unit boot" where
  "boot_private C =
     mbind (mlift (getPrefix C)) (\<lambda>pre.
     mbind (mlift (getPrivateAppPort C)) (\<lambda>port.
     mbind (mlift (getPrivateAppListenAddress C)) (\<lambda>addr. act (ListenPrivate pre port addr))))"

definition boot_warmer :: "settings \<Rightarrow> unit boot" where
  "boot_warmer C =
     mthen (act ListenPubSub)
    (mbind (mlift (getCacheWarmerPort C)) (\<lambda>port.
     mbind (mlift (getPublicAppListenAddress C)) (\<lambda>addr. act (ListenWarmer port addr))))"

definition bootstrap :: "settings \<Rightarrow> unit boot" where
  "bootstrap C =
     mbind (mlift (getKeepAliveTimeoutUpstream C)) (\<lambda>timeout.
     mthen (act (SetKeepAlive timeout))
    (mbind (mlift (getRedisUrl C)) (\<lambda>host.
     mbind (mlift (getRedisPort C)) (\<lambda>port.
     mthen (act (ConnectPubSub host port))
    (mbind (mlift (isPublicApiActive C)) (\<lambda>public.
     mthen (mwhen public (boot_public C))
    (mbind (mlift (isPrivateAppActive C)) (\<lambda>private.
     mthen (mwhen private (boot_private C))
    (mbind (mlift (isCacheWarmerCronActive C)) (\<lambda>warmer.
     mthen (mwhen warmer (boot_warmer C))
    (mbind (mlift (isEventsNotifierAppActive C)) (\<lambda>events.
     mwhen events (act (ListenEvents 5673 ''0.0.0.0''))))))))))))))"


section \<open>What is started\<close>

text \<open>A trace that an action of one kind cannot have come into unless its setting is \<open>true\<close>.\<close>

definition flagged :: "settings \<Rightarrow> server_action \<Rightarrow> bool" where
  "flagged C a = (case a of
      ListenPublic _ _ \<Rightarrow> C ''ENABLE_PUBLIC_API'' = Some ''true''
    | AllowAnyOrigin \<Rightarrow> C ''ENABLE_PUBLIC_API'' = Some ''true''
    | ListenPrivate _ _ _ \<Rightarrow> C ''ENABLE_PRIVATE_API'' = Some ''true''
    | ListenWarmer _ _ \<Rightarrow> C ''ENABLE_CACHE_WARMER'' = Some ''true''
    | ListenEvents _ _ \<Rightarrow> C ''ENABLE_EVENTS_NOTIFIER'' = Some ''true''
    | _ \<Rightarrow> True)"

lemma required_flag_True: "required_flag C name complaint = Inr b \<Longrightarrow> b \<Longrightarrow> C name = Some ''true''"
  by (auto simp: required_flag_def required_def rbind_def split: option.splits if_splits)

lemma keeps_act: "flagged C a \<Longrightarrow> keeps (list_all (flagged C)) (act a)"
  by (simp add: keeps_def act_def mmodify_def)

lemma keeps_required:
  assumes "\<And>a. r = Inr a \<Longrightarrow> keeps I (f a)"
  shows "keeps I (mbind (mlift r) f)"
  using assms by (cases r) (auto simp: keeps_def mlift_def mbind_def)

lemma keeps_mwhen: "(b \<Longrightarrow> keeps I m) \<Longrightarrow> keeps I (mwhen b m)"
  by (simp add: mwhen_def)

text \<open>A server listens only when the environment turns it on.\<close>

theorem only_enabled_servers: "keeps (list_all (flagged C)) (bootstrap C)"
  unfolding bootstrap_def boot_public_def boot_private_def boot_warmer_def isPublicApiActive_def
    isPrivateAppActive_def isCacheWarmerCronActive_def isEventsNotifierAppActive_def
  by (intro keeps_required keeps_mthen keeps_mwhen keeps_act keeps_mret)
     (auto simp: flagged_def dest: required_flag_True)

end
