(* ===== verification/Gov_Gateway.thy ===== *)
theory Gov_Gateway
  imports Gov_Pulse
begin

text \<open>
  \<open>MXGatewayService\<close> of \<open>mx.gateway.service.ts\<close>: the storage of a contract, read through the gateway, and
  the GraphQL entry points of \<open>gov-github.resolver.ts\<close>. The HTTP client is a parameter.
\<close>

section \<open>Requests to the gateway\<close>

text \<open>A failed request has the text of its error, or the data of an answer.\<close>

datatype gw_failure = NoAnswer string | Answered jsval

record 's gateway =
  gw_url :: "string option"
  gw_get :: "string \<Rightarrow> 's \<Rightarrow> (gw_failure + jsval) \<times> 's"
  gw_addressHex :: "string \<Rightarrow> exn + string"

definition handleApiError :: "gw_failure \<Rightarrow> string \<Rightarrow> exn" where
  "handleApiError error resourceUrl =
     (let complaint = (\<lambda>t. PlainError (''Cannot GET '' @ resourceUrl @ '': ['' @ t @ '']'')) in
      case error of
        NoAnswer t \<Rightarrow> complaint t
      | Answered errorData \<Rightarrow>
          (case rbind (js_get ''error'' errorData) (\<lambda>e. if js_bool e then Inr e else
                  rbind (js_get ''message'' errorData) (\<lambda>m. Inr (if js_bool m then m else JStr (json_stringify errorData)))) of
             Inl e \<Rightarrow> e
           | Inr m \<Rightarrow> complaint (js_text m)))"

definition gw_doGet :: "'s gateway \<Rightarrow> string \<Rightarrow> ('s, jsval) prog" where
  "gw_doGet G resourceUrl s =
     (let url = (case gw_url G of None \<Rightarrow> ''undefined'' | Some u \<Rightarrow> u) @ ''/'' @ resourceUrl in
      case gw_get G url s of
        (Inl failure, s') \<Rightarrow> (Inl (handleApiError failure resourceUrl), s')
      | (Inr d, s') \<Rightarrow> (Inr d, s'))"

definition gw_doGetGeneric :: "'s gateway \<Rightarrow> string \<Rightarrow> (jsval \<Rightarrow> exn + jsval) \<Rightarrow> ('s, jsval) prog" where
  "gw_doGetGeneric G resourceUrl callback =
     mbind (gw_doGet G resourceUrl) (\<lambda>response. mlift (callback response))"

definition getSCStorageKey :: "'s gateway \<Rightarrow> string \<Rightarrow> string \<Rightarrow> ('s, jsval) prog" where
  "getSCStorageKey G addr key =
     gw_doGetGeneric G (''address/'' @ addr @ ''/key/'' @ to_hex key) (\<lambda>response. js_path [''data'', ''value''] response)"

text \<open>A part of a storage key; a value of another type adds nothing.\<close>

datatype storage_key = NumKey int | StrKey string | AddrKey string | OtherKey

definition number_hex :: "int \<Rightarrow> string" where
  "number_hex n = (if n < 0 then ''-'' else []) @ show_nat 16 (nat \<bar>n\<bar>)"

fun key_part :: "'s gateway \<Rightarrow> storage_key \<Rightarrow> exn + string" where
  "key_part G (NumKey n) = Inr (padStart 8 (CHR ''0'') (number_hex n))"
| "key_part G (StrKey t) = Inr (to_hex t)"
| "key_part G (AddrKey a) = gw_addressHex G a"
| "key_part G OtherKey = Inr []"

definition storage_keys_text :: "'s gateway \<Rightarrow> storage_key list \<Rightarrow> exn + string" where
  "storage_keys_text G ks = rbind (rmap (key_part G) ks) (\<lambda>ps. Inr (concat ps))"

definition getSCStorageKeys :: "'s gateway \<Rightarrow> string \<Rightarrow> storage_key list \<Rightarrow> ('s, jsval) prog" where
  "getSCStorageKeys G addr ks =
     mbind (mlift (storage_keys_text G ks)) (\<lambda>fullKey.
     let uri = (if fullKey \<noteq> [] then ''address/'' @ addr @ ''/key/'' @ fullKey else ''address/'' @ addr @ ''/keys'') in
     mbind (gw_doGetGeneric G uri (\<lambda>response. js_get ''data'' response)) (\<lambda>response.
       mlift (if fullKey \<noteq> [] then js_get ''value'' response else js_get ''pairs'' response)))"


section \<open>GovGithubResolver\<close>

definition githubOAuthToken :: "'s env \<Rightarrow> string \<Rightarrow> ('s, jsval) prog" where
  "githubOAuthToken E authCode = exchangeCodeForToken E authCode"

definition res_createGithubProposal ::
  "'s env \<Rightarrow> string \<Rightarrow> string \<Rightarrow> string \<Rightarrow> string \<Rightarrow> string \<Rightarrow> ('s, jsval) prog" where
  "res_createGithubProposal E ttl descr prop token user =
     createGithubProposal E \<lparr>dto_title = ttl, dto_description = descr, dto_proposal = prop,
       dto_accessToken = token, dto_user = user\<rparr>"


section \<open>Keys of numbers\<close>

lemma show_nat_length: "2 \<le> b \<Longrightarrow> n < b ^ Suc k \<Longrightarrow> length (show_nat b n) \<le> Suc k"
proof (induction k arbitrary: n)
  case 0
  then show ?case by (subst show_nat.simps) simp
next
  case (Suc k)
  have "n div b < b ^ Suc k" using Suc.prems by (simp add: less_mult_imp_div_less mult.commute)
  from Suc.IH [OF Suc.prems(1) this] show ?case by (subst show_nat.simps) simp
qed

lemma read_digits_zeros: "read_digits b (replicate m (CHR ''0'') @ s) = read_digits b s"
  by (induction m) (simp_all add: read_digits_def char_digit_def Let_def)

text \<open>A number of 32 bits takes eight digits, from which it can be read back.\<close>

lemma number_part_32:
  assumes "0 \<le> n" "n < 2 ^ 32"
  shows "length (padStart 8 (CHR ''0'') (number_hex n)) = 8"
    and "read_digits 16 (padStart 8 (CHR ''0'') (number_hex n)) = nat n"
proof -
  have "nat n < 16 ^ Suc 7" using assms by simp
  from show_nat_length [OF _ this] have "length (show_nat 16 (nat n)) \<le> 8" by simp
  then show "length (padStart 8 (CHR ''0'') (number_hex n)) = 8"
    using assms by (simp add: padStart_def number_hex_def)
  show "read_digits 16 (padStart 8 (CHR ''0'') (number_hex n)) = nat n"
    using assms by (simp add: padStart_def number_hex_def read_digits_zeros read_digits_show_nat)
qed

lemma number_parts_inj:
  assumes "\<forall>n\<in>set ns. 0 \<le> n \<and> n < 2 ^ 32" "\<forall>n\<in>set ms. 0 \<le> n \<and> n < 2 ^ 32"
    and "concat (map (\<lambda>n. padStart 8 (CHR ''0'') (number_hex n)) ns) = concat (map (\<lambda>n. padStart 8 (CHR ''0'') (number_hex n)) ms)"
  shows "ns = ms"
  using assms
proof (induction ns arbitrary: ms)
  case Nil
  then have "ms = []" using number_part_32(1) by (cases ms) fastforce+
  then show ?case by simp
next
  case (Cons n ns)
  let ?f = "\<lambda>n. padStart 8 (CHR ''0'') (number_hex n)"
  obtain m ms' where ms: "ms = m # ms'"
    using Cons.prems number_part_32(1) [of n] by (cases ms) auto
  have n: "0 \<le> n" "n < 2 ^ 32" and m: "0 \<le> m" "m < 2 ^ 32" using Cons.prems(1,2) by (simp_all add: ms)
  have "?f n = ?f m" "concat (map ?f ns) = concat (map ?f ms')"
    using Cons.prems(3) number_part_32(1) [OF n] number_part_32(1) [OF m] by (simp_all add: ms)
  moreover from this(1) have "n = m" using number_part_32(2) [OF n] number_part_32(2) [OF m] n m by simp
  ultimately show ?case using Cons.IH [of ms'] Cons.prems(1,2) by (simp add: ms)
qed

lemma number_keys_text:
  "storage_keys_text G (map NumKey ns) = Inr (concat (map (\<lambda>n. padStart 8 (CHR ''0'') (number_hex n)) ns))"
proof -
  have "rmap (key_part G) (map NumKey ns) = Inr (map (\<lambda>n. padStart 8 (CHR ''0'') (number_hex n)) ns)"
    by (induction ns) (simp_all add: rbind_def)
  then show ?thesis by (simp add: storage_keys_text_def rbind_def)
qed

text \<open>Two lists of numbers of 32 bits read the same storage only if they are equal.\<close>

theorem storage_keys_unique:
  assumes "\<forall>n\<in>set ns. 0 \<le> n \<and> n < 2 ^ 32" "\<forall>n\<in>set ms. 0 \<le> n \<and> n < 2 ^ 32"
  shows "storage_keys_text G (map NumKey ns) = storage_keys_text G (map NumKey ms) \<longleftrightarrow> ns = ms"
  using number_parts_inj [OF assms] by (auto simp: number_keys_text)

end
