(* ===== verification/Gov_Fleet.thy ===== *)
theory Gov_Fleet
  imports Gov_Events Gov_Warmers
begin

text \<open>
  A fleet of processes. The service runs as several processes; each has a copy of cache entries in its own
  memory in front of the shared Redis cache, and is told by messages on the channel \<open>deleteCacheKeys\<close> which
  copies to delete (\<open>CacheController.deleteCacheKey\<close> in \<open>endpoints/cache/cache.controller.ts\<close>). Here are the
  environment of one of the processes, the keys whose copies are stale, the programs that make no copy
  stale (the getters of the services), and triples over the keys that a program writes and publishes.
  Shared entries do not expire.
\<close>

section \<open>The fleet\<close>

record fleet = service_state +
  remote :: "string \<Rightarrow> cval option"
  locals :: "nat \<Rightarrow> string \<Rightarrow> cval option"
  mail :: "nat \<Rightarrow> string list list"

type_synonym 'y fl = "'y fleet_scheme"

text \<open>The documented behaviour of the cache service with two levels, for process \<open>i\<close>.\<close>

definition store_both :: "nat \<Rightarrow> string \<Rightarrow> cval option \<Rightarrow> 'y fl \<Rightarrow> 'y fl" where
  "store_both i k v s = s\<lparr>remote := (remote s)(k := v), locals := (locals s)(i := (locals s i)(k := v))\<rparr>"

definition store_local :: "nat \<Rightarrow> string \<Rightarrow> cval option \<Rightarrow> 'y fl \<Rightarrow> 'y fl" where
  "store_local i k v s = s\<lparr>locals := (locals s)(i := (locals s i)(k := v))\<rparr>"

definition two_level :: "nat \<Rightarrow> string \<Rightarrow> ('y fl, cval) prog \<Rightarrow> int \<Rightarrow> int option \<Rightarrow> ('y fl, cval) prog" where
  "two_level i k f r l =
     mbind (mget (\<lambda>s. (locals s i k, remote s k))) (\<lambda>found. case found of
         (Some v, _) \<Rightarrow> mret v
       | (None, Some v) \<Rightarrow> mthen (mmodify (store_local i k (Some v))) (mret v)
       | (None, None) \<Rightarrow> mbind f (\<lambda>v. mthen (mmodify (store_both i k (Some v))) (mret v)))"

text \<open>A message goes to the mail box of every process.\<close>

definition post :: "string \<Rightarrow> string list \<Rightarrow> 'y fl \<Rightarrow> 'y fl" where
  "post channel ks s =
     (if channel = ''deleteCacheKeys'' then s\<lparr>mail := (\<lambda>j. mail s j @ [ks])\<rparr> else s)"

definition fleet_env :: "nat \<Rightarrow> ('y fl) env \<Rightarrow> ('y fl) env" where
  "fleet_env i E = E\<lparr>getOrSet := two_level i,
     cacheSet := (\<lambda>k v r l. mmodify (store_both i k (Some v))),
     deleteInCache := (\<lambda>k. mmodify (store_both i k None)),
     deleteLocal := (\<lambda>k. mmodify (store_local i k None)),
     publishKeys := (\<lambda>ch ks. mmodify (post ch ks))\<rparr>"

lemma fleet_env_simps [simp]:
  "getOrSet (fleet_env i E) = two_level i" "cacheSet (fleet_env i E) k v r l = mmodify (store_both i k (Some v))"
  "deleteInCache (fleet_env i E) k = mmodify (store_both i k None)"
  "deleteLocal (fleet_env i E) k = mmodify (store_local i k None)"
  "publishKeys (fleet_env i E) ch ks = mmodify (post ch ks)"
  "governanceConfig (fleet_env i E) = governanceConfig E" "hexToBech32 (fleet_env i E) = hexToBech32 E"
  "readFile (fleet_env i E) = readFile E" "fileAccess (fleet_env i E) = fileAccess E"
  "queryContract (fleet_env i E) = queryContract E" "elasticSearch (fleet_env i E) = elasticSearch E"
  "scController_query (fleet_env i E) = scController_query E" "publishEvent (fleet_env i E) = publishEvent E"
  "pulseQuery (fleet_env i E) = pulseQuery E" "now (fleet_env i E) = now E"
  "apiProviderGet (fleet_env i E) = apiProviderGet E" "delay (fleet_env i E) = delay E" "controller_getConfig (fleet_env i E) = controller_getConfig E"
  "controller_getProposal (fleet_env i E) = controller_getProposal E" "fetchUrl (fleet_env i E) = fetchUrl E" "gitFetch (fleet_env i E) = gitFetch E"
  "gitCheckout (fleet_env i E) = gitCheckout E" "gitPull (fleet_env i E) = gitPull E" "gitClone (fleet_env i E) = gitClone E"
  "gitLog (fleet_env i E) = gitLog E" "gitRaw (fleet_env i E) = gitRaw E" "gitDiff (fleet_env i E) = gitDiff E"
  "gitShow (fleet_env i E) = gitShow E"
  by (simp_all add: fleet_env_def)


section \<open>Stale copies\<close>

text \<open>
  A copy is stale when it differs from the shared entry and no message that names its key waits for its
  process. A key is exposed to process \<open>i\<close> when another process has a copy that no message names.
\<close>

definition named :: "'y fl \<Rightarrow> nat \<Rightarrow> string \<Rightarrow> bool" where
  "named s j k \<longleftrightarrow> (\<exists>ks\<in>set (mail s j). k \<in> set ks)"

definition stale :: "'y fl \<Rightarrow> string set" where
  "stale s = {k. \<exists>j. locals s j k \<noteq> None \<and> locals s j k \<noteq> remote s k \<and> \<not> named s j k}"

definition exposed :: "nat \<Rightarrow> 'y fl \<Rightarrow> string set" where
  "exposed i s = {k. \<exists>j. j \<noteq> i \<and> locals s j k \<noteq> None \<and> \<not> named s j k}"

definition good :: "nat \<Rightarrow> string set \<Rightarrow> string set \<Rightarrow> string list \<Rightarrow> 'y fl \<Rightarrow> bool" where
  "good i D X K s \<longleftrightarrow> stale s \<subseteq> D \<and> exposed i s \<subseteq> X \<and> invalidatedKeys s = K"

lemma named_simps [simp]:
  "named (store_both i k v s) j q = named s j q" "named (store_local i k v s) j q = named s j q"
  by (simp_all add: named_def store_both_def store_local_def)

lemma named_post: "named (post ''deleteCacheKeys'' ks s) j k \<longleftrightarrow> named s j k \<or> k \<in> set ks"
  by (auto simp: named_def post_def)

lemma exposed_store [simp]: "exposed i (store_both i k v s) = exposed i s" "exposed i (store_local i k v s) = exposed i s"
  by (auto simp: exposed_def store_both_def [of i] store_local_def [of i] named_def)

lemma keys_store [simp]: "invalidatedKeys (store_both i k v s) = invalidatedKeys s"
  "invalidatedKeys (store_local i k v s) = invalidatedKeys s" "invalidatedKeys (post ch ks s) = invalidatedKeys s"
  by (simp_all add: store_both_def store_local_def post_def)

lemma stale_store_local: "v = None \<or> v = remote s k \<Longrightarrow> stale (store_local i k v s) \<subseteq> stale s"
  by (auto simp: stale_def store_local_def named_def split: if_splits)

lemma stale_store_both: "stale (store_both i k v s) \<subseteq> stale s \<union> (if k \<in> exposed i s then {k} else {})"
  by (auto simp: stale_def exposed_def store_both_def named_def split: if_splits)

lemma stale_post: "stale (post ''deleteCacheKeys'' ks s) \<subseteq> stale s - set ks"
  by (auto simp: stale_def named_post) (auto simp: post_def)

lemma exposed_missing: "k \<in> exposed i s \<Longrightarrow> remote s k = None \<Longrightarrow> k \<in> stale s"
  by (auto simp: exposed_def stale_def)

text \<open>A program of process \<open>i\<close> that makes no copy stale.\<close>

definition spares :: "nat \<Rightarrow> ('y fl, 'a) prog \<Rightarrow> bool" where
  "spares i m \<longleftrightarrow> (\<forall>D X K. keeps (good i D X K) m)"

lemma sparesD: "spares i m \<Longrightarrow> m s = (r, s') \<Longrightarrow>
    stale s' \<subseteq> stale s \<and> exposed i s' \<subseteq> exposed i s \<and> invalidatedKeys s' = invalidatedKeys s"
  unfolding spares_def keeps_def good_def by (metis order_refl snd_conv)

lemma spares_basic [intro, simp]: "spares i (mret a)" "spares i (mthrow e)" "spares i (mget f)" "spares i (mlift r)"
  by (simp_all add: spares_def)

lemma spares_mbind [intro]: "spares i m \<Longrightarrow> (\<And>a. spares i (f a)) \<Longrightarrow> spares i (mbind m f)"
  by (auto simp: spares_def)

lemma spares_mthen [intro]: "spares i m \<Longrightarrow> spares i k \<Longrightarrow> spares i (mthen m k)"
  by (auto simp: spares_def)

lemma spares_mtry [intro]: "spares i m \<Longrightarrow> (\<And>e. spares i (h e)) \<Longrightarrow> spares i (mtry m h)"
  by (auto simp: spares_def)

lemma spares_promise_map [intro]: "(\<And>x. spares i (f x)) \<Longrightarrow> spares i (promise_map f xs)"
  by (auto simp: spares_def)

lemma spares_two_level [intro]:
  fixes f :: "('y fl, cval) prog"
  assumes "spares i f"
  shows "spares i (two_level i k f r l)"
  unfolding spares_def keeps_def
proof (intro allI impI)
  fix D X K and s :: "'y fl"
  assume G: "good i D X K s"
  show "good i D X K (snd (two_level i k f r l s))"
  proof (cases "locals s i k"; cases "remote s k")
    fix v assume "locals s i k = None" "remote s k = Some v"
    then show ?thesis using G stale_store_local [of "Some v" s k i] by (auto simp: two_level_def good_def mthen_apply)
  next
    assume none: "locals s i k = None" "remote s k = None"
    obtain q s1 where q: "f s = (q, s1)" by (cases "f s")
    have s1: "stale s1 \<subseteq> stale s" "exposed i s1 \<subseteq> exposed i s" "invalidatedKeys s1 = invalidatedKeys s"
      using sparesD [OF assms q] by auto
    show ?thesis
    proof (cases q)
      case (Inl e)
      then show ?thesis using G none q s1 by (auto simp: two_level_def good_def)
    next
      case (Inr v)
      have "k \<in> exposed i s1 \<Longrightarrow> k \<in> stale s" using s1(2) none(2) exposed_missing by blast
      then have "stale (store_both i k (Some v) s1) \<subseteq> stale s"
        using stale_store_both [of i k "Some v" s1] s1(1) by (auto split: if_splits)
      then show ?thesis using G none q s1 Inr by (auto simp: two_level_def good_def mthen_apply)
    qed
  qed (use G in \<open>simp_all add: two_level_def\<close>)
qed

lemma spares_cached [intro]: "spares i body \<Longrightarrow> spares i (cached (fleet_env i E) k t c body)"
  unfolding cached_def by (auto intro!: spares_mbind spares_two_level)

lemma spares_GetOrSetCache [intro]: "spares i body \<Longrightarrow> spares i (GetOrSetCache (fleet_env i E) base t name args c body)"
  unfolding GetOrSetCache_def by auto


section \<open>The getters of the handlers\<close>

text \<open>
  The other services (contracts, files, searches, events to subscribers) neither have the caches and mail
  boxes in their hands nor the fields of the handlers.
\<close>

definition elsewhere :: "('y fl, 'a) prog \<Rightarrow> bool" where
  "elsewhere m \<longleftrightarrow> (\<forall>s. remote (snd (m s)) = remote s \<and> locals (snd (m s)) = locals s \<and> mail (snd (m s)) = mail s \<and>
     invalidatedKeys (snd (m s)) = invalidatedKeys s)"

definition services_elsewhere :: "('y fl) env \<Rightarrow> bool" where
  "services_elsewhere E \<longleftrightarrow> (\<forall>q. elsewhere (queryContract E q)) \<and> (\<forall>p. elsewhere (readFile E p)) \<and>
     (\<forall>p. elsewhere (fileAccess E p)) \<and> (\<forall>q. elsewhere (elasticSearch E q)) \<and>
     (\<forall>c f a. elsewhere (scController_query E c f a)) \<and> (\<forall>n. elsewhere (publishEvent E n)) \<and>
     (\<forall>c f a. elsewhere (pulseQuery E c f a)) \<and> elsewhere (now E) \<and> (\<forall>u. elsewhere (apiProviderGet E u)) \<and>
     (\<forall>t. elsewhere (delay E t)) \<and> elsewhere (controller_getConfig E) \<and> (\<forall>p. elsewhere (controller_getProposal E p)) \<and>
     (\<forall>u h. elsewhere (fetchUrl E u h)) \<and> elsewhere (gitFetch E) \<and> (\<forall>b. elsewhere (gitCheckout E b)) \<and>
     (\<forall>b. elsewhere (gitPull E b)) \<and> (\<forall>u. elsewhere (gitClone E u)) \<and> elsewhere (gitLog E) \<and>
     (\<forall>l. elsewhere (gitRaw E l)) \<and> (\<forall>l. elsewhere (gitDiff E l)) \<and> (\<forall>f. elsewhere (gitShow E f))"

lemma same_caches: "remote s' = remote s \<Longrightarrow> locals s' = locals s \<Longrightarrow> mail s' = mail s \<Longrightarrow>
    invalidatedKeys s' = invalidatedKeys s \<Longrightarrow> good i D X K s' \<longleftrightarrow> good i D X K s"
  by (simp add: good_def stale_def exposed_def named_def)

lemma spares_elsewhere: "elsewhere m \<Longrightarrow> spares i m"
  unfolding spares_def keeps_def elsewhere_def using same_caches by metis

lemma spares_mmodify:
  "(\<And>s. remote (f s) = remote s \<and> locals (f s) = locals s \<and> mail (f s) = mail s \<and> invalidatedKeys (f s) = invalidatedKeys s) \<Longrightarrow>
   spares i (mmodify f)"
  by (rule spares_elsewhere) (simp add: elsewhere_def)

lemma spares_services [intro]:
  assumes "services_elsewhere E"
  shows "spares i (queryContract E q)" "spares i (readFile E p)" "spares i (fileAccess E p)" "spares i (elasticSearch E eq)"
    "spares i (scController_query E c f a)" "spares i (publishEvent E n)"
    "spares i (pulseQuery E c f a)" "spares i (now E)"
  using assms by (auto simp: services_elsewhere_def intro: spares_elsewhere)

lemma spares_option [intro]: "(\<And>a. spares i (f a)) \<Longrightarrow> spares i n \<Longrightarrow> spares i (case x of None \<Rightarrow> n | Some a \<Rightarrow> f a)"
  by (cases x) simp_all

lemma spares_if [intro]: "spares i m \<Longrightarrow> spares i n \<Longrightarrow> spares i (if b then m else n)"
  by simp

lemma spares_contract:
  assumes "services_elsewhere E"
  shows "spares i (getGovernanceSmartContract (fleet_env i E) a T)"
  unfolding getGovernanceSmartContract_def getSmartContract_def createSmartContract_def load_contract_def fleet_env_simps
  by (intro spares_mbind spares_mthen spares_mmodify spares_option spares_basic spares_services assms) simp

lemma spares_ask:
  assumes "services_elsewhere E"
  shows "spares i (ask (fleet_env i E) T a endpoint args conv)"
  unfolding ask_def query_first_def getGenericData_def fleet_env_simps
  by (intro spares_mbind spares_basic spares_services spares_contract assms)

lemma spares_getters:
  assumes "services_elsewhere E"
  shows "spares i (userVotedProposals (fleet_env i E) T a u)" "spares i (userVoteTypesForContract (fleet_env i E) a u)"
    "spares i (ts_proposalVotes (fleet_env i E) T a p)" "spares i (ts_proposals (fleet_env i E) T a)"
    "spares i (ts_proposalStatus (fleet_env i E) T a p)"
  unfolding userVotedProposals_def userVoteTypesForContract_def ts_proposalVotes_def ts_proposalStatus_def ts_proposals_def
    ts_proposalsRaw_def ts_proposalVotesRaw_def getGenericData_def by_proposal_def by_contract_def Let_def fleet_env_simps
  by (intro spares_GetOrSetCache spares_mbind spares_basic spares_ask spares_contract spares_services assms)+

lemma spares_delegate_vote:
  assumes "services_elsewhere E"
  shows "spares i (getUserVoteOnChain (fleet_env i E) a u p)"
  unfolding getUserVoteOnChain_def getUserVoteOnChainBody_def getVoteEventOnChain_def elastic_get_def Let_def fleet_env_simps
  by (intro spares_GetOrSetCache spares_mbind spares_mtry spares_basic spares_if spares_option spares_services assms)

lemma spares_delegate_power:
  assumes "services_elsewhere E"
  shows "spares i (getUserVotingPowerFromDelegate (fleet_env i E) u a p)"
  unfolding getUserVotingPowerFromDelegate_def viewUserVotingPower_def provider_getAddressBalance_def fileExists_def
    getMerkleTreeForProvider_def createMerkleTreeForProvider_def load_provider_def fleet_env_simps
  by (intro spares_GetOrSetCache spares_mbind spares_mthen spares_mtry spares_basic spares_if spares_option
      spares_mmodify spares_services assms) simp

lemma spares_delegate_powers:
  assumes "services_elsewhere E"
  shows "spares i (delegateUserVotingPowersRaw (fleet_env i E) u p)"
  unfolding delegateUserVotingPowersRaw_def delegate_power_def Let_def
  by (intro spares_mbind spares_promise_map spares_mtry spares_basic spares_if spares_delegate_vote spares_delegate_power assms)


section \<open>What a program writes and publishes\<close>

text \<open>A program that returns, started where \<open>P\<close> holds, ends where \<open>Q\<close> holds of its result.\<close>

definition triple :: "('s \<Rightarrow> bool) \<Rightarrow> ('s, 'a) prog \<Rightarrow> ('a \<Rightarrow> 's \<Rightarrow> bool) \<Rightarrow> bool" where
  "triple P m Q \<longleftrightarrow> (\<forall>s a s'. P s \<and> m s = (Inr a, s') \<longrightarrow> Q a s')"

lemma triple_mret: "(\<And>s. P s \<Longrightarrow> Q a s) \<Longrightarrow> triple P (mret a) Q"
  by (simp add: triple_def)

lemma triple_mthrow: "triple P (mthrow e) Q"
  by (simp add: triple_def)

lemma triple_mlift: "(\<And>s a. r = Inr a \<Longrightarrow> P s \<Longrightarrow> Q a s) \<Longrightarrow> triple P (mlift r) Q"
  by (simp add: triple_def)

lemma triple_mbind: "triple P m R \<Longrightarrow> (\<And>a. triple (R a) (f a) Q) \<Longrightarrow> triple P (mbind m f) Q"
  unfolding triple_def by (auto simp: mbind_Inr_iff) blast

lemma triple_mthen: "triple P m (\<lambda>_. R) \<Longrightarrow> triple R k Q \<Longrightarrow> triple P (mthen m k) Q"
  unfolding mthen_def by (rule triple_mbind)

lemma triple_lift: "(\<And>a. r = Inr a \<Longrightarrow> triple P (f a) Q) \<Longrightarrow> triple P (mbind (mlift r) f) Q"
  by (cases r) (simp_all add: triple_mthrow)

lemma triple_conseq: "triple P m Q \<Longrightarrow> (\<And>s. P' s \<Longrightarrow> P s) \<Longrightarrow> (\<And>a s. Q a s \<Longrightarrow> Q' a s) \<Longrightarrow> triple P' m Q'"
  by (simp add: triple_def) blast

lemma triple_mwhen: "(b \<Longrightarrow> triple P m (\<lambda>_. P)) \<Longrightarrow> triple P (mwhen b m) (\<lambda>_. P)"
  by (cases b) (simp_all add: triple_mret)

lemma triple_mfold: "(\<And>a x. triple P (f a x) (\<lambda>_. P)) \<Longrightarrow> triple P (mfold f a xs) (\<lambda>_. P)"
  by (induction xs arbitrary: a) (auto intro: triple_mret triple_mbind)

text \<open>
  The assertions: the stale keys are among \<open>D\<close>, the list of keys that the vote handler keeps is \<open>K\<close>.
\<close>

definition at_most :: "string set \<Rightarrow> string list \<Rightarrow> 'y fl \<Rightarrow> bool" where
  "at_most D K s \<longleftrightarrow> stale s \<subseteq> D \<and> invalidatedKeys s = K"

lemma triple_spares: "spares i m \<Longrightarrow> triple (at_most D K) m (\<lambda>_. at_most D K)"
  unfolding triple_def at_most_def using sparesD by blast

lemma triple_setData: "triple (at_most D K) (setData (fleet_env i E) k v t) (\<lambda>r. at_most (insert r D) K)"
  unfolding triple_def at_most_def
  using stale_store_both [of i k "Some v"] by (fastforce simp: setData_def mthen_apply split: if_splits)

lemmas setter_defs = set_userVotedProposals_def set_userVoteTypesForContract_def set_proposalVotes_def
  set_getUserVoteOnChain_def set_delegateUserVotingPowers_def setEnergyEntryForUser_def put_pulse_def

lemma triple_publish: "triple (at_most D K) (publishKeys (fleet_env i E) ''deleteCacheKeys'' ks) (\<lambda>_. at_most (D - set ks) K)"
  unfolding triple_def at_most_def using stale_post by fastforce

lemma triple_deleteCacheKeys: "triple (at_most D K) (deleteCacheKeys (fleet_env i E) ks) (\<lambda>_. at_most (D - set ks) K)"
  unfolding deleteCacheKeys_def by (rule triple_publish)

lemma stale_keys [simp]: "stale (s\<lparr>invalidatedKeys := K\<rparr>) = stale s"
  unfolding stale_def named_def by simp

lemma triple_push: "triple (at_most D K) (push_key k) (\<lambda>_. at_most D (K @ [k]))"
  by (simp add: triple_def at_most_def push_key_def)

lemma triple_gov_delete: "triple (at_most D K) (gov_deleteCacheKeys (fleet_env i E)) (\<lambda>_. at_most (D - set K) [])"
  unfolding triple_def
proof (intro allI impI)
  fix s :: "'a fl" and a s'
  assume "at_most D K s \<and> gov_deleteCacheKeys (fleet_env i E) s = (Inr a, s')"
  then have "at_most D K s" "s' = (post ''deleteCacheKeys'' K s)\<lparr>invalidatedKeys := []\<rparr>"
    by (auto simp: gov_deleteCacheKeys_def mthen_apply at_most_def)
  then show "at_most (D - set K) [] s'" using stale_post [of K s] by (auto simp: at_most_def)
qed


section \<open>The getters of the chain's own contract\<close>

lemma spares_act:
  assumes "services_elsewhere E"
  shows "spares i (apiProviderGet E u)" "spares i (delay E t)" "spares i (controller_getConfig E)"
    "spares i (controller_getProposal E p)" "spares i (fetchUrl E w h)" "spares i (gitFetch E)" "spares i (gitCheckout E b)"
    "spares i (gitPull E b)" "spares i (gitClone E w)" "spares i (gitLog E)" "spares i (gitRaw E l)" "spares i (gitDiff E l)"
    "spares i (gitShow E w)"
  using assms by (auto simp: services_elsewhere_def intro: spares_elsewhere)

lemma spares_mwhen [intro]: "spares i m \<Longrightarrow> spares i (mwhen b m)"
  by (cases b) simp_all

lemma spares_mmap [intro]: "(\<And>x. spares i (f x)) \<Longrightarrow> spares i (mmap f xs)"
  unfolding spares_def by blast

lemma spares_mfold [intro]: "(\<And>a x. spares i (f a x)) \<Longrightarrow> spares i (mfold f a xs)"
  unfolding spares_def by blast

lemma spares_promise_both [intro]: "spares i m \<Longrightarrow> spares i k \<Longrightarrow> spares i (promise_both m k)"
  unfolding promise_both_def spares_def by (intro allI keeps_mbind keeps_mattempt keeps_mlift) blast+

lemma spares_doGetGeneric:
  assumes "services_elsewhere E"
  shows "spares i (doGetGeneric (fleet_env i E) n u k)"
proof (induction "3 - k" arbitrary: k)
  case 0
  then show ?case
    by (subst doGetGeneric.simps)
       (auto intro!: spares_mtry spares_act assms split: exn.split)
next
  case (Suc d)
  have "d = 3 - (k + 1)" using Suc.hyps(2) by simp
  then have "spares i (doGetGeneric (fleet_env i E) n u (k + 1))" by (rule Suc.hyps(1))
  then show ?case
    by (subst doGetGeneric.simps)
       (auto intro!: spares_mtry spares_mthen spares_act assms split: exn.split)
qed

lemma spares_context:
  assumes "services_elsewhere E"
  shows "spares i (getCurrentEpoch (fleet_env i E))" "spares i (getStats (fleet_env i E))"
    "spares i (getFirstBlockData (fleet_env i E) ep sh)" "spares i (getTotalQuorum (fleet_env i E))"
  unfolding getCurrentEpoch_def getStats_def getFirstBlockData_def getTotalQuorum_def getData_eq
    api_getStats_def api_getFirstBlockData_def api_getBalanceForAddress_def
  by (intro spares_cached spares_mbind spares_basic spares_doGetGeneric assms)+

lemma spares_epochs:
  assumes "services_elsewhere E"
  shows "spares i (getFirstBlockTimestampByEpochAndShard (fleet_env i E) ep sh)"
    "spares i (getFirstBlockNonceByEpochAndShard (fleet_env i E) ep sh)" "spares i (getRoundsLeftUntilEpoch (fleet_env i E) ep)"
  unfolding getFirstBlockTimestampByEpochAndShard_def getFirstBlockNonceByEpochAndShard_def getRoundsLeftUntilEpoch_def
    getData_eq Let_def
  by (intro spares_cached spares_mbind spares_basic spares_if spares_context assms)+

lemma spares_clone:
  assumes "services_elsewhere E"
  shows "spares i (cloneAndCheckout (fleet_env i E) slug branch)"
  unfolding cloneAndCheckout_def fleet_env_simps
  by (intro spares_option spares_if spares_mtry spares_mthen spares_basic spares_act spares_services spares_mmodify assms) simp_all

lemma spares_repository:
  assumes "services_elsewhere E"
  shows "spares i (getOpenPullRequests (fleet_env i E))" "spares i (collect_pr (fleet_env i E) acc pr)"
    "spares i (collect_commit (fleet_env i E) acc hash)"
  unfolding getOpenPullRequests_def collect_pr_def proposal_of_pr_def collect_commit_def collect_file_def collect_rationale_def
    github_fileExists_def Let_def fleet_env_simps
  by (auto intro!: spares_mbind spares_mtry spares_mthen spares_if spares_mfold spares_act spares_services assms split: list.split)

lemma spares_proposals:
  assumes "services_elsewhere E"
  shows "spares i (getGithubProposalsRaw (fleet_env i E))" "spares i (getDescription (fleet_env i E) h)"
  unfolding getDescription_def getGithubProposals_def getGithubProposalsRaw_def fleet_env_simps
  by (intro spares_cached spares_mbind spares_mthen spares_mwhen spares_mfold spares_basic spares_act spares_clone spares_repository assms)+

lemma spares_onchain_parts:
  assumes "services_elsewhere E"
  shows "spares i (getConfigRaw (fleet_env i E))" "spares i (getProposalRaw (fleet_env i E) p)"
    "spares i (getConfig (fleet_env i E))" "spares i (getProposal (fleet_env i E) p)"
    "spares i (getStatusForProposal (fleet_env i E) info)"
  unfolding getConfig_def getProposal_def getConfigRaw_def getProposalRaw_def getStatusForProposal_def fleet_env_simps
  by (intro spares_GetOrSetCache spares_mbind spares_if spares_basic spares_act spares_context assms)+

lemma spares_convert:
  assumes "services_elsewhere E"
  shows "spares i (convertProposalInfoToGovernanceModel (fleet_env i E) info a cfg)"
  unfolding convertProposalInfoToGovernanceModel_def oc_withdrawPercentageDefeated_def oc_proposalStatus_def oc_proposalStatusRaw_def Let_def
  by (auto intro!: spares_mbind spares_GetOrSetCache spares_promise_both spares_onchain_parts spares_context spares_epochs
      spares_proposals assms split: prod.split)

lemma spares_onchain:
  assumes "services_elsewhere E"
  shows "spares i (oc_proposalVotesRaw (fleet_env i E) a p)" "spares i (oc_proposalsRaw (fleet_env i E) a)"
    "spares i (oc_proposals (fleet_env i E) a)" "spares i (oc_proposalStatus (fleet_env i E) a p)"
  unfolding oc_proposalVotesRaw_def oc_proposals_def oc_proposalsRaw_def oc_proposalStatus_def oc_proposalStatusRaw_def
  by (intro spares_GetOrSetCache spares_mbind spares_mmap spares_promise_map spares_basic spares_onchain_parts spares_convert assms)+

text \<open>The methods of the service that the factory chooses, whatever it chooses.\<close>

lemma spares_with_abi: "(\<And>c. spares i (f c)) \<Longrightarrow> spares i (with_abi E a f)"
  unfolding with_abi_def by (intro spares_option) simp_all

lemma spares_ts_raw:
  assumes "services_elsewhere E"
  shows "spares i (ts_proposalsRaw (fleet_env i E) T a)" "spares i (ts_proposalStatusRaw (fleet_env i E) T a p)"
    "spares i (ts_proposalVotesRaw (fleet_env i E) T a p)"
  unfolding ts_proposalsRaw_def ts_proposalStatusRaw_def ts_proposalVotesRaw_def getGenericData_def Let_def fleet_env_simps
  by (intro spares_mbind spares_basic spares_ask spares_contract spares_services assms)+

lemma spares_abi:
  assumes "services_elsewhere E"
  shows "spares i (abi_proposals (fleet_env i E) a)" "spares i (abi_proposalStatus (fleet_env i E) a p)"
    "spares i (abi_proposalsRaw (fleet_env i E) a)" "spares i (abi_proposalStatusRaw (fleet_env i E) a p)"
    "spares i (abi_proposalVotesRaw (fleet_env i E) a p)"
  unfolding abi_proposals_def abi_proposalStatus_def abi_proposalsRaw_def abi_proposalStatusRaw_def abi_proposalVotesRaw_def
    oc_proposalStatusRaw_def
  by (auto intro!: spares_with_abi spares_mbind spares_getters spares_ts_raw spares_onchain spares_onchain_parts assms
      split: abi_class.split)

end
