(* ===== verification/Gov_Coherence.thy ===== *)
theory Gov_Coherence
  imports Gov_Fleet
begin

text \<open>
  The local caches of the processes. A handler of events or a job must publish every key that it writes;
  then a process that has handled its messages has no stale copy, but of a key whose value another process
  was waiting for meanwhile. The handlers of \<open>Gov_Events\<close> and the jobs of \<open>Gov_Warmers\<close> are run in one
  process of a fleet at a time while the others read.
\<close>

section \<open>The handlers publish what they write\<close>

lemma triple_gov_delete_all:
  "D' \<subseteq> D \<union> set K \<Longrightarrow> triple (at_most D' K) (gov_deleteCacheKeys (fleet_env i E)) (\<lambda>_. at_most D [])"
  by (rule triple_conseq [OF triple_gov_delete [where D = D']]) (auto simp: at_most_def)

lemma triple_delete_all: "D' \<subseteq> D \<union> set ks \<Longrightarrow> triple (at_most D' K) (deleteCacheKeys (fleet_env i E) ks) (\<lambda>_. at_most D K)"
  by (rule triple_conseq [OF triple_deleteCacheKeys [where D = D']]) (auto simp: at_most_def)

lemma triple_delete_one: "triple (at_most (insert k D) K) (deleteCacheKeys (fleet_env i E) [k]) (\<lambda>_. at_most D K)"
  by (rule triple_delete_all) auto

lemma spares_increase:
  assumes "services_elsewhere E"
  shows "spares i (increaseProposalVotes (fleet_env i E) X ev name)"
  unfolding increaseProposalVotes_def by (intro spares_mbind spares_basic spares_getters assms)

lemmas triple_steps = triple_mbind [OF triple_setData] triple_mthen [OF triple_push]
  triple_mthen [OF triple_delete_one] triple_lift

lemma gov_handler_publishes:
  assumes "services_elsewhere E" "D' \<subseteq> D \<union> set K"
  shows "triple (at_most D' K) (handleGovernanceVoteEvent (fleet_env i E) X ev name) (\<lambda>_. at_most D [])"
  unfolding handleGovernanceVoteEvent_def setter_defs fleet_env_simps
  by (rule triple_steps triple_mthen [OF triple_gov_delete_all [where D = D]] triple_mbind [OF triple_spares] triple_spares
      spares_getters [OF assms(1)] spares_increase [OF assms(1)] spares_services [OF assms(1)] | use assms(2) in auto)+

lemma onchain_handler_publishes:
  assumes "services_elsewhere E"
  shows "triple (at_most D K) (handleOnChainGovernanceVoteEvent (fleet_env i E) X ev name) (\<lambda>_. at_most D K)"
  unfolding handleOnChainGovernanceVoteEvent_def setter_defs
  by (rule triple_steps triple_mbind [OF triple_spares] triple_delete_one spares_delegate_powers [OF assms] | simp)+

text \<open>The loops that start writes and settle them.\<close>

lemma triple_mmap:
  assumes "\<And>x D. x \<in> set xs \<Longrightarrow> triple (at_most D K) (f x) (\<lambda>r. at_most (written r \<union> D) K)"
  shows "triple (at_most D K) (mmap f xs) (\<lambda>rs. at_most (\<Union> (written ` set rs) \<union> D) K)"
  using assms
proof (induction xs arbitrary: D)
  case Nil
  show ?case by (simp add: triple_def)
next
  case (Cons x xs)
  have IH: "triple (at_most D K) (mmap f xs) (\<lambda>rs. at_most (\<Union> (written ` set rs) \<union> D) K)" for D
    using Cons by simp
  have "triple (at_most (written r \<union> D) K) (mbind (mmap f xs) (\<lambda>rs. mret (r # rs)))
      (\<lambda>rs. at_most (\<Union> (written ` set rs) \<union> D) K)" for r
    by (rule triple_mbind [OF IH]) (auto intro!: triple_mret simp: Un_assoc Un_left_commute Un_commute)
  from triple_mbind [OF Cons.prems this] show ?case by simp
qed

definition written_key :: "exn + string \<Rightarrow> string set" where
  "written_key r = (case r of Inl e \<Rightarrow> {} | Inr k \<Rightarrow> {k})"

lemma started_keys: "settle rs = Inr ks \<Longrightarrow> \<Union> (written_key ` set rs) = set ks"
  by (auto simp: settle_Inr_iff written_key_def)

lemma triple_attempt:
  assumes "triple (at_most D K) m (\<lambda>r. at_most (insert r D) K)" and "\<And>s. \<exists>r s'. m s = (Inr r, s')"
  shows "triple (at_most D K) (mattempt m) (\<lambda>r. at_most (written_key r \<union> D) K)"
  unfolding triple_def
proof (intro allI impI)
  fix s r s' assume h: "at_most D K s \<and> mattempt m s = (Inr r, s')"
  obtain k s1 where k: "m s = (Inr k, s1)" using assms(2) by blast
  with h have "r = Inr k" "s' = s1" by simp_all
  with assms(1) k h show "at_most (written_key r \<union> D) K s'" by (auto simp: triple_def written_key_def)
qed

lemma pulse_update_publishes:
  assumes upd: "\<And>ev m. update ev = Inr m \<Longrightarrow> \<exists>k v t. m = setData (fleet_env i E) k v t"
  shows "triple (at_most D K) (apply_updates (fleet_env i E) update events) (\<lambda>_. at_most D K)"
proof -
  have step: "triple (at_most D K) (mbind (mlift (update ev)) mattempt) (\<lambda>r. at_most (written_key r \<union> D) K)" for ev D
  proof (rule triple_lift)
    fix m assume "update ev = Inr m"
    then obtain k v t where "m = setData (fleet_env i E) k v t" using upd by blast
    then show "triple (at_most D K) (mattempt m) (\<lambda>r. at_most (written_key r \<union> D) K)"
      using triple_attempt [OF triple_setData] by (simp add: setData_def mthen_apply)
  qed
  from triple_mmap [where written = written_key, OF step]
  show ?thesis unfolding apply_updates_def
    by (rule triple_mbind, intro triple_lift) (auto simp: started_keys intro!: triple_delete_all)
qed

lemma pulse_update_form:
  "poll_vote_update (fleet_env i E) ev = Inr m \<Longrightarrow> \<exists>k v t. m = setData (fleet_env i E) k v t"
  "idea_vote_update (fleet_env i E) ev = Inr m \<Longrightarrow> \<exists>k v t. m = setData (fleet_env i E) k v t"
  unfolding poll_vote_update_def idea_vote_update_def put_pulse_def
  by (auto simp: rbind_Inr_iff simp del: split_paired_Ex)

lemma pulse_handler_publishes:
  "triple (at_most D K) (handlePulseEvents (fleet_env i E) events) (\<lambda>_. at_most D K)"
  unfolding handlePulseEvents_def handlePulseVotePollEvents_def handlePulseVoteIdeaEvents_def
  by (rule triple_mthen [where R = "at_most D K"]; rule pulse_update_publishes) (rule pulse_update_form, assumption)+

text \<open>An energy update reads the proposals and statuses of the contracts and deletes entries.\<close>

lemma triple_delData: "triple (at_most D K) (delData (fleet_env i E) k) (\<lambda>r. at_most (insert r D) K)"
  unfolding triple_def at_most_def
  using stale_store_both [of i k None] by (fastforce simp: delData_def mthen_apply split: if_splits)

lemma delData_returns: "\<exists>r s'. delData (fleet_env i E) k s = (Inr r, s')"
  by (simp add: delData_def mthen_apply)

definition written_keys :: "(exn + string) list \<Rightarrow> string set" where
  "written_keys rs = \<Union> (written_key ` set rs)"

lemma written_keys_concat: "\<Union> (written_keys ` set rss) = written_keys (concat rss)"
  by (auto simp: written_keys_def)

lemma deletions_written:
  assumes "services_elsewhere E"
  shows "triple (at_most D K) (start_deletions (fleet_env i E) u a) (\<lambda>rs. at_most (written_keys rs \<union> D) K)"
proof -
  have del: "triple (at_most D K) (case x of (p, st) \<Rightarrow> mattempt (deleteUserVotingPower (fleet_env i E) a (proposalId p) u))
      (\<lambda>r. at_most (written_key r \<union> D) K)" for D and x :: "governance_proposal \<times> GovernanceProposalStatus option"
    unfolding deleteUserVotingPower_def by (auto split: prod.split intro!: triple_attempt triple_delData delData_returns)
  show ?thesis
    unfolding start_deletions_def written_keys_def
    by (intro triple_mbind [OF triple_spares [of i]] spares_promise_map spares_abi [OF assms]
        triple_mmap [where written = written_key, OF del])
qed

lemma energy_handler_publishes:
  assumes "services_elsewhere E"
  shows "triple (at_most D K) (handleUpdateEnergy (fleet_env i E) X ev) (\<lambda>_. at_most D K)"
proof -
  let ?F = "fleet_env i E"
  have all: "triple (at_most (insert k D) K) (mmap (start_deletions ?F u) as) (\<lambda>rss. at_most (written_keys (concat rss) \<union> insert k D) K)" for k u as
    unfolding written_keys_concat [symmetric] by (rule triple_mmap) (rule deletions_written [OF assms])
  have publish: "triple (at_most (written_keys (concat rss) \<union> insert k D) K) (mthen (deleteCacheKeys ?F (k # ks)) (publishEvent E n))
        (\<lambda>_. at_most D K)" if "settle (concat rss) = Inr ks" for rss k ks n
  proof -
    have "written_keys (concat rss) = set ks" using started_keys [OF that] by (simp only: written_keys_def)
    then show ?thesis
      by (intro triple_mthen [OF triple_delete_all triple_spares] spares_services assms) auto
  qed
  show ?thesis unfolding handleUpdateEnergy_def setter_defs
    by (auto intro!: triple_lift triple_mbind [OF triple_setData] triple_mbind [OF all] publish split: prod.split simp del: Un_insert_right)
qed

text \<open>The consumer handles the events of a block one after the other.\<close>

definition within :: "string set \<Rightarrow> 'y fl \<Rightarrow> bool" where
  "within L s \<longleftrightarrow> stale s \<subseteq> L"

lemma within_copy:
  assumes "within L s" "k \<notin> L" "mail s j = []"
  shows "locals s j k = None \<or> locals s j k = remote s k"
proof -
  have "k \<notin> stale s" using assms(1,2) by (auto simp: within_def)
  then show ?thesis using assms(3) unfolding stale_def named_def by fastforce
qed

lemma triple_within: "(\<And>K. triple (at_most L K) m (\<lambda>_. at_most L (f K))) \<Longrightarrow> triple (within L) m (\<lambda>_. within L)"
  unfolding triple_def at_most_def within_def by blast

lemma dispatch_publishes:
  assumes "services_elsewhere E"
  shows "triple (within L) (dispatch (fleet_env i E) X ev) (\<lambda>_. within L)"
proof -
  have "triple (at_most L K) (handleGovernanceVoteEvent (fleet_env i E) X ev name) (\<lambda>_. at_most L [])" for K name
    by (rule gov_handler_publishes [OF assms]) simp
  then show ?thesis unfolding dispatch_def Let_def
    by (simp add: triple_mret triple_within [where f = "\<lambda>_. []"] triple_within [OF onchain_handler_publishes [OF assms]]
        triple_within [OF energy_handler_publishes [OF assms]])
qed

lemma consumer_publishes:
  assumes "services_elsewhere E"
  shows "triple (within L) (consumeEvents (fleet_env i E) X filterAddresses block) (\<lambda>_. within L)"
proof (cases "be_events block")
  case None
  then show ?thesis by (simp add: consumeEvents_def triple_mret)
next
  case (Some evs)
  then show ?thesis unfolding consumeEvents_def Let_def
    by (auto intro!: triple_lift triple_mthen [where R = "within L"] triple_mwhen triple_mfold dispatch_publishes assms
        triple_within [OF pulse_handler_publishes])
qed


section \<open>The periodic jobs publish what they write\<close>

lemma spares_pulse:
  assumes "services_elsewhere E"
  shows "spares i (pabi_getTotalPolls (fleet_env i E) a)" "spares i (pabi_getTotalIdeas (fleet_env i E) a)"
    "spares i (getPollRaw (fleet_env i E) a p)" "spares i (getPollResultsRaw (fleet_env i E) a p)"
    "spares i (getIdeaRaw (fleet_env i E) a p)"
  unfolding pabi_getTotalPolls_def pabi_getTotalIdeas_def getPollRaw_def getPollResultsRaw_def getIdeaRaw_def pabi_getPoll_def
    pabi_getIdea_def pabi_getIdeaVotesCount_def pabi_getPollVotesCount_def pulse_count_def pulse_ask_def unix_def fleet_env_simps
  by (auto intro!: spares_mbind spares_promise_both spares_promise_map spares_services assms split: prod.split)

lemma warm_publish_eq: "warm_publish E ks = deleteCacheKeys E ks"
  by (simp add: warm_publish_def deleteCacheKeys_def)

lemma triple_published:
  assumes "settle rs = Inr ks"
  shows "triple (at_most (written_keys rs \<union> D) K) (warm_publish (fleet_env i E) ks) (\<lambda>_. at_most D K)"
  unfolding warm_publish_eq using started_keys [OF assms] by (intro triple_delete_all) (auto simp: written_keys_def)

lemma fetched_written:
  assumes "\<And>k. k \<in> set ks \<Longrightarrow> spares i (fetch k)" and "\<And>k a. \<exists>q v t. put k a = setData (fleet_env i E) q v t"
  shows "triple (at_most D K) (fetch_and_start fetch put ks) (\<lambda>d. at_most (written_keys (map snd d) \<union> D) K)"
proof -
  have put: "triple (at_most D K) (mattempt (put k a)) (\<lambda>r. at_most (written_key r \<union> D) K)" for k a D
    using assms(2) [of k a] triple_attempt [OF triple_setData] by (auto simp: setData_def mthen_apply)
  have "triple (at_most D K) (mbind (fetch k) (\<lambda>a. mbind (mattempt (put k a)) (\<lambda>r. mret (a, r))))
      (\<lambda>d. at_most (written_key (snd d) \<union> D) K)" if "k \<in> set ks" for k D
    by (intro triple_mbind [OF triple_spares [OF assms(1) [OF that]]] triple_mbind [OF put] triple_mret) simp
  from triple_mmap [where written = "\<lambda>d. written_key (snd d)", OF this] show ?thesis
    by (simp add: fetch_and_start_def written_keys_def image_image)
qed

lemma loop_publishes:
  assumes "\<And>k. k \<in> set ks \<Longrightarrow> spares i (fetch k)" and "\<And>k a. \<exists>q v t. put k a = setData (fleet_env i E) q v t"
  shows "triple (at_most D K) (mbind (fetch_and_start fetch put ks) (\<lambda>d. mbind (mlift (settle (map snd d)))
      (warm_publish (fleet_env i E)))) (\<lambda>_. at_most D K)"
    "triple (at_most D K) (mbind (fetch_and_start fetch put ks) (\<lambda>d. mbind (mlift (settle (map snd d)))
      (\<lambda>keys. mthen (warm_publish (fleet_env i E) keys) (mret (g d))))) (\<lambda>_. at_most D K)"
  by (rule triple_mbind [OF fetched_written [OF assms]];
      auto intro!: triple_lift triple_mthen [OF triple_published] triple_published triple_mret)+

lemmas pulse_setters = set_getTotalPolls_def set_getTotalIdeas_def set_getPoll_def set_getPollResults_def set_getIdea_def
  set_proposals_def set_proposalStatus_def

lemma a_write: "\<exists>q v t. setData E k w u = setData E q v t"
  by blast

lemma totals_publish:
  assumes "services_elsewhere E"
  shows "triple (at_most D K) (refreshPollsNumber (fleet_env i E) as) (\<lambda>_. at_most D K)"
    "triple (at_most D K) (refreshIdeasNumber (fleet_env i E) as) (\<lambda>_. at_most D K)"
    "triple (at_most D K) (refreshIdeasInfo (fleet_env i E) as ns) (\<lambda>_. at_most D K)"
  unfolding refreshPollsNumber_def refreshIdeasNumber_def refreshIdeasInfo_def pulse_setters
  by (rule loop_publishes; auto intro: spares_pulse assms a_write simp del: split_paired_Ex)+

lemma started_write: "triple (at_most D K) (mattempt (setData (fleet_env i E) k v t)) (\<lambda>r. at_most (written_key r \<union> D) K)"
  by (intro triple_attempt triple_setData) (simp add: setData_def mthen_apply)

lemma polls_publish:
  assumes "services_elsewhere E"
  shows "triple (at_most D K) (refreshPollsInfo (fleet_env i E) as ns) (\<lambda>_. at_most D K)"
proof -
  have poll: "triple (at_most D K) (warm_poll (fleet_env i E) a p) (\<lambda>rs. at_most (written_keys rs \<union> D) K)" for D a p
    unfolding warm_poll_def pulse_setters
    by (auto intro!: triple_mbind [OF triple_spares] spares_promise_both spares_pulse assms triple_mbind [OF started_write] triple_mret
        simp: written_keys_def Un_ac split: prod.split)
  have polls: "triple (at_most D K) (mmap (warm_poll (fleet_env i E) a) ps) (\<lambda>rs. at_most (written_keys (concat rs) \<union> D) K)" for D a ps
    using triple_mmap [where written = written_keys, OF poll] by (simp only: written_keys_concat)
  have contract: "triple (at_most D K) (case x of (a, n) \<Rightarrow> mbind (mmap (warm_poll (fleet_env i E) a) [0..n - 1]) (\<lambda>rs. mret (concat rs)))
      (\<lambda>rs. at_most (written_keys rs \<union> D) K)" for D x
    by (auto intro!: triple_mbind [OF polls] triple_mret split: prod.split)
  have all: "triple (at_most D K) (mmap (\<lambda>(a, n). mbind (mmap (warm_poll (fleet_env i E) a) [0..n - 1]) (\<lambda>rs. mret (concat rs)))
      (zip as ns)) (\<lambda>rss. at_most (written_keys (concat rss) \<union> D) K)"
    using triple_mmap [where written = written_keys and xs = "zip as ns" and D = D, OF contract] by (simp only: written_keys_concat)
  show ?thesis unfolding refreshPollsInfo_def by (intro triple_mbind [OF all] triple_lift triple_published)
qed

lemma pulse_jobs_publish:
  assumes "services_elsewhere E"
  shows "triple (at_most D K) (warmPulsePolls (\<lambda>_ job. job) (fleet_env i E)) (\<lambda>_. at_most D K)"
    "triple (at_most D K) (warmPulseIdeas (\<lambda>_ job. job) (fleet_env i E)) (\<lambda>_. at_most D K)"
  unfolding warmPulsePolls_def warmPulseIdeas_def
  by (intro triple_lift triple_mbind [OF totals_publish(1) [OF assms]] triple_mbind [OF totals_publish(2) [OF assms]]
      polls_publish totals_publish(3) assms)+

lemma contract_publishes:
  assumes "services_elsewhere E"
  shows "triple (at_most D K) (warm_contract (fleet_env i E) a) (\<lambda>_. at_most D K)"
proof -
  let ?F = "fleet_env i E"
  have one: "triple (at_most D K) (mbind (abi_proposalStatusRaw ?F a (proposalId p)) (\<lambda>status.
      mattempt (set_proposalStatus ?F a (proposalId p) status))) (\<lambda>r. at_most (written_key r \<union> D) K)" for p D
    unfolding pulse_setters by (intro triple_mbind [OF triple_spares [of i]] spares_abi [OF assms] started_write)
  have statuses: "triple (at_most D K) (mmap (\<lambda>p. mbind (abi_proposalStatusRaw ?F a (proposalId p)) (\<lambda>status.
      mattempt (set_proposalStatus ?F a (proposalId p) status))) ps) (\<lambda>rs. at_most (written_keys rs \<union> D) K)" for ps
    using triple_mmap [where written = written_key and xs = ps and D = D, OF one, of "\<lambda>p. p"] by (simp add: written_keys_def)
  have whole: "written_key r \<union> (written_keys rs \<union> D) = written_keys (rs @ [r]) \<union> D" for r rs by (auto simp: written_keys_def)
  have proposals: "triple (at_most (written_keys rs \<union> D) K) (mattempt (set_proposals ?F a ps)) (\<lambda>r. at_most (written_keys (rs @ [r]) \<union> D) K)" for rs ps
    using started_write [of "written_keys rs \<union> D" K i E] unfolding whole pulse_setters by blast
  show ?thesis unfolding warm_contract_def
    by (intro triple_mbind [OF triple_spares [of i]] spares_abi [OF assms] triple_mbind [OF statuses] triple_mbind [OF proposals]
        triple_lift triple_published)
qed

lemma triple_each: "(\<And>x. x \<in> set xs \<Longrightarrow> triple P (f x) (\<lambda>_. P)) \<Longrightarrow> triple P (mmap f xs) (\<lambda>_. P)"
proof (induction xs)
  case (Cons x xs)
  then show ?case by (auto intro!: triple_mbind [where R = "\<lambda>_. P"] triple_mret)
qed (simp add: triple_def)

lemma status_job_publishes:
  assumes "services_elsewhere E"
  shows "triple (at_most D K) (cacheGovernanceStatuses (\<lambda>_ job. job) (fleet_env i E)) (\<lambda>_. at_most D K)"
  unfolding cacheGovernanceStatuses_def
  by (intro triple_lift triple_mbind [OF triple_each] contract_publishes triple_mret assms)

text \<open>The job for the chain's own contract, when no part of it throws.\<close>

lemma spares_with_onchain: "spares i m \<Longrightarrow> spares i (with_onchain_abi E a m)"
  unfolding with_onchain_abi_def by (rule spares_with_abi) (simp split: abi_class.split)

lemmas onchain_setters = set_getConfig_def set_getProposal_def set_proposalStatus_def set_proposalVotes_def set_proposals_def

lemma triple_publish_key: "triple (at_most (insert k D) K) (warm_publish (fleet_env i E) [k]) (\<lambda>_. at_most D K)"
  unfolding warm_publish_eq by (rule triple_delete_one)

lemma config_publishes:
  assumes "services_elsewhere E"
  shows "triple (at_most D K) (invalidateConfig (fleet_env i E)) (\<lambda>_. at_most D K)"
  unfolding invalidateConfig_def onchain_setters
  by (intro triple_lift triple_mbind [OF triple_spares [of i]] spares_with_onchain spares_onchain_parts assms
      triple_mbind [OF triple_setData] triple_mthen [OF triple_publish_key] triple_mret)

lemma proposals_publish:
  assumes "services_elsewhere E"
  shows "triple (at_most D K) (invalidateProposalsRaw (fleet_env i E) c) (\<lambda>_. at_most D K)"
    "triple (at_most D K) (invalidateProposalsStatuses (fleet_env i E) c ps) (\<lambda>_. at_most D K)"
    "triple (at_most D K) (invalidateProposalsVotes (fleet_env i E) c ps) (\<lambda>_. at_most D K)"
  unfolding invalidateProposalsRaw_def invalidateProposalsStatuses_def invalidateProposalsVotes_def onchain_setters
  by (rule triple_lift, rule loop_publishes;
      auto intro: spares_with_onchain spares_onchain_parts spares_abi assms a_write simp del: split_paired_Ex)+

lemma list_publishes:
  assumes "services_elsewhere E"
  shows "triple (at_most D K) (invalidateAllProposals (fleet_env i E)) (\<lambda>_. at_most D K)"
proof -
  have one: "triple (at_most D K) (promise_all [setData (fleet_env i E) k v t]) (\<lambda>ks. at_most (set ks \<union> D) K)" for k v t
  proof -
    have "triple (at_most D K) (mmap mattempt [setData (fleet_env i E) k v t]) (\<lambda>rs. at_most (written_keys rs \<union> D) K)"
      using triple_mmap [where written = written_key and xs = "[setData (fleet_env i E) k v t]" and D = D and f = mattempt and K = K]
        started_write [of _ K i E k v t] by (simp add: written_keys_def)
    then show ?thesis unfolding promise_all_def
      by (rule triple_mbind) (auto intro!: triple_mlift simp: started_keys written_keys_def)
  qed
  have publish: "triple (at_most (set ks \<union> D) K) (warm_publish (fleet_env i E) ks) (\<lambda>_. at_most D K)" for ks
    unfolding warm_publish_eq by (rule triple_delete_all) auto
  show ?thesis unfolding invalidateAllProposals_def onchain_setters
    by (intro triple_lift triple_mbind [OF triple_spares [of i]] spares_abi assms triple_mbind [OF one] publish)
qed

lemma onchain_job_publishes:
  assumes "services_elsewhere E"
  shows "triple (at_most D K) (warm_onchain (fleet_env i E)) (\<lambda>_. at_most D K)"
  unfolding warm_onchain_def
  by (intro triple_mbind [OF config_publishes] triple_mbind [OF proposals_publish(1)] triple_mthen [OF proposals_publish(2)]
      triple_mthen [OF proposals_publish(3)] list_publishes assms)

text \<open>The jobs for the repository and for the epoch write one entry.\<close>

lemma triple_cacheSet: "triple (at_most D K) (cacheSet (fleet_env i E) k v r l) (\<lambda>_. at_most (insert k D) K)"
  unfolding triple_def at_most_def using stale_store_both [of i k "Some v"] by (fastforce split: if_splits)

lemma github_job_publishes:
  assumes "services_elsewhere E"
  shows "triple (at_most D K) (warmGithubProposals (fleet_env i E)) (\<lambda>_. at_most D K)"
  unfolding warmGithubProposals_def Let_def
  by (intro triple_mbind [OF triple_spares [of i]] spares_proposals assms triple_mthen [OF triple_cacheSet])
     (use triple_publish_key in \<open>simp add: warm_publish_def\<close>)

lemma epoch_job_publishes:
  assumes "services_elsewhere E"
  shows "triple (at_most D K) (cacheCurrentEpoch (fleet_env i E)) (\<lambda>_. at_most D K)"
  unfolding cacheCurrentEpoch_def Let_def
  by (intro triple_mbind [OF triple_spares [of i]] spares_doGetGeneric assms triple_lift triple_mthen [OF triple_cacheSet]
      triple_publish_key)


section \<open>The fleet at work\<close>

text \<open>
  One process takes blocks from the queue and handles them; a process that has the lock of a job runs it;
  every process answers requests through the cache; a copy may expire (a shared entry does not); and a
  message in the mail box of a process, the first one first, makes it drop its copies. A block or a job that throws is not a step: it may leave copies that
  no message names (\<open>Gov_Recovery\<close>). Nor is the job for the nonces of the shards, which publishes no key. A
  getter that reads others does so in its body, which a hypothesis of the step bounds: by \<open>spares_two_level\<close>
  a decorated getter is such a body again.
\<close>

inductive background_step :: "('y fl) env \<Rightarrow> 'y fl \<Rightarrow> 'y fl \<Rightarrow> bool"
  for E where
  polls_job: "warmPulsePolls (\<lambda>_ job. job) (fleet_env i E) s = (Inr (), s') \<Longrightarrow> background_step E s s'"
| ideas_job: "warmPulseIdeas (\<lambda>_ job. job) (fleet_env i E) s = (Inr (), s') \<Longrightarrow> background_step E s s'"
| status_job: "cacheGovernanceStatuses (\<lambda>_ job. job) (fleet_env i E) s = (Inr (), s') \<Longrightarrow> background_step E s s'"
| onchain_job: "warm_onchain (fleet_env i E) s = (Inr (), s') \<Longrightarrow> background_step E s s'"
| github_job: "warmGithubProposals (fleet_env i E) s = (Inr (), s') \<Longrightarrow> background_step E s s'"
| epoch_job: "cacheCurrentEpoch (fleet_env i E) s = (Inr (), s') \<Longrightarrow> background_step E s s'"
| read_cache: "spares i body \<Longrightarrow> getOrSet (fleet_env i E) k body r l s = (q, s') \<Longrightarrow> background_step E s s'"
| forget: "background_step E s (store_local i k None s)"
| deliver: "mail s i = ks # msgs \<Longrightarrow>
    deleteCacheKey (fleet_env i E) ks (s\<lparr>mail := (mail s)(i := msgs)\<rparr>) = (q, s') \<Longrightarrow> background_step E s s'"

inductive fleet_step :: "('y fl) env \<Rightarrow> event_sdk \<Rightarrow> string list \<Rightarrow> 'y fl \<Rightarrow> 'y fl \<Rightarrow> bool"
  for E X filterAddresses where
  consume: "consumeEvents (fleet_env i E) X filterAddresses block s = (Inr (), s') \<Longrightarrow>
    fleet_step E X filterAddresses s s'"
| background: "background_step E s s' \<Longrightarrow> fleet_step E X filterAddresses s s'"

text \<open>The runs in which every read is answered at once; answers that come late are added below.\<close>

inductive fleet_reach :: "('y fl) env \<Rightarrow> event_sdk \<Rightarrow> string list \<Rightarrow> 'y fl \<Rightarrow> 'y fl \<Rightarrow> bool"
  for E X filterAddresses s where
  start: "fleet_reach E X filterAddresses s s"
| step: "fleet_reach E X filterAddresses s t \<Longrightarrow> fleet_step E X filterAddresses t u \<Longrightarrow> fleet_reach E X filterAddresses s u"

definition drop_copies :: "nat \<Rightarrow> string set \<Rightarrow> 'y fl \<Rightarrow> 'y fl" where
  "drop_copies i ks s = s\<lparr>locals := (locals s)(i := (locals s i) |` (- ks))\<rparr>"

lemma deleteCacheKey_copies: "deleteCacheKey (fleet_env i E) ks s = (Inr (), drop_copies i (set ks) s)"
proof (induction ks arbitrary: s)
  case Nil
  show ?case by (simp add: deleteCacheKey_def drop_copies_def restrict_map_def)
next
  case (Cons k ks)
  have "drop_copies i (set ks) (store_local i k None s) = drop_copies i (set (k # ks)) s"
    by (auto simp: drop_copies_def store_local_def restrict_map_def fun_eq_iff)
  then show ?case using Cons [of "store_local i k None s"] by (simp add: deleteCacheKey_def mbind_def)
qed

lemma stale_delivery:
  assumes "mail s i = ks # msgs"
  shows "stale (drop_copies i (set ks) (s\<lparr>mail := (mail s)(i := msgs)\<rparr>)) \<subseteq> stale s"
proof
  let ?t = "drop_copies i (set ks) (s\<lparr>mail := (mail s)(i := msgs)\<rparr>)"
  fix k assume "k \<in> stale ?t"
  then obtain j where "locals ?t j k \<noteq> None" "locals ?t j k \<noteq> remote ?t k" "\<not> named ?t j k" by (auto simp: stale_def)
  then have "locals s j k \<noteq> None" "locals s j k \<noteq> remote s k" "\<not> named s j k"
    using assms by (auto simp: drop_copies_def restrict_map_def named_def split: if_splits)
  then show "k \<in> stale s" by (auto simp: stale_def)
qed

lemma tripleD: "triple P m Q \<Longrightarrow> m s = (Inr a, s') \<Longrightarrow> P s \<Longrightarrow> Q a s'"
  unfolding triple_def by blast

lemma background_at_most:
  assumes "background_step E s s'" "services_elsewhere E" "at_most D K s"
  shows "at_most D K s'"
  using assms(1)
proof cases
  case (read_cache i body k r l q)
  then have "stale s' \<subseteq> stale s \<and> invalidatedKeys s' = invalidatedKeys s"
    using sparesD [OF spares_two_level] by (metis fleet_env_simps(1))
  then show ?thesis using assms(3) by (auto simp: at_most_def)
next
  case (forget i k)
  then show ?thesis using stale_store_local [of None s k i] assms(3) by (auto simp: at_most_def)
next
  case (deliver i ks msgs q)
  then have "s' = drop_copies i (set ks) (s\<lparr>mail := (mail s)(i := msgs)\<rparr>)" using deleteCacheKey_copies by (metis snd_conv)
  then show ?thesis using stale_delivery [OF deliver(1)] assms(3) by (auto simp: at_most_def drop_copies_def)
qed (rule tripleD [OF pulse_jobs_publish(1) [OF assms(2)] _ assms(3)] tripleD [OF pulse_jobs_publish(2) [OF assms(2)] _ assms(3)]
      tripleD [OF status_job_publishes [OF assms(2)] _ assms(3)] tripleD [OF onchain_job_publishes [OF assms(2)] _ assms(3)]
      tripleD [OF github_job_publishes [OF assms(2)] _ assms(3)] tripleD [OF epoch_job_publishes [OF assms(2)] _ assms(3)],
      assumption)+

lemma within_at_most: "within L s \<longleftrightarrow> at_most L (invalidatedKeys s) s"
  by (simp add: within_def at_most_def)

lemma within_step:
  assumes "fleet_step E X filterAddresses s s'" "services_elsewhere E" "within L s"
  shows "within L s'"
  using assms(1)
proof cases
  case (consume i block)
  then show ?thesis using tripleD [OF consumer_publishes [OF assms(2)]] assms(3) by blast
next
  case background
  then show ?thesis using background_at_most [OF _ assms(2)] assms(3) unfolding within_at_most by (auto simp: at_most_def)
qed

lemma within_reach:
  "fleet_reach E X filterAddresses s s' \<Longrightarrow> services_elsewhere E \<Longrightarrow> within L s \<Longrightarrow> within L s'"
  by (induction rule: fleet_reach.induct) (auto intro: within_step)


text \<open>A process takes all its messages.\<close>

lemma mail_drop_copies [simp]: "mail (drop_copies i ks s) = mail s" "remote (drop_copies i ks s) = remote s"
  by (simp_all add: drop_copies_def)

lemma deliver_all:
  assumes "fleet_reach E X filterAddresses s0 s" "mail s i = msgs"
  shows "fleet_reach E X filterAddresses s0 (drop_copies i (\<Union> (set ` set msgs)) (s\<lparr>mail := (mail s)(i := [])\<rparr>))"
  using assms
proof (induction msgs arbitrary: s)
  case Nil
  have "drop_copies i {} (s\<lparr>mail := (mail s)(i := [])\<rparr>) = s"
    using Nil(2) by (simp add: drop_copies_def restrict_map_def fun_upd_idem)
  then show ?case using Nil(1) by (simp only: list.set(1) image_empty Union_empty)
next
  case (Cons ks msgs)
  let ?t = "drop_copies i (set ks) (s\<lparr>mail := (mail s)(i := msgs)\<rparr>)"
  have "fleet_step E X filterAddresses s ?t"
    by (rule fleet_step.background, rule background_step.deliver [OF Cons.prems(2)]) (rule deleteCacheKey_copies)
  then have "fleet_reach E X filterAddresses s0 ?t" using Cons.prems(1) by (rule fleet_reach.step [rotated])
  then have "fleet_reach E X filterAddresses s0 (drop_copies i (\<Union> (set ` set msgs)) (?t\<lparr>mail := (mail ?t)(i := [])\<rparr>))"
    by (rule Cons.IH) (simp add: drop_copies_def)
  moreover have "drop_copies i (\<Union> (set ` set msgs)) (?t\<lparr>mail := (mail ?t)(i := [])\<rparr>) =
      drop_copies i (\<Union> (set ` set (ks # msgs))) (s\<lparr>mail := (mail s)(i := [])\<rparr>)"
    by (auto simp: drop_copies_def restrict_map_def fun_eq_iff)
  ultimately show ?case by (simp only:)
qed


section \<open>Answers that come late\<close>

text \<open>
  A getter that finds no entry waits for the answer of its body, and other processes go on meanwhile. The
  answers that are on their way are kept beside the state, and the keys that were filled late: an answer
  is late when, as it is stored, another process has a copy that no message names.
\<close>

type_synonym answer = "nat \<times> string \<times> cval"

inductive slow_step :: "('y fl) env \<Rightarrow> event_sdk \<Rightarrow> string list \<Rightarrow>
    'y fl \<times> answer list \<times> string set \<Rightarrow> 'y fl \<times> answer list \<times> string set \<Rightarrow> bool"
  for E X filterAddresses where
  at_once: "fleet_step E X filterAddresses s s' \<Longrightarrow> slow_step E X filterAddresses (s, as, L) (s', as, L)"
| miss: "locals s i k = None \<Longrightarrow> remote s k = None \<Longrightarrow> spares i body \<Longrightarrow> body s = (Inr v, s') \<Longrightarrow>
    slow_step E X filterAddresses (s, as, L) (s', (i, k, v) # as, L)"
| fill: "(i, k, v) \<in> set as \<Longrightarrow>
    slow_step E X filterAddresses (s, as, L)
      (store_both i k (Some v) s, remove1 (i, k, v) as, if k \<in> exposed i s then insert k L else L)"

inductive slow_reach :: "('y fl) env \<Rightarrow> event_sdk \<Rightarrow> string list \<Rightarrow>
    'y fl \<times> answer list \<times> string set \<Rightarrow> 'y fl \<times> answer list \<times> string set \<Rightarrow> bool"
  for E X filterAddresses c where
  start: "slow_reach E X filterAddresses c c"
| step: "slow_reach E X filterAddresses c d \<Longrightarrow> slow_step E X filterAddresses d e \<Longrightarrow> slow_reach E X filterAddresses c e"

lemma within_slow:
  "slow_reach E X filterAddresses c d \<Longrightarrow> services_elsewhere E \<Longrightarrow> within (snd (snd c)) (fst c) \<Longrightarrow> within (snd (snd d)) (fst d)"
proof (induction rule: slow_reach.induct)
  case (step d e)
  have w: "within (snd (snd d)) (fst d)" using step by blast
  show ?case using step.hyps(2)
  proof cases
    case (at_once s s' as L)
    then show ?thesis using within_step [OF _ step.prems(1)] w by simp
  next
    case (miss s i k body v s' as L)
    then show ?thesis using sparesD [of i body s "Inr v" s'] w by (auto simp: within_def)
  next
    case (fill i k v as s L)
    then show ?thesis using stale_store_both [of i k "Some v" s] w by (auto simp: within_def)
  qed
qed

lemma slow_at_once: "fleet_reach E X filterAddresses s s' \<Longrightarrow> slow_reach E X filterAddresses (s, as, L) (s', as, L)"
  by (induction rule: fleet_reach.induct) (auto intro: slow_reach.intros slow_step.at_once)

text \<open>
  C14: The local copies are coherent: however the processes interleave their reads with the handling of
  blocks, with the periodic jobs for statuses, polls, ideas, the chain's own contract, the repository and the
  epoch, with the messages that invalidate keys and with answers that come after all that, a process whose
  mail box is empty answers every cached getter whose key was not filled late with the entry of the shared
  cache, whatever copy of its own it has; and where the shared cache has no entry, with the body of the getter.
\<close>

theorem fleet_coherent:
  fixes E :: "('y fl) env"
  assumes "slow_reach E X filterAddresses (s0, [], {}) (s, answers, late)" "services_elsewhere E"
    and "\<forall>i k. locals s0 i k = None" and "mail s j = []"
    and "generateCacheKeyFromParams (KStr base # KStr name # args) \<notin> late"
  shows "fst (GetOrSetCache (fleet_env j E) base t name args c body s) =
    (case remote s (generateCacheKeyFromParams (KStr base # KStr name # args)) of
       Some v \<Rightarrow> snd c v
     | None \<Rightarrow> rbind (rbind (fst (body s)) (\<lambda>a. Inr (fst c a))) (snd c))"
proof -
  let ?k = "generateCacheKeyFromParams (KStr base # KStr name # args)"
  have "within {} s0" using assms(3) by (simp add: within_def stale_def)
  then have "within late s" using within_slow [OF assms(1,2)] by simp
  then have "locals s j ?k = None \<or> locals s j ?k = remote s ?k"
    using within_copy assms(4,5) by blast
  then show ?thesis
    by (auto simp: GetOrSetCache_def cached_def two_level_def mbind_def mthen_apply split: option.splits sum.splits prod.splits)
qed

text \<open>
  Messages that are taken: a schedule names the process that takes its first message next; it is not
  possible when the mail box of that process is empty.
\<close>

primrec take_messages :: "('y fl) env \<Rightarrow> nat list \<Rightarrow> 'y fl \<Rightarrow> 'y fl option" where
  "take_messages E [] s = Some s"
| "take_messages E (i # is) s =
     (case mail s i of
        [] \<Rightarrow> None
      | ks # msgs \<Rightarrow> take_messages E is (snd (deleteCacheKey (fleet_env i E) ks (s\<lparr>mail := (mail s)(i := msgs)\<rparr>))))"

lemma messages_taken:
  assumes "\<forall>i. count_list is i \<le> List.length (mail s i)"
  shows "\<exists>t. take_messages E is s = Some t \<and> fleet_reach E X filterAddresses s t \<and> remote t = remote s \<and>
    (\<forall>j. mail t j = drop (count_list is j) (mail s j))"
  using assms
proof (induction "is" arbitrary: s)
  case Nil
  then show ?case by (auto intro: fleet_reach.start)
next
  case (Cons i "is")
  have "0 < List.length (mail s i)" using Cons.prems by (metis count_list.simps(2) add_is_0 gr0I le_zero_eq zero_neq_one)
  then obtain ks msgs where m: "mail s i = ks # msgs" by (cases "mail s i") auto
  let ?u = "drop_copies i (set ks) (s\<lparr>mail := (mail s)(i := msgs)\<rparr>)"
  have step: "fleet_step E X filterAddresses s ?u"
    by (rule fleet_step.background, rule background_step.deliver [OF m]) (rule deleteCacheKey_copies)
  have "\<forall>j. count_list is j \<le> List.length (mail ?u j)"
  proof
    fix j show "count_list is j \<le> List.length (mail ?u j)" using Cons.prems [rule_format, of j] m by (auto split: if_splits)
  qed
  from Cons.IH [OF this] obtain t where t: "take_messages E is ?u = Some t" "fleet_reach E X filterAddresses ?u t"
      "remote t = remote ?u" "\<forall>j. mail t j = drop (count_list is j) (mail ?u j)" by blast
  have "fleet_reach E X filterAddresses s t"
    using t(2) step by (induction rule: fleet_reach.induct) (auto intro: fleet_reach.intros)
  with t m show ?case by (auto simp: deleteCacheKey_copies)
qed

text \<open>
  C16: The processes catch up, however the blocks, jobs, reads and late answers of C14 interleaved and in
  whatever order the processes take their messages: every schedule that asks no process for more messages than it has can be carried out,
  it leaves the shared cache alone, and each process that has taken all its messages answers, for every key
  that was not filled late, with the entry of the shared cache.
\<close>

theorem processes_catch_up:
  fixes E :: "('y fl) env"
  assumes "slow_reach E X filterAddresses (s0, [], {}) (s, answers, late)" "services_elsewhere E"
    and "\<forall>i k. locals s0 i k = None" and "\<forall>i. count_list is i \<le> List.length (mail s i)"
  shows "\<exists>t. take_messages E is s = Some t \<and> slow_reach E X filterAddresses (s, answers, late) (t, answers, late) \<and>
    remote t = remote s \<and>
    (\<forall>j k v body r l. count_list is j = List.length (mail s j) \<and> k \<notin> late \<and> remote s k = Some v \<longrightarrow>
       fst (getOrSet (fleet_env j E) k body r l t) = Inr v)"
proof -
  obtain t where t: "take_messages E is s = Some t" "fleet_reach E X filterAddresses s t" "remote t = remote s"
      "\<forall>j. mail t j = drop (count_list is j) (mail s j)" using messages_taken [OF assms(4)] by blast
  have "within {} s0" using assms(3) by (simp add: within_def stale_def)
  then have "within late s" using within_slow [OF assms(1,2)] by simp
  then have w: "within late t" using within_reach [OF t(2) assms(2)] by blast
  have "fst (two_level j k body r l t) = Inr v"
    if "count_list is j = List.length (mail s j)" "k \<notin> late" "remote s k = Some v" for j k v body r l
  proof -
    have "locals t j k = None \<or> locals t j k = Some v"
      using within_copy [OF w that(2), of j] t(3,4) that(1,3) by simp
    then show ?thesis using t(3) that(3) by (auto simp: two_level_def mthen_apply)
  qed
  then show ?thesis using t slow_at_once [OF t(2)] by auto
qed

text \<open>Two processes: the second has a copy of a vote in a poll when the first handles a new vote.\<close>

definition fleet_services :: "fleet env" where
  "fleet_services = libs.extend (libs.truncate example_env)
     (env.fields (two_level 0) (\<lambda>_. mret None) (\<lambda>_ _ _ _. mret ()) (\<lambda>_. mret ()) (\<lambda>_. mret ()) (\<lambda>_ _. mret ())
       (\<lambda>_. mret ()) (\<lambda>_. mthrow unavailable) (\<lambda>_. mthrow unavailable) (\<lambda>_. mthrow unavailable)
       (\<lambda>_. mthrow unavailable) (\<lambda>_. mthrow unavailable) (\<lambda>_. mret ()) (\<lambda>_. mthrow unavailable)
       (\<lambda>_. mthrow unavailable) (mthrow unavailable) (\<lambda>_. mthrow unavailable) (\<lambda>_. mthrow unavailable)
       (\<lambda>_ _ _. mthrow unavailable) (\<lambda>_ _ _. mthrow unavailable) (\<lambda>_. mret []) (\<lambda>_ _. mthrow unavailable)
       (mret ()) (\<lambda>_. mret ()) (\<lambda>_. mret ()) (\<lambda>_. mret ()) (mret []) (\<lambda>_. mret []) (\<lambda>_. mret [])
       (\<lambda>_. mthrow unavailable) (\<lambda>_. mret ()) (\<lambda>_ _ _ _. mthrow unavailable) (mret 0))"

lemma fleet_services_simps [simp]:
  "governanceConfig fleet_services = example_config" "hexToBech32 fleet_services (to_hex u) = Inr u"
  by (simp_all add: fleet_services_def libs.extend_def libs.truncate_def env.fields_def example_env_def memory_env_def)

lemma fleet_services_elsewhere: "services_elsewhere fleet_services"
  by (simp add: services_elsewhere_def elsewhere_def fleet_services_def libs.extend_def env.fields_def)

definition poll_key :: string where
  "poll_key = getCacheKey ''pulse'' [KStr ''getUserVotePulse'', KStr ''erdD'', KStr ''erdU'', KNum 2]"

definition shared_vote :: fleet where
  "shared_vote = \<lparr>smartContracts = Map.empty, merkleTrees = Map.empty, providerTrees = Map.empty, invalidatedKeys = [],
     gitReady = False, remote = [poll_key \<mapsto> VBn (bn_int 3)], locals = (\<lambda>_. Map.empty), mail = (\<lambda>_. [])\<rparr>"

definition copied_vote :: fleet where
  "copied_vote = store_local 1 poll_key (Some (VBn (bn_int 3))) shared_vote"

definition poll_block :: block_events where
  "poll_block = \<lparr>be_events = Some [poll_event ''erdU'' ''01''], be_shardId = Some 0\<rparr>"

definition voted_now :: "fleet \<Rightarrow> fleet" where
  "voted_now s = post ''deleteCacheKeys'' [] (post ''deleteCacheKeys'' [poll_key]
     (store_both 0 poll_key (Some (VBn (bn_int 1))) s))"

definition hear :: "nat \<Rightarrow> fleet \<Rightarrow> fleet" where
  "hear i s = drop_copies i {poll_key} (s\<lparr>mail := (mail s)(i := [])\<rparr>)"

lemma poll_vote_decoded_here:
  "poll_vote_update (fleet_env 0 fleet_services) (poll_event ''erdU'' ''01'') =
     Inr (setData (fleet_env 0 fleet_services) poll_key (VBn (bn_int 1)) (ttl_ContractState (fleet_env 0 fleet_services)))"
proof -
  have "to_base64 (from_hex ''02'') \<noteq> []" "to_base64 (from_hex ''01'') \<noteq> []" by code_simp+
  then show ?thesis
    by (simp add: poll_vote_update_def poll_event_def topic_user_def topic_number_def topic_bytes_def topic_def
        poll_event_bytes put_pulse_def number_key_def poll_key_def bn_of_hex_arg_def del: from_hex.simps)
qed

lemma poll_block_handled:
  "consumeEvents (fleet_env 0 fleet_services) example_sdk [] poll_block s = (Inr (), voted_now s)"
proof -
  have ev: "re_address (poll_event u o') = ''erdD''" "re_identifier (poll_event u o') = ''vote_poll''" for u o'
    by (simp_all add: poll_event_def)
  have "handlePulseEvents (fleet_env 0 fleet_services) [poll_event ''erdU'' ''01''] s = (Inr (), voted_now s)"
    by (simp add: handlePulseEvents_def handlePulseVotePollEvents_def handlePulseVoteIdeaEvents_def ev apply_updates_def
        poll_vote_decoded_here mbind_def mthen_apply setData_def deleteCacheKeys_def voted_now_def)
  then show ?thesis
    by (simp add: consumeEvents_def poll_block_def ev pulse_linear_def config_linear_def example_config_def mbind_def
        mthen_apply isFilteredAddress_def isOnChainGovernanceEvent_def)
qed

lemma mail_voted: "mail (voted_now s) i = mail s i @ [[poll_key], []]"
  by (simp add: voted_now_def post_def store_both_def)

lemma vote_heard:
  assumes "fleet_reach fleet_services example_sdk [] s0 s" "mail s i = [[poll_key], []]"
  shows "fleet_reach fleet_services example_sdk [] s0 (hear i s)"
  using deliver_all [OF assms] by (simp add: hear_def)

definition told_vote :: fleet where
  "told_vote = hear 1 (voted_now copied_vote)"

lemma first_copy: "fleet_step fleet_services example_sdk [] shared_vote copied_vote"
  by (rule fleet_step.background, rule background_step.read_cache
        [where i = 1 and k = poll_key and body = "mthrow unavailable" and q = "Inr (VBn (bn_int 3))"])
     (simp_all add: two_level_def shared_vote_def copied_vote_def mthen_apply)

lemma told_vote_reached: "fleet_reach fleet_services example_sdk [] shared_vote told_vote"
proof -
  note 1 = first_copy
  have 2: "fleet_step fleet_services example_sdk [] copied_vote (voted_now copied_vote)"
    by (rule fleet_step.consume [OF poll_block_handled])
  have "mail (voted_now copied_vote) 1 = [[poll_key], []]"
    by (simp add: mail_voted copied_vote_def store_local_def shared_vote_def)
  with 1 2 show ?thesis unfolding told_vote_def by (meson vote_heard fleet_reach.intros)
qed

theorem fleet_coherent_witness:
  "fst (GetOrSetCache (fleet_env 1 fleet_services) ''pulse'' (60, None) ''getUserVotePulse''
      [KStr ''erdD'', KStr ''erdU'', KNum 2] bnC (mthrow unavailable) told_vote) = Inr (bn_int 1)"
proof -
  have "remote told_vote poll_key = Some (VBn (bn_int 1))" "mail told_vote 1 = []"
    by (simp_all add: told_vote_def hear_def voted_now_def post_def store_both_def)
  then show ?thesis
    using fleet_coherent [OF slow_at_once [OF told_vote_reached] fleet_services_elsewhere, where j = 1 and base = "''pulse''"
        and t = "(60, None)" and name = "''getUserVotePulse''" and args = "[KStr ''erdD'', KStr ''erdU'', KNum 2]" and c = bnC
        and body = "mthrow unavailable"]
    by (simp add: shared_vote_def poll_key_def getCacheKey_def bnC_def)
qed

theorem processes_catch_up_witness:
  "\<exists>t. take_messages fleet_services [0, 1, 1, 0] (voted_now copied_vote) = Some t \<and>
    fst (getOrSet (fleet_env 1 fleet_services) poll_key (mthrow unavailable) 60 None t) = Inr (VBn (bn_int 1))"
proof -
  have "fleet_reach fleet_services example_sdk [] shared_vote copied_vote" by (meson fleet_reach.intros first_copy)
  then have "fleet_reach fleet_services example_sdk [] shared_vote (voted_now copied_vote)"
    by (meson fleet_reach.intros fleet_step.consume poll_block_handled)
  note r = slow_at_once [OF this, of "[]" "{}"]
  have m: "mail (voted_now copied_vote) i = [[poll_key], []]" for i
    by (simp add: mail_voted copied_vote_def store_local_def shared_vote_def)
  have v: "remote (voted_now copied_vote) poll_key = Some (VBn (bn_int 1))"
    by (simp add: voted_now_def post_def store_both_def)
  have "\<forall>i :: nat. count_list [0, 1, 1, 0] i \<le> List.length (mail (voted_now copied_vote) i)" by (simp add: m)
  then obtain t where t: "take_messages fleet_services [0, 1, 1, 0] (voted_now copied_vote) = Some t"
    and served: "\<forall>j k v body r l. count_list [0, 1, 1, 0] j = List.length (mail (voted_now copied_vote) j) \<and> k \<notin> {} \<and>
      remote (voted_now copied_vote) k = Some v \<longrightarrow> fst (getOrSet (fleet_env j fleet_services) k body r l t) = Inr v"
    using processes_catch_up [OF r fleet_services_elsewhere, of "[0, 1, 1, 0]"] by (auto simp del: take_messages.simps simp: shared_vote_def)
  have "count_list [0, 1, 1, 0] (1 :: nat) = List.length (mail (voted_now copied_vote) 1)" by (simp add: m)
  with served v have "fst (getOrSet (fleet_env 1 fleet_services) poll_key (mthrow unavailable) 60 None t) = Inr (VBn (bn_int 1))"
    by blast
  with t show ?thesis by blast
qed

text \<open>
  A key that is filled late is not coherent: a process asks the contract for a vote, another one handles a
  new vote and reads it, and then the answer to the first comes in. No message is on its way, and the two
  processes answer differently until the entries expire.
\<close>

definition no_votes :: fleet where
  "no_votes = shared_vote\<lparr>remote := Map.empty\<rparr>"

definition all_heard :: fleet where
  "all_heard = hear 0 (hear 1 (voted_now no_votes))"

definition read_again :: fleet where
  "read_again = store_local 0 poll_key (Some (VBn (bn_int 1))) all_heard"

definition filled_late :: fleet where
  "filled_late = store_both 1 poll_key (Some (VBn (bn_int 3))) read_again"

lemma read_again_reached: "fleet_reach fleet_services example_sdk [] no_votes read_again"
proof -
  have "fleet_step fleet_services example_sdk [] no_votes (voted_now no_votes)" by (rule fleet_step.consume [OF poll_block_handled])
  then have "fleet_reach fleet_services example_sdk [] no_votes (voted_now no_votes)" by (meson fleet_reach.intros)
  then have "fleet_reach fleet_services example_sdk [] no_votes (hear 1 (voted_now no_votes))"
    by (rule vote_heard) (simp add: mail_voted no_votes_def shared_vote_def)
  then have 1: "fleet_reach fleet_services example_sdk [] no_votes all_heard"
    unfolding all_heard_def by (rule vote_heard) (simp add: hear_def mail_voted no_votes_def shared_vote_def)
  have "locals all_heard 0 poll_key = None" "remote all_heard poll_key = Some (VBn (bn_int 1))"
    by (simp_all add: all_heard_def hear_def drop_copies_def voted_now_def post_def store_both_def)
  then have 2: "fleet_step fleet_services example_sdk [] all_heard read_again"
    by (intro fleet_step.background background_step.read_cache
          [where i = 0 and k = poll_key and body = "mthrow unavailable" and q = "Inr (VBn (bn_int 1))"])
       (simp_all add: two_level_def read_again_def mthen_apply)
  show ?thesis using 1 2 by (rule fleet_reach.step)
qed

lemma late_answer_incoherent:
  "slow_reach fleet_services example_sdk [] (no_votes, [], {}) (filled_late, [], {poll_key})"
  "mail filled_late 0 = []" "locals filled_late 0 poll_key = Some (VBn (bn_int 1))"
  "remote filled_late poll_key = Some (VBn (bn_int 3))"
proof -
  let ?step = "slow_step fleet_services example_sdk []"
  let ?answer = "(1, poll_key, VBn (bn_int 3)) :: answer"
  have miss: "?step (no_votes, [], {}) (no_votes, [?answer], {})"
    by (rule slow_step.miss [where body = "mret (VBn (bn_int 3))"]) (simp_all add: no_votes_def shared_vote_def)
  have again: "slow_reach fleet_services example_sdk [] (no_votes, [?answer], {}) (read_again, [?answer], {})"
    by (rule slow_at_once [OF read_again_reached])
  show ends: "mail filled_late 0 = []" "locals filled_late 0 poll_key = Some (VBn (bn_int 1))"
    "remote filled_late poll_key = Some (VBn (bn_int 3))"
    by (simp_all add: filled_late_def read_again_def all_heard_def hear_def store_both_def store_local_def)
  have "poll_key \<in> exposed 1 read_again"
    using ends unfolding exposed_def
    by (intro CollectI exI [of _ 0]) (simp add: filled_late_def store_both_def named_def)
  then have fill: "?step (read_again, [?answer], {}) (filled_late, [], {poll_key})"
    using slow_step.fill [of 1 poll_key "VBn (bn_int 3)" "[?answer]" fleet_services example_sdk "[]" read_again "{}"]
    by (simp add: filled_late_def)
  have trans: "slow_reach fleet_services example_sdk [] c e"
    if "slow_reach fleet_services example_sdk [] d e" "slow_reach fleet_services example_sdk [] c d"
    for c d e :: "fleet \<times> answer list \<times> string set"
    using that by (induction rule: slow_reach.induct) (auto intro: slow_reach.step)
  show "slow_reach fleet_services example_sdk [] (no_votes, [], {}) (filled_late, [], {poll_key})"
    using trans [OF again slow_reach.step [OF slow_reach.start miss]] fill by (rule slow_reach.step)
qed

end
