(* ===== verification/Gov_RemoteConfig.thy ===== *)
theory Gov_RemoteConfig
  imports Gov_Coherence
begin

text \<open>
  Flags that administrators set: \<open>entity.repository.ts\<close> over the collection of flags, and the setter, the
  getter and the controller of \<open>remote-config\<close>. The database is a parameter, with one operation per
  method of the mongoose model; a document is read without its identifiers.
\<close>

section \<open>Flags and answers\<close>

record flag =
  fl_name :: string
  fl_value :: bool

record flag_args =
  fa_name :: "string option"
  fa_value :: "bool option"

datatype flag_filter = AnyFlag | ById string | ByName string

record 's flag_db =
  fdb_save :: "flag \<Rightarrow> ('s, flag) prog"
  fdb_findOne :: "flag_filter \<Rightarrow> ('s, flag option) prog"
  fdb_find :: "flag_filter \<Rightarrow> ('s, flag list) prog"
  fdb_findOneAndUpdate :: "flag_filter \<Rightarrow> flag \<Rightarrow> bool \<Rightarrow> ('s, flag option) prog"
  fdb_findOneAndDelete :: "flag_filter \<Rightarrow> ('s, flag option) prog"
  fdb_deleteMany :: "flag_filter \<Rightarrow> ('s, int) prog"
  isObjectId :: "string \<Rightarrow> bool"

text \<open>What the response carries; without a body nothing is sent and the client waits.\<close>

datatype flag_body = NoBody | FlagBody flag | TextBody string | ValuesBody "cval option list"

record flag_response =
  fr_status :: int
  fr_sent :: bool
  fr_body :: flag_body

definition answer :: "int \<Rightarrow> flag_body \<Rightarrow> flag_response" where
  "answer st body = \<lparr>fr_status = st, fr_sent = True, fr_body = body\<rparr>"


section \<open>EntityRepository\<close>

definition repo_create :: "'s flag_db \<Rightarrow> flag \<Rightarrow> ('s, flag) prog" where
  "repo_create D data = fdb_save D data"

definition repo_findOne :: "'s flag_db \<Rightarrow> flag_filter \<Rightarrow> ('s, flag option) prog" where
  "repo_findOne D q = fdb_findOne D q"

definition repo_find :: "'s flag_db \<Rightarrow> flag_filter \<Rightarrow> ('s, flag list) prog" where
  "repo_find D q = fdb_find D q"

definition repo_findOneAndUpdate :: "'s flag_db \<Rightarrow> flag_filter \<Rightarrow> flag \<Rightarrow> bool \<Rightarrow> ('s, flag option) prog" where
  "repo_findOneAndUpdate D q data upsert = fdb_findOneAndUpdate D q data upsert"

definition repo_findOneAndDelete :: "'s flag_db \<Rightarrow> flag_filter \<Rightarrow> ('s, flag option) prog" where
  "repo_findOneAndDelete D q = fdb_findOneAndDelete D q"

definition repo_deleteMany :: "'s flag_db \<Rightarrow> flag_filter \<Rightarrow> ('s, bool) prog" where
  "repo_deleteMany D q = mbind (fdb_deleteMany D q) (\<lambda>deletedCount. mret (1 \<le> deletedCount))"


section \<open>RemoteConfigSetterService and RemoteConfigGetterService\<close>

definition getFlagCacheKey :: "string \<Rightarrow> string" where
  "getFlagCacheKey flagName = generateCacheKeyFromParams [KStr ''flag'', KStr flagName]"

definition setFlag :: "'s env \<Rightarrow> string \<Rightarrow> bool \<Rightarrow> ('s, string) prog" where
  "setFlag E name v = setData E (getFlagCacheKey name) (VBool v) (oneHour E, None)"

definition deleteFlag :: "'s env \<Rightarrow> string \<Rightarrow> ('s, unit) prog" where
  "deleteFlag E name =
     (let cacheKey = getFlagCacheKey name in
      mthen (deleteInCache E cacheKey) (publishKeys E ''deleteCacheKeys'' [cacheKey]))"

text \<open>The function that is run on a miss reads the value of a flag that may not be there.\<close>

definition maintenance :: string where
  "maintenance = ''MAINTENANCE''"

definition stored_maintenance :: "'s flag_db \<Rightarrow> ('s, bool) prog" where
  "stored_maintenance D =
     mbind (repo_findOne D (ByName maintenance)) (\<lambda>res. mlift (case res of None \<Rightarrow> Inl TypeError | Some f \<Rightarrow> Inr (fl_value f)))"

definition getMaintenanceFlagValue :: "'s env \<Rightarrow> 's flag_db \<Rightarrow> ('s, bool) prog" where
  "getMaintenanceFlagValue E D =
     getData E (getCacheKey ''flag'' [KStr maintenance]) boolC (stored_maintenance D) (oneHour E, None)"

text \<open>The query of \<open>governance.query.resolver.ts\<close>.\<close>

definition res_maintenance :: "'s env \<Rightarrow> 's flag_db \<Rightarrow> ('s, bool) prog" where
  "res_maintenance E D = getMaintenanceFlagValue E D"


section \<open>RemoteConfigController\<close>

definition not_a_flag :: string where
  "not_a_flag = ''Flag name & value not found or not in application/json format.''"

text \<open>The condition on the body of a request: a name that is not empty and a value.\<close>

definition flag_of_args :: "flag_args \<Rightarrow> flag option" where
  "flag_of_args a =
     (case (fa_name a, fa_value a) of
        (Some n, Some v) \<Rightarrow> if n = [] then None else Some \<lparr>fl_name = n, fl_value = v\<rparr>
      | _ \<Rightarrow> None)"

definition server_error :: "exn \<Rightarrow> flag_response" where
  "server_error error = answer 500 (TextBody (exn_message error))"

definition failing_with_500 :: "('s, flag_response) prog \<Rightarrow> ('s, flag_response) prog" where
  "failing_with_500 m = mtry m (\<lambda>error. mret (server_error error))"

text \<open>
  The write to the cache is started and not waited for: the request is answered before it is done, and
  whatever it throws is lost. The result of the handler is its answer and the program it left running.
\<close>

definition addRemoteConfigFlag ::
  "'s env \<Rightarrow> 's flag_db \<Rightarrow> flag_args \<Rightarrow> ('s, flag_response \<times> ('s, string) prog option) prog" where
  "addRemoteConfigFlag E D args =
     mtry (case flag_of_args args of
        None \<Rightarrow> mret (answer 500 (TextBody not_a_flag), None)
      | Some f \<Rightarrow>
          mbind (repo_create D f) (\<lambda>result.
          mret (answer 201 (FlagBody result), Some (setFlag E (fl_name result) (fl_value result)))))
       (\<lambda>error. mret (server_error error, None))"

text \<open>When there is no such flag, the status is set but nothing is sent.\<close>

definition updateRemoteConfigFlag :: "'s env \<Rightarrow> 's flag_db \<Rightarrow> flag_args \<Rightarrow> ('s, flag_response) prog" where
  "updateRemoteConfigFlag E D args =
     failing_with_500 (case flag_of_args args of
        None \<Rightarrow> mret (answer 500 (TextBody not_a_flag))
      | Some f \<Rightarrow>
          mbind (repo_findOneAndUpdate D (ByName (fl_name f)) f False) (\<lambda>result.
            case result of
              Some r \<Rightarrow> mthen (setFlag E (fl_name r) (fl_value r)) (mret (answer 201 (FlagBody r)))
            | None \<Rightarrow> mret \<lparr>fr_status = 404, fr_sent = False, fr_body = NoBody\<rparr>))"

definition getRemoteConfigFlags :: "'s flag_db \<Rightarrow> ('s, flag list) prog" where
  "getRemoteConfigFlags D = repo_find D AnyFlag"

definition flag_named :: "'s flag_db \<Rightarrow> string \<Rightarrow> flag_filter" where
  "flag_named D nameOrID = (if isObjectId D nameOrID then ById nameOrID else ByName nameOrID)"

definition getRemoteConfigFlag :: "'s flag_db \<Rightarrow> string \<Rightarrow> ('s, flag_response) prog" where
  "getRemoteConfigFlag D nameOrID =
     mbind (repo_findOne D (flag_named D nameOrID)) (\<lambda>result.
       mret (case result of Some r \<Rightarrow> answer 200 (FlagBody r) | None \<Rightarrow> answer 404 NoBody))"

definition deleteRemoteConfigFlag :: "'s env \<Rightarrow> 's flag_db \<Rightarrow> string \<Rightarrow> ('s, bool) prog" where
  "deleteRemoteConfigFlag E D nameOrID =
     mbind (repo_findOneAndDelete D (flag_named D nameOrID)) (\<lambda>f.
       case f of
         Some r \<Rightarrow> mthen (deleteFlag E (fl_name r)) (mret True)
       | None \<Rightarrow> mret False)"

definition config_deleteCacheKeys :: "'s env \<Rightarrow> string list \<Rightarrow> ('s, flag_response) prog" where
  "config_deleteCacheKeys E keys =
     mthen (mmap (deleteInCache E) keys)
    (mthen (publishKeys E ''deleteCacheKeys'' keys) (mret (answer 200 NoBody)))"

definition config_getCacheKeys :: "'s env \<Rightarrow> string list \<Rightarrow> ('s, flag_response) prog" where
  "config_getCacheKeys E keys = mbind (mmap (cacheGet E) keys) (\<lambda>vs. mret (answer 200 (ValuesBody vs)))"


section \<open>What the service reads of an administrator's change\<close>

lemma stored_bool: "fst boolC v = VBool v"
  by (simp add: boolC_def)

interpretation maintenance_entry: cached_entry E "\<lambda>_::unit. getFlagCacheKey maintenance" boolC
    "\<lambda>_. getMaintenanceFlagValue E D" "\<lambda>_. setFlag E maintenance"
  for E :: "'s env" and D :: "'s flag_db"
  by unfold_locales
     (auto simp: stored_bool getMaintenanceFlagValue_def getData_eq getFlagCacheKey_def getCacheKey_def setFlag_def
       simp del: split_paired_Ex)

text \<open>
  What the database is relied on for: saving a flag gives it back, an update gives the flag as changed,
  and neither touches the caches and the mail boxes of the processes.
\<close>

definition caches_kept :: "'y fl \<Rightarrow> 'y fl \<Rightarrow> bool" where
  "caches_kept s s' \<longleftrightarrow> remote s' = remote s \<and> locals s' = locals s \<and> mail s' = mail s"

definition flag_store :: "('y fl) flag_db \<Rightarrow> bool" where
  "flag_store D \<longleftrightarrow>
     (\<forall>f s r s'. fdb_save D f s = (Inr r, s') \<longrightarrow> r = f \<and> caches_kept s s') \<and>
     (\<forall>n f s r s'. fdb_findOneAndUpdate D (ByName n) f False s = (Inr (Some r), s') \<longrightarrow> r = f \<and> caches_kept s s')"

text \<open>
  What process \<open>j\<close> answers for the flag after process \<open>i\<close> has written \<open>v\<close> in state \<open>s\<close>: a copy it has of an
  earlier value stays, since no key is published.
\<close>

definition flag_seen :: "nat \<Rightarrow> bool \<Rightarrow> 'y fl \<Rightarrow> nat \<Rightarrow> exn + bool" where
  "flag_seen i v s j =
     (if j = i then Inr v
      else case locals s j (getFlagCacheKey maintenance) of None \<Rightarrow> Inr v | Some w \<Rightarrow> snd boolC w)"

lemma flag_seen_written:
  "\<exists>s2. setFlag (fleet_env i E) maintenance v s = (Inr (getFlagCacheKey maintenance), s2) \<and> mail s2 = mail s \<and>
    (\<forall>j. fst (getMaintenanceFlagValue (fleet_env j E) D s2) = flag_seen i v s j)"
proof -
  let ?k = "getFlagCacheKey maintenance"
  let ?s2 = "store_both i ?k (Some (VBool v)) s"
  have "setFlag (fleet_env i E) maintenance v s = (Inr ?k, ?s2)"
    by (simp add: setFlag_def setData_def mthen_apply)
  moreover have "fst (getMaintenanceFlagValue (fleet_env j E) D ?s2) = flag_seen i v s j" for j
    by (auto simp: getMaintenanceFlagValue_def getData_eq getCacheKey_def getFlagCacheKey_def [symmetric] cached_def two_level_def
        flag_seen_def store_both_def boolC_def mbind_def mthen_apply split: option.splits)
  ultimately show ?thesis by (simp add: store_both_def)
qed


text \<open>An update by the first process; the second has a copy that says otherwise.\<close>

definition echo_db :: "fleet flag_db" where
  "echo_db =
     \<lparr>fdb_save = mret, fdb_findOne = (\<lambda>q. mret None), fdb_find = (\<lambda>q. mret []),
      fdb_findOneAndUpdate = (\<lambda>q f u. mret (Some f)), fdb_findOneAndDelete = (\<lambda>q. mret None),
      fdb_deleteMany = (\<lambda>q. mret 0), isObjectId = (\<lambda>t. False)\<rparr>"

definition maintenance_on :: flag_args where
  "maintenance_on = \<lparr>fa_name = Some maintenance, fa_value = Some True\<rparr>"

definition flag_copied :: fleet where
  "flag_copied = store_both 1 (getFlagCacheKey maintenance) (Some (VBool False))
     \<lparr>smartContracts = Map.empty, merkleTrees = Map.empty, providerTrees = Map.empty, invalidatedKeys = [],
      gitReady = False, remote = Map.empty, locals = (\<lambda>_. Map.empty), mail = (\<lambda>_. [])\<rparr>"

lemma update_run:
  "\<exists>s'. updateRemoteConfigFlag (fleet_env 0 E) echo_db maintenance_on flag_copied =
     (Inr (answer 201 (FlagBody \<lparr>fl_name = maintenance, fl_value = True\<rparr>)), s')"
  by (simp add: updateRemoteConfigFlag_def flag_of_args_def maintenance_on_def maintenance_def failing_with_500_def
    mtry_def repo_findOneAndUpdate_def echo_db_def mbind_def mthen_def setFlag_def setData_def mmodify_def)


end
