(* ===== verification/Gov_Metrics.thy ===== *)
theory Gov_Metrics
  imports Gov_Prelude
begin

text \<open>
  Counting in Elasticsearch: the counting and scrolling methods of \<open>elastic.service.ts\<close>,
  \<open>metrics.service.ts\<close> and the endpoints of \<open>metrics.controller.ts\<close>. The client is a parameter. The
  scroll has no bound of its own, so it is a partial function: \<open>None\<close> means that it does not return.
\<close>

section \<open>The client\<close>

datatype match_cond = MatchCond string string | WildcardCond string string

record search_page =
  sp_hits :: "string list"
  sp_scroll_id :: "string option"

record 's elastic =
  es_count :: "string \<Rightarrow> match_cond list \<Rightarrow> ('s, int) prog"
  es_search :: "string \<Rightarrow> string \<Rightarrow> match_cond list \<Rightarrow> ('s, search_page) prog"
  es_scroll :: "string \<Rightarrow> nat \<Rightarrow> ('s, search_page) prog"

text \<open>A program that may not return.\<close>

type_synonym ('s, 'a) oprog = "'s \<Rightarrow> ((exn + 'a) \<times> 's) option"

definition obind :: "('s, 'a) oprog \<Rightarrow> ('a \<Rightarrow> ('s, 'b) oprog) \<Rightarrow> ('s, 'b) oprog" where
  "obind m f s = (case m s of None \<Rightarrow> None | Some (Inl e, s1) \<Rightarrow> Some (Inl e, s1) | Some (Inr a, s1) \<Rightarrow> f a s1)"

definition olift :: "('s, 'a) prog \<Rightarrow> ('s, 'a) oprog" where
  "olift m s = Some (m s)"


section \<open>ElasticService\<close>

definition getCount :: "'s elastic \<Rightarrow> string \<Rightarrow> match_cond list \<Rightarrow> ('s, int) prog" where
  "getCount C collection query = mtry (es_count C collection query) (\<lambda>error. mthrow error)"

text \<open>The loop; the time to keep the scroll open grows by a second with each page.\<close>

partial_function (option) scroll_from ::
  "'s elastic \<Rightarrow> nat \<Rightarrow> search_page \<Rightarrow> string list \<Rightarrow> 's \<Rightarrow> ((exn + string list) \<times> 's) option" where
  "scroll_from C n response hits s =
     (if sp_hits response = [] then Some (Inr hits, s)
      else case sp_scroll_id response of
        None \<Rightarrow> Some (Inr (hits @ sp_hits response), s)
      | Some sid \<Rightarrow>
          if sid = [] then Some (Inr (hits @ sp_hits response), s)
          else (case es_scroll C sid n s of
            (Inl e, s1) \<Rightarrow> Some (Inl e, s1)
          | (Inr next_page, s1) \<Rightarrow> scroll_from C (n + 1) next_page (hits @ sp_hits response) s1))"

definition scrollSearch :: "'s elastic \<Rightarrow> string \<Rightarrow> string \<Rightarrow> match_cond list \<Rightarrow> ('s, string list) oprog" where
  "scrollSearch C collection key query =
     obind (olift (es_search C collection key query)) (\<lambda>response. scroll_from C 1 response [])"

text \<open>\<open>getList\<close> logs and rethrows.\<close>

definition getList :: "'s elastic \<Rightarrow> string \<Rightarrow> string \<Rightarrow> match_cond list \<Rightarrow> ('s, string list) oprog" where
  "getList C collection key query = scrollSearch C collection key query"


section \<open>MetricsService\<close>

definition normal_type :: match_cond where
  "normal_type = MatchCond ''type'' ''normal''"

definition computeTxCount :: "'s elastic \<Rightarrow> string \<Rightarrow> ('s, int) prog" where
  "computeTxCount C addr = getCount C ''operations'' [MatchCond ''receiver'' addr, normal_type]"

definition computePairSwapCount :: "'s elastic \<Rightarrow> string \<Rightarrow> ('s, int) prog" where
  "computePairSwapCount C addr =
     mbind (getCount C ''operations''
       [MatchCond ''receiver'' addr, WildcardCond ''data'' ''*QDczNzc2MTcwNTQ2ZjZiNjU2ZTczNDY2OTc4NjU2NDQ5NmU3MDc1NzR*'', normal_type]) (\<lambda>txCount.
     mbind (getCount C ''operations''
       [MatchCond ''receiver'' addr, WildcardCond ''data'' ''*QDczNzc2MTcwNTQ2ZjZiNjU2ZTczNDY2OTc4NjU2NDRmNzU3NDcwNzU3NE*'', normal_type]) (\<lambda>txCount2.
       mret (txCount + txCount2)))"

definition computePairAddLiquidityCount :: "'s elastic \<Rightarrow> string \<Rightarrow> ('s, int) prog" where
  "computePairAddLiquidityCount C addr =
     getCount C ''operations'' [MatchCond ''receiver'' addr, WildcardCond ''data'' ''*YWRkTGlxdWlkaXR*'', normal_type]"

definition computePairRemoveLiquidityCount :: "'s elastic \<Rightarrow> string \<Rightarrow> ('s, int) prog" where
  "computePairRemoveLiquidityCount C addr =
     getCount C ''operations''
       [MatchCond ''receiver'' addr, WildcardCond ''data'' ''*QDcyNjU2ZDZmNzY2NTRjNjk3MTc1Njk2NDY5NzQ3OU*'', normal_type]"

definition computeEventsCount :: "'s elastic \<Rightarrow> string \<Rightarrow> string \<Rightarrow> ('s, int) prog" where
  "computeEventsCount C addr eventIdentifier =
     getCount C ''events'' [MatchCond ''address'' addr, MatchCond ''identifier'' eventIdentifier]"

text \<open>The table of senders, and its size.\<close>

definition count_sender :: "(string \<times> int) list \<Rightarrow> string \<Rightarrow> (string \<times> int) list" where
  "count_sender m sender =
     (case map_of m sender of
        None \<Rightarrow> m @ [(sender, 1)]
      | Some n \<Rightarrow> map (\<lambda>(k, v). if k = sender then (k, n + 1) else (k, v)) m)"

definition computeUniqueUsers :: "'s elastic \<Rightarrow> string \<Rightarrow> ('s, int) oprog" where
  "computeUniqueUsers C addr =
     obind (getList C ''operations'' ''sender'' [MatchCond ''receiver'' addr, normal_type]) (\<lambda>transactions.
       olift (mret (int (length (foldl count_sender [] transactions)))))"

text \<open>A quotient of JavaScript numbers, as the pair that is divided.\<close>

datatype js_quotient = QNaN | QInf bool | Quotient int int

definition js_divide :: "int \<Rightarrow> int \<Rightarrow> js_quotient" where
  "js_divide a b = (if b \<noteq> 0 then Quotient a b else if a = 0 then QNaN else QInf (a < 0))"

text \<open>
  Both searches run, and the first rejection in the order of the list is taken; a rejected count does not
  wait for a scroll that does not return.
\<close>

definition computeAvgUserTransactions :: "'s elastic \<Rightarrow> string \<Rightarrow> ('s, js_quotient) oprog" where
  "computeAvgUserTransactions C addr =
     obind (olift (mattempt (computeTxCount C addr))) (\<lambda>totalTxCount s.
       case computeUniqueUsers C addr s of
         None \<Rightarrow> (case totalTxCount of Inl e \<Rightarrow> Some (Inl e, s) | Inr _ \<Rightarrow> None)
       | Some (uniqueUsersCount, s1) \<Rightarrow>
           Some (case (totalTxCount, uniqueUsersCount) of
               (Inl e, _) \<Rightarrow> (Inl e, s1)
             | (Inr a, Inl e) \<Rightarrow> (Inl e, s1)
             | (Inr a, Inr b) \<Rightarrow> (Inr (js_divide a b), s1)))"


section \<open>MetricsController\<close>

text \<open>Every endpoint answers a failure with status 500 and a message of its own.\<close>

definition endpoint :: "string \<Rightarrow> ('s, 'a) oprog \<Rightarrow> ('s, 'a) oprog" where
  "endpoint complaint m s =
     (case m s of Some (Inl e, s1) \<Rightarrow> Some (Inl (HttpException complaint 500), s1) | r \<Rightarrow> r)"

definition getPairTransactionCount :: "'s elastic \<Rightarrow> string \<Rightarrow> ('s, int) oprog" where
  "getPairTransactionCount C addr = endpoint ''Failed to compute pair tx count'' (olift (computeTxCount C addr))"

definition getPairSwapCount :: "'s elastic \<Rightarrow> string \<Rightarrow> ('s, int) oprog" where
  "getPairSwapCount C addr = endpoint ''Failed to compute pair swap count'' (olift (computePairSwapCount C addr))"

definition getPairAddLiquidityCount :: "'s elastic \<Rightarrow> string \<Rightarrow> ('s, int) oprog" where
  "getPairAddLiquidityCount C addr =
     endpoint ''Failed to compute pair add liquidity count'' (olift (computePairAddLiquidityCount C addr))"

definition getPairRemoveLiquidityCount :: "'s elastic \<Rightarrow> string \<Rightarrow> ('s, int) oprog" where
  "getPairRemoveLiquidityCount C addr =
     endpoint ''Failed to compute pair remove liquidity count'' (olift (computePairRemoveLiquidityCount C addr))"

definition getPairUniqueUsersCount :: "'s elastic \<Rightarrow> string \<Rightarrow> ('s, int) oprog" where
  "getPairUniqueUsersCount C addr = endpoint ''Failed to compute pair unique users count'' (computeUniqueUsers C addr)"

definition getPairUserAverageTxCount :: "'s elastic \<Rightarrow> string \<Rightarrow> ('s, js_quotient) oprog" where
  "getPairUserAverageTxCount C addr =
     endpoint ''Failed to compute pair user average tx count'' (computeAvgUserTransactions C addr)"

definition getFarmTransactionCount :: "'s elastic \<Rightarrow> string \<Rightarrow> ('s, int) oprog" where
  "getFarmTransactionCount C addr = endpoint ''Failed to compute farm tx count'' (olift (computeTxCount C addr))"

definition getFarmEvents :: "'s elastic \<Rightarrow> string \<Rightarrow> string \<Rightarrow> ('s, int) oprog" where
  "getFarmEvents C addr event = endpoint ''Failed to compute farm events'' (olift (computeEventsCount C addr event))"

definition getFarmUniqueUsersCount :: "'s elastic \<Rightarrow> string \<Rightarrow> ('s, int) oprog" where
  "getFarmUniqueUsersCount C addr = endpoint ''Failed to compute farm unique users count'' (computeUniqueUsers C addr)"

definition getFarmUserAverageTxCount :: "'s elastic \<Rightarrow> string \<Rightarrow> ('s, js_quotient) oprog" where
  "getFarmUserAverageTxCount C addr =
     endpoint ''Failed to compute pair user average tx count'' (computeAvgUserTransactions C addr)"


section \<open>The scroll returns every hit\<close>

text \<open>
  The server that gives these pages: each has a scroll to continue from, except that the last may have
  none; when it has one, an empty page follows.
\<close>

fun delivers :: "'s elastic \<Rightarrow> nat \<Rightarrow> string \<Rightarrow> string list list \<Rightarrow> 's \<Rightarrow> bool" where
  "delivers C n sid [] s = (case es_scroll C sid n s of (Inr p, s1) \<Rightarrow> sp_hits p = [] | _ \<Rightarrow> False)"
| "delivers C n sid (h # hs) s =
     (case es_scroll C sid n s of
        (Inr p, s1) \<Rightarrow> h \<noteq> [] \<and> sp_hits p = h \<and>
          (case sp_scroll_id p of None \<Rightarrow> hs = [] | Some sid' \<Rightarrow> sid' \<noteq> [] \<and> delivers C (n + 1) sid' hs s1)
      | _ \<Rightarrow> False)"

lemma scroll_from_page:
  assumes "sp_hits p \<noteq> []" "sp_scroll_id p = Some sid" "sid \<noteq> []"
  shows "scroll_from C n p hits s =
    (case es_scroll C sid n s of
       (Inl e, s1) \<Rightarrow> Some (Inl e, s1)
     | (Inr p', s1) \<Rightarrow> scroll_from C (n + 1) p' (hits @ sp_hits p) s1)"
  using assms by (subst scroll_from.simps) simp

lemma scroll_from_delivers:
  assumes "sp_hits p \<noteq> []" "sp_scroll_id p = Some sid" "sid \<noteq> []" "delivers C n sid hs s"
  shows "\<exists>s'. scroll_from C n p hits s = Some (Inr (hits @ sp_hits p @ concat hs), s')"
  using assms
proof (induction hs arbitrary: n p sid hits s)
  case Nil
  then obtain p' s1 where "es_scroll C sid n s = (Inr p', s1)" "sp_hits p' = []"
    by (auto split: prod.splits sum.splits)
  moreover from this(2) have "scroll_from C (n + 1) p' h s1 = Some (Inr h, s1)" for h
    by (subst scroll_from.simps) simp
  ultimately show ?case using scroll_from_page [OF Nil(1-3), of C n hits s] by simp
next
  case (Cons h hs)
  then obtain p' s1 where next_page: "es_scroll C sid n s = (Inr p', s1)" "sp_hits p' = h" "h \<noteq> []"
    "case sp_scroll_id p' of None \<Rightarrow> hs = [] | Some sid' \<Rightarrow> sid' \<noteq> [] \<and> delivers C (n + 1) sid' hs s1"
    by (auto split: prod.splits sum.splits)
  note step = scroll_from_page [OF Cons.prems(1-3), of C n hits s, unfolded next_page(1) prod.case sum.case]
  show ?case
  proof (cases "sp_scroll_id p'")
    case None
    with next_page have "scroll_from C (n + 1) p' (hits @ sp_hits p) s1 = Some (Inr (hits @ sp_hits p @ h), s1)"
      by (subst scroll_from.simps) simp
    with None next_page(4) step show ?thesis by simp
  next
    case (Some sid')
    with next_page(2-4) Cons.IH [of p' sid' "n + 1" s1 "hits @ sp_hits p"] step show ?thesis by simp
  qed
qed

lemma count_sender_keys: "map fst (count_sender m x) = (if x \<in> fst ` set m then map fst m else map fst m @ [x])"
  by (auto simp: count_sender_def map_of_eq_None_iff comp_def split_beta split: option.splits)
     (metis fst_conv image_eqI map_of_SomeD)+

lemma senders_counted:
  "distinct (map fst m) \<Longrightarrow>
   distinct (map fst (foldl count_sender m xs)) \<and> set (map fst (foldl count_sender m xs)) = set (map fst m) \<union> set xs"
proof (induction xs arbitrary: m)
  case (Cons x xs)
  have "distinct (map fst (count_sender m x))" "set (map fst (count_sender m x)) = insert x (set (map fst m))"
    using Cons.prems by (auto simp: count_sender_keys)
  with Cons.IH [of "count_sender m x"] show ?case by simp
qed simp

lemma unique_senders: "length (foldl count_sender [] xs) = card (set xs)"
  using senders_counted [of "[]" xs] distinct_card [of "map fst (foldl count_sender [] xs)"] by simp

text \<open>
  C29: Against a server that ends its pages, counting the users of a contract returns, and gives the number
  of distinct senders on all pages.
\<close>

theorem unique_users_counted:
  assumes "es_search C ''operations'' ''sender'' [MatchCond ''receiver'' addr, normal_type] s =
      (Inr \<lparr>sp_hits = h, sp_scroll_id = Some sid\<rparr>, s1)"
    and "h \<noteq> []" "sid \<noteq> []" "delivers C 1 sid hs s1"
  shows "\<exists>s'. computeUniqueUsers C addr s = Some (Inr (int (card (set (h @ concat hs)))), s')"
proof -
  obtain s' where "scroll_from C 1 \<lparr>sp_hits = h, sp_scroll_id = Some sid\<rparr> [] s1 = Some (Inr (h @ concat hs), s')"
    using scroll_from_delivers [of "\<lparr>sp_hits = h, sp_scroll_id = Some sid\<rparr>" sid C 1 hs s1 "[]"] assms by auto
  with assms(1) show ?thesis
    by (simp add: computeUniqueUsers_def getList_def scrollSearch_def obind_def olift_def unique_senders)
qed

definition three_pages :: "nat elastic" where
  "three_pages =
     \<lparr>es_count = (\<lambda>c q. mret 3),
      es_search = (\<lambda>c k q. mret \<lparr>sp_hits = [''a'', ''b''], sp_scroll_id = Some ''s''\<rparr>),
      es_scroll = (\<lambda>sid n s. (Inr \<lparr>sp_hits = (if s = 0 then [''b'', ''c''] else []), sp_scroll_id = Some ''s''\<rparr>, s + 1))\<rparr>"

theorem unique_users_counted_witness:
  "\<exists>s'. computeUniqueUsers three_pages ''x'' 0 = Some (Inr (int (card (set ([''a'', ''b''] @ concat [[''b'', ''c'']])))), s')"
  by (rule unique_users_counted [where sid = "''s''" and ?s1.0 = 0]) (simp_all add: three_pages_def)

end
