(* ===== verification/Gov_Recovery.thy ===== *)
theory Gov_Recovery
  imports Gov_Coherence
begin

text \<open>
  Blocks whose handling fails. When a handler throws, what it and the handlers before it wrote to the
  shared cache stays, whether or not the broker delivers the block again (a block may be handled any number
  of times here), and \<open>GovernanceHandlerService.invalidatedKeys\<close> keeps the keys that were not yet
  published. One process takes the blocks (\<open>x-single-active-consumer\<close> in
  \<open>modules/rabbitmq/rabbitmq.consumers.ts\<close>), so the list is the one of that process. Here is what the
  list makes good: after a failed vote every stale key is in it, and the next vote publishes it.
\<close>

section \<open>What a failed vote leaves behind\<close>

text \<open>The stale keys are known to the handler: the next time it publishes, it names them.\<close>

definition known :: "'y fl \<Rightarrow> bool" where
  "known s \<longleftrightarrow> stale s \<subseteq> set (invalidatedKeys s)"

lemma known_at_most: "known s \<longleftrightarrow> (\<exists>D K. D \<subseteq> set K \<and> at_most D K s)"
  by (auto simp: known_def at_most_def)

lemma keeps_known_spares: "spares i m \<Longrightarrow> keeps known m"
  unfolding keeps_def known_def by (metis prod.collapse sparesD subset_trans)

lemma keeps_known_delete: "keeps known (gov_deleteCacheKeys (fleet_env i E))"
  unfolding keeps_def known_def
  using stale_post [of "invalidatedKeys _"] by (fastforce simp: gov_deleteCacheKeys_def mbind_def mthen_apply)

text \<open>A write and the note of its key, with nothing between that can fail.\<close>

lemma keeps_known_write:
  assumes "keeps known m"
  shows "keeps known (mbind (setData (fleet_env i E) k v t) (\<lambda>q. mthen (push_key q) m))"
proof -
  have noted: "known ((store_both i k (Some v) s)\<lparr>invalidatedKeys := invalidatedKeys s @ [k]\<rparr>)" if "known s" for s :: "'a fl"
    using that stale_store_both [of i k "Some v" s] by (auto simp: known_def split: if_splits)
  show ?thesis
    using assms noted unfolding keeps_def by (auto simp: setData_def push_key_def mbind_def mthen_apply)
qed

lemma failed_gov_vote:
  assumes "services_elsewhere E"
  shows "keeps known (handleGovernanceVoteEvent (fleet_env i E) X ev name)"
  unfolding handleGovernanceVoteEvent_def setter_defs
  by (intro keeps_mbind keeps_known_write keeps_mthen keeps_known_delete keeps_mlift;
      use assms in \<open>auto intro!: keeps_known_spares [of i] spares_getters spares_increase spares_services\<close>)

lemma keeps_known_publish:
  "keeps known (mbind (setData (fleet_env i E) k v t) (\<lambda>q. deleteCacheKeys (fleet_env i E) [q]))"
proof -
  have "known (post ''deleteCacheKeys'' [k] (store_both i k (Some v) s))" if "known s" for s :: "'a fl"
    using that stale_store_both [of i k "Some v" s] stale_post [of "[k]" "store_both i k (Some v) s"]
    by (auto simp: known_def split: if_splits)
  then show ?thesis
    unfolding keeps_def by (auto simp: setData_def deleteCacheKeys_def mbind_def mthen_apply)
qed

lemma keeps_known_publish_then:
  assumes "keeps known m"
  shows "keeps known (mbind (setData (fleet_env i E) k v t) (\<lambda>q. mthen (deleteCacheKeys (fleet_env i E) [q]) m))"
proof -
  have "mbind (setData (fleet_env i E) k v t) (\<lambda>q. mthen (deleteCacheKeys (fleet_env i E) [q]) m) =
      mthen (mbind (setData (fleet_env i E) k v t) (\<lambda>q. deleteCacheKeys (fleet_env i E) [q])) m"
    by (simp add: mthen_def mbind_def setData_def fun_eq_iff split: sum.splits prod.splits)
  then show ?thesis using keeps_mthen [OF keeps_known_publish assms] by (simp only:)
qed

lemma failed_onchain_vote:
  assumes "services_elsewhere E"
  shows "keeps known (handleOnChainGovernanceVoteEvent (fleet_env i E) X ev name)"
  unfolding handleOnChainGovernanceVoteEvent_def setter_defs
  by (rule keeps_mbind [OF keeps_mlift] keeps_known_publish keeps_known_publish_then keeps_mbind [OF keeps_known_spares [of i]]
      spares_delegate_powers assms)+


text \<open>
  An energy update that fails at the proposals of a contract has written the energy of the user, and no list
  keeps the key: a process with an older copy serves it until it expires or the next update is handled.
\<close>

lemma failed_energy_unannounced:
  assumes "energyEvent X ev = Inr (u, e)"
    and "governanceContractsAddresses (fleet_env i E) (Some [type_string ENERGY]) = Inr (a # as)"
    and "\<And>t. abi_proposals (fleet_env i E) a t = (Inl err, t)"
    and "j \<noteq> i" "locals s j (energy_key u) = Some old" "old \<noteq> VEnergy e" "\<not> named s j (energy_key u)"
  shows "\<exists>s'. handleUpdateEnergy (fleet_env i E) X ev s = (Inl err, s') \<and>
    energy_key u \<in> stale s' \<and> invalidatedKeys s' = invalidatedKeys s"
proof (intro exI conjI)
  let ?s' = "store_both i (energy_key u) (Some (VEnergy e)) s"
  show "handleUpdateEnergy (fleet_env i E) X ev s = (Inl err, ?s')"
    using assms(2) by (simp add: handleUpdateEnergy_def assms(1,3) start_deletions_def mbind_def setEnergyEntryForUser_def setData_def
        mthen_apply energy_key_def)
  show "energy_key u \<in> stale ?s'" unfolding stale_def
    by (simp, rule exI [of _ j]) (use assms(4-) in \<open>simp add: store_both_def named_def\<close>)
qed simp


text \<open>A batch of polls fails when an event cannot be decoded; what the events before it wrote is not announced.\<close>

lemma failed_batch_unannounced:
  assumes "update ev = Inr (setData (fleet_env i E) k v t)" and "update bad = Inl err"
    and "j \<noteq> i" "locals s j k = Some old" "old \<noteq> v" "\<not> named s j k"
  shows "\<exists>s'. apply_updates (fleet_env i E) update [ev, bad] s = (Inl err, s') \<and>
    k \<in> stale s' \<and> invalidatedKeys s' = invalidatedKeys s"
proof (intro exI conjI)
  let ?s' = "store_both i k (Some v) s"
  show "apply_updates (fleet_env i E) update [ev, bad] s = (Inl err, ?s')"
    by (simp add: apply_updates_def assms(1,2) mbind_def setData_def mthen_apply)
  show "k \<in> stale ?s'" unfolding stale_def
    by (simp, rule exI [of _ j]) (use assms(3-) in \<open>simp add: store_both_def named_def\<close>)
qed simp


section \<open>A fleet in which votes fail\<close>

text \<open>
  The process \<open>c\<close> takes the blocks, one at a time (\<open>prefetchCount\<close> is 1). Its steps are the batch of polls
  and ideas of a block, an event that is handled, and an event of a vote that fails, after which the rest of
  its block is lost. The jobs that write one entry, after all their reads, may fail, too. Energy events, the
  batches and the jobs with loops leave keys that no list holds when they fail (\<open>failed_energy_unannounced\<close>,
  \<open>failed_batch_unannounced\<close>): their failures are no steps, and reads are done at once.
\<close>

lemma failed_single_job:
  assumes "services_elsewhere E"
  shows "keeps known (warmGithubProposals (fleet_env i E))" "keeps known (cacheCurrentEpoch (fleet_env i E))"
proof -
  have told: "known (post ''deleteCacheKeys'' [k] (store_both i k (Some v) s))" if "known s" for s :: "'a fl" and k v
    using that stale_store_both [of i k "Some v" s] stale_post [of "[k]" "store_both i k (Some v) s"]
    by (auto simp: known_def split: if_splits)
  have written: "keeps known (mthen (cacheSet (fleet_env i E) k v r l) (publishKeys (fleet_env i E) ''deleteCacheKeys'' [k]))" for k v r l
    unfolding keeps_def by (simp add: mthen_apply told)
  show "keeps known (warmGithubProposals (fleet_env i E))"
    unfolding warmGithubProposals_def Let_def
    by (rule keeps_mbind [OF keeps_known_spares [OF spares_proposals(1) [OF assms]]]) (rule written)
  show "keeps known (cacheCurrentEpoch (fleet_env i E))"
    unfolding cacheCurrentEpoch_def Let_def warm_publish_def
    by (intro keeps_mbind [OF keeps_known_spares [OF spares_doGetGeneric [OF assms]]] keeps_mbind [OF keeps_mlift] written)
qed

inductive troubled_step :: "nat \<Rightarrow> ('y fl) env \<Rightarrow> event_sdk \<Rightarrow> 'y fl \<Rightarrow> 'y fl \<Rightarrow> bool"
  for c E X where
  pulse_batch: "handlePulseEvents (fleet_env c E) events s = (Inr (), s') \<Longrightarrow> troubled_step c E X s s'"
| event: "dispatch (fleet_env c E) X ev s = (Inr (), s') \<Longrightarrow> troubled_step c E X s s'"
| failed_vote: "dispatch (fleet_env c E) X ev s = (Inl e, s') \<Longrightarrow> eventName X ev \<noteq> ev_ENERGY_UPDATED E \<Longrightarrow> troubled_step c E X s s'"
| failed_job: "m \<in> {warmGithubProposals (fleet_env i E), cacheCurrentEpoch (fleet_env i E)} \<Longrightarrow> m s = (Inl e, s') \<Longrightarrow>
    troubled_step c E X s s'"
| background: "background_step E s s' \<Longrightarrow> troubled_step c E X s s'"

inductive troubled_reach :: "nat \<Rightarrow> ('y fl) env \<Rightarrow> event_sdk \<Rightarrow> 'y fl \<Rightarrow> 'y fl \<Rightarrow> bool"
  for c E X s where
  start: "troubled_reach c E X s s"
| step: "troubled_reach c E X s t \<Longrightarrow> troubled_step c E X t u \<Longrightarrow> troubled_reach c E X s u"

lemma fleet_ev_energy [simp]: "ev_ENERGY_UPDATED (fleet_env i E) = ev_ENERGY_UPDATED E"
  by (simp add: fleet_env_def)

lemma known_handler:
  assumes "\<And>D K. triple (at_most D K) m (\<lambda>_. at_most D K)" "m s = (Inr a, s')" "known s"
  shows "known s'"
  using assms tripleD [OF assms(1) assms(2)] unfolding known_at_most by blast

lemma known_step:
  assumes "troubled_step c E X s s'" "services_elsewhere E" "known s"
  shows "known s'"
  using assms(1)
proof cases
  case (pulse_batch events)
  then show ?thesis using known_handler [OF pulse_handler_publishes] assms(3) by blast
next
  case (event ev)
  have "known s'" if "handleUpdateEnergy (fleet_env c E) X ev s = (Inr (), s')"
    using known_handler [OF energy_handler_publishes [OF assms(2)] that assms(3)] .
  moreover have "known s'" if "keeps known m" "m s = (Inr (), s')" for m :: "('a fl, unit) prog"
    using that assms(3) unfolding keeps_def by (metis snd_conv)
  ultimately show ?thesis
    using event assms(3) failed_gov_vote [OF assms(2)] failed_onchain_vote [OF assms(2)]
    unfolding dispatch_def Let_def by (simp split: if_splits) blast+
next
  case (failed_vote ev e)
  have "known s'" if "keeps known m" "m s = (Inl e, s')" for m :: "('a fl, unit) prog"
    using that assms(3) unfolding keeps_def by (metis snd_conv)
  then show ?thesis
    using failed_vote failed_gov_vote [OF assms(2)] failed_onchain_vote [OF assms(2)]
    unfolding dispatch_def Let_def by (simp split: if_splits) blast+
next
  case (failed_job m i e)
  then have "keeps known m" using failed_single_job [OF assms(2)] by blast
  then show ?thesis using failed_job assms(3) unfolding keeps_def by (metis snd_conv)
next
  case background
  then show ?thesis using background_at_most [OF _ assms(2)] assms(3) unfolding known_at_most by blast
qed

lemma known_reach:
  "troubled_reach c E X s s' \<Longrightarrow> services_elsewhere E \<Longrightarrow> known s \<Longrightarrow> known s'"
  by (induction rule: troubled_reach.induct) (auto intro: known_step)

text \<open>
  C15: A failed vote is made good by the next one: however blocks are handled, votes and jobs of one entry fail
  half-way and reads, other jobs and messages come in between, the keys of all stale copies are in the list of the vote handler; and
  once a vote event is handled to its end, every process that has taken its messages reads, from then on,
  the entry of the shared cache.
\<close>

theorem failed_votes_heal:
  fixes E :: "('y fl) env"
  assumes "troubled_reach c E X s0 s" "services_elsewhere E" and "\<forall>i k. locals s0 i k = None"
    and "handleGovernanceVoteEvent (fleet_env c E) X ev name s = (Inr (), s1)"
    and "fleet_reach E X filterAddresses s1 s2" and "mail s2 j = []"
  shows "stale s \<subseteq> set (invalidatedKeys s) \<and> invalidatedKeys s1 = [] \<and>
    (locals s2 j k = None \<or> locals s2 j k = remote s2 k)"
proof -
  have "known s0" using assms(3) by (simp add: known_def stale_def)
  then have "known s" using known_reach [OF assms(1,2)] by blast
  then have stale: "stale s \<subseteq> set (invalidatedKeys s)" by (simp add: known_def)
  have s1: "at_most {} [] s1"
    using tripleD [OF gov_handler_publishes [where D' = "stale s" and D = "{}" and K = "invalidatedKeys s", OF assms(2)] assms(4)] stale
    by (simp add: at_most_def)
  then have "within {} s2" using within_reach [OF assms(5,2), of "{}"] by (simp add: at_most_def within_def)
  with stale s1 show ?thesis using within_copy [of "{}"] assms(6) by (simp add: at_most_def)
qed


section \<open>A vote that fails, and the next one\<close>

text \<open>
  Two processes: the second has a copy of the proposals that a user voted for. The vote handler of the first
  writes two entries before it reads the counts, and that read fails: the other process keeps its old copy,
  and no message for it is on the way.
\<close>

definition half_known :: fleet where
  "half_known = store_local 1 (voted_key ''erdB'' ''erdU'') (Some (VNums []))
     (shared_vote\<lparr>remote := [voted_key ''erdB'' ''erdU'' \<mapsto> VNums [], types_key ''erdB'' ''erdU'' \<mapsto> VVoteTypes []]\<rparr>)"

definition told_votes :: "(int \<times> VoteType) list" where
  "told_votes = with_vote_type 1 (toVoteType fleet_services ''upVoteCast'') []"

definition half_told :: fleet where
  "half_told = (store_both 0 (types_key ''erdB'' ''erdU'') (Some (VVoteTypes told_votes))
     (store_both 0 (voted_key ''erdB'' ''erdU'') (Some (VNums [1])) half_known))
     \<lparr>invalidatedKeys := [voted_key ''erdB'' ''erdU'', types_key ''erdB'' ''erdU'']\<rparr>"

lemma cached_copy: "locals s i k = None \<Longrightarrow> remote s k = Some v \<Longrightarrow>
    cached (fleet_env i E) k t c body s = (snd c v, store_local i k (Some v) s)"
  by (cases "snd c v") (simp_all add: cached_def two_level_def mbind_def mthen_apply)

lemma cached_here: "locals s i k = Some v \<Longrightarrow> cached (fleet_env i E) k t c body s = (snd c v, s)"
  by (cases "snd c v") (simp_all add: cached_def two_level_def mbind_def mthen_apply)

lemma cached_fails: "locals s i k = None \<Longrightarrow> remote s k = None \<Longrightarrow> fst (body s) = Inl e \<Longrightarrow>
    fst (cached (fleet_env i E) k t c body s) = Inl e \<and> snd (cached (fleet_env i E) k t c body s) = snd (body s)"
  by (cases "body s") (simp add: cached_def two_level_def mbind_def)

lemma no_contract_here: "getGovernanceSmartContract (fleet_env i fleet_services) a T s = (Inl TypeError, s)"
  if "smartContracts s = Map.empty"
  using that by (simp add: getGovernanceSmartContract_def getSmartContract_def createSmartContract_def load_contract_def
      fleet_env_def fleet_services_def libs.extend_def libs.truncate_def env.fields_def example_env_def memory_env_def mbind_def)

lemma vote_keys:
  "getCacheKey ''governance'' [KStr ''userVotedProposals'', KStr a, KStr u] = voted_key a u"
  "getCacheKey ''governance'' [KStr ''userVoteTypesForContract'', KStr a, KStr u] = types_key a u"
  "getCacheKey ''governance'' [KStr ''proposalVotes'', KStr a, KNum p] = tally_key a p"
  by (simp_all add: voted_key_def types_key_def tally_key_def)

lemma example_vote:
  "voteTopics example_sdk (vote_event n u) = Inr \<lparr>vt_voter = u, vt_proposalId = 1, vt_nrVotes = bn_int 7, vt_quorumUsed = bn_int 49\<rparr>"
  "re_address (vote_event n u) = ''erdB''"
  by (simp_all add: example_sdk_def vote_event_def topic_def)

text \<open>What the getters of the handler return when there is an entry.\<close>

lemma read_entries:
  "remote s (voted_key a u) = Some (VNums ps) \<Longrightarrow> locals s i (voted_key a u) = None \<Longrightarrow>
     userVotedProposals (fleet_env i E) T a u s = (Inr ps, store_local i (voted_key a u) (Some (VNums ps)) s)"
  "remote s (types_key a u) = Some (VVoteTypes vs) \<Longrightarrow> locals s i (types_key a u) = None \<Longrightarrow>
     userVoteTypesForContract (fleet_env i E) a u s = (Inr vs, store_local i (types_key a u) (Some (VVoteTypes vs)) s)"
  "locals s i (voted_key a u) = Some (VNums ps) \<Longrightarrow> userVotedProposals (fleet_env i E) T a u s = (Inr ps, s)"
  "locals s i (types_key a u) = Some (VVoteTypes vs) \<Longrightarrow> userVoteTypesForContract (fleet_env i E) a u s = (Inr vs, s)"
  "locals s i (tally_key a p) = Some (VVotes v) \<Longrightarrow> ts_proposalVotes (fleet_env i E) T a p s = (Inr v, s)"
  by (simp_all add: userVotedProposals_def userVoteTypesForContract_def ts_proposalVotes_def by_proposal_def GetOrSetCache_def
      vote_keys [unfolded getCacheKey_def] cached_copy cached_here numsC_def voteTypesC_def votesC_def)

lemma tally_fails:
  "locals s i (tally_key a p) = None \<Longrightarrow> remote s (tally_key a p) = None \<Longrightarrow> smartContracts s = Map.empty \<Longrightarrow>
     ts_proposalVotes (fleet_env i fleet_services) T a p s = (Inl TypeError, s)"
  by (simp add: ts_proposalVotes_def by_proposal_def GetOrSetCache_def vote_keys [unfolded getCacheKey_def] prod_eq_iff cached_fails
      ts_proposalVotesRaw_def mbind_def no_contract_here)

lemmas handler_run = handleGovernanceVoteEvent_def example_vote mbind_def mthen_apply set_userVotedProposals_def
  set_userVoteTypesForContract_def set_proposalVotes_def vote_keys setData_def push_key_def increaseProposalVotes_def

lemmas known_states = half_told_def half_known_def shared_vote_def store_local_def store_both_def js_set_def told_votes_def

lemma vote_types_here: "toVoteType (fleet_env i E) = toVoteType E"
  by (simp add: fun_eq_iff toVoteType_def fleet_env_def)

lemma failed_vote_run:
  "handleGovernanceVoteEvent (fleet_env 0 fleet_services) example_sdk (vote_event ''upVoteCast'' ''erdU'') ''upVoteCast'' half_known
     = (Inl TypeError, half_told)"
proof -
  let ?vk = "voted_key ''erdB'' ''erdU''" and ?tk = "types_key ''erdB'' ''erdU''"
  have 1: "userVotedProposals (fleet_env 0 fleet_services) TOKEN_SNAPSHOT ''erdB'' ''erdU'' half_known
      = (Inr [], store_local 0 ?vk (Some (VNums [])) half_known)"
    by (rule read_entries) (simp_all add: half_known_def shared_vote_def store_local_def)
  define s2 where "s2 = (store_both 0 ?vk (Some (VNums (js_set [1]))) (store_local 0 ?vk (Some (VNums [])) half_known))\<lparr>invalidatedKeys := [?vk]\<rparr>"
  have 2: "userVoteTypesForContract (fleet_env 0 fleet_services) ''erdB'' ''erdU'' s2 = (Inr [], store_local 0 ?tk (Some (VVoteTypes [])) s2)"
    by (rule read_entries) (simp_all add: s2_def half_known_def shared_vote_def store_local_def store_both_def)
  have 3: "ts_proposalVotes (fleet_env 0 fleet_services) TOKEN_SNAPSHOT ''erdB'' 1 half_told = (Inl TypeError, half_told)"
    by (rule tally_fails) (simp_all add: known_states)
  have 4: "(store_both 0 ?vk (Some (VNums (js_set [1]))) (store_local 0 ?vk (Some (VNums [])) half_known))
      \<lparr>invalidatedKeys := invalidatedKeys half_known @ [?vk]\<rparr> = s2"
    by (simp add: s2_def half_known_def shared_vote_def store_local_def)
  have 5: "(store_both 0 ?tk (Some (VVoteTypes (with_vote_type 1 (toVoteType fleet_services ''upVoteCast'') []))) (store_local 0 ?tk (Some (VVoteTypes [])) s2))
      \<lparr>invalidatedKeys := invalidatedKeys s2 @ [?tk]\<rparr> = half_told"
    by (simp add: s2_def half_told_def told_votes_def store_local_def store_both_def js_set_def fun_upd_twist)
  show ?thesis
    by (simp add: handler_run 1 4 2 5 3 vote_types_here del: with_vote_type.simps)
qed

lemma failed_vote_unannounced:
  "mail half_told 1 = []" "locals half_told 1 (voted_key ''erdB'' ''erdU'') = Some (VNums [])"
  "remote half_told (voted_key ''erdB'' ''erdU'') = Some (VNums [1])"
  "stale half_told \<noteq> {}" "stale half_told \<subseteq> {voted_key ''erdB'' ''erdU'', types_key ''erdB'' ''erdU''}"
  by (auto simp: known_states stale_def named_def split: if_splits)

text \<open>When the counts are in the cache again, the next vote names all the keys.\<close>

definition tally_back :: fleet where
  "tally_back = store_both 0 (tally_key ''erdB'' 1) (Some (VVotes (votes_of zero_tally))) half_told"

definition counted :: proposal_votes where
  "counted = increase_votes (fleet_env 0 fleet_services) ''upVoteCast'' (bn_int 7) (bn_int 49) (votes_of zero_tally)"

definition announced_keys :: "string list" where
  "announced_keys = [voted_key ''erdB'' ''erdU'', types_key ''erdB'' ''erdU'',
     voted_key ''erdB'' ''erdU'', types_key ''erdB'' ''erdU'', tally_key ''erdB'' 1]"

definition healed :: fleet where
  "healed = (post ''deleteCacheKeys'' announced_keys
     (store_both 0 (tally_key ''erdB'' 1) (Some (VVotes counted)) tally_back))\<lparr>invalidatedKeys := []\<rparr>"

definition heard :: fleet where
  "heard = drop_copies 1 (set announced_keys) (healed\<lparr>mail := (mail healed)(1 := [])\<rparr>)"

lemma next_vote_run:
  "handleGovernanceVoteEvent (fleet_env 0 fleet_services) example_sdk (vote_event ''upVoteCast'' ''erdU'') ''upVoteCast'' tally_back
     = (Inr (), healed)"
proof -
  let ?vk = "voted_key ''erdB'' ''erdU''" and ?tk = "types_key ''erdB'' ''erdU''" and ?ck = "tally_key ''erdB'' 1"
  let ?F = "fleet_env 0 fleet_services"
  define s2 where "s2 = tally_back\<lparr>invalidatedKeys := [?vk, ?tk, ?vk]\<rparr>"
  define s4 where "s4 = tally_back\<lparr>invalidatedKeys := [?vk, ?tk, ?vk, ?tk]\<rparr>"
  have here: "locals s 0 ?vk = Some (VNums [1])" "locals s 0 ?tk = Some (VVoteTypes told_votes)" "locals s 0 ?ck = Some (VVotes (votes_of zero_tally))"
    if "s \<in> {tally_back, s2, s4}" for s
    using that by (auto simp: s2_def s4_def tally_back_def half_told_def store_both_def)
  have 1: "userVotedProposals ?F TOKEN_SNAPSHOT ''erdB'' ''erdU'' tally_back = (Inr [1], tally_back)"
    "userVoteTypesForContract ?F ''erdB'' ''erdU'' s2 = (Inr told_votes, s2)"
    "ts_proposalVotes ?F TOKEN_SNAPSHOT ''erdB'' 1 s4 = (Inr (votes_of zero_tally), s4)"
    by (rule read_entries; simp add: here)+
  have 2: "(store_both 0 ?vk (Some (VNums (js_set [1, 1]))) tally_back)\<lparr>invalidatedKeys := invalidatedKeys tally_back @ [?vk]\<rparr> = s2"
    by (simp add: s2_def tally_back_def known_states fun_eq_iff)
  have 3: "(store_both 0 ?tk (Some (VVoteTypes (with_vote_type 1 (toVoteType fleet_services ''upVoteCast'') told_votes))) s2)
      \<lparr>invalidatedKeys := invalidatedKeys s2 @ [?tk]\<rparr> = s4"
    by (simp add: s4_def s2_def tally_back_def known_states fun_eq_iff)
  have 4: "invalidatedKeys (store_both 0 ?ck v s4) = [?vk, ?tk, ?vk, ?tk]" for v by (simp add: s4_def)
  have 5: "publishEvent fleet_services n s = (Inr (), s)" for n s
    by (simp add: fleet_env_def fleet_services_def libs.extend_def env.fields_def)
  show ?thesis
    by (simp add: handler_run 1 2 3 4 5 vote_types_here gov_deleteCacheKeys_def counted_def [symmetric] del: with_vote_type.simps)
       (simp add: healed_def announced_keys_def s4_def post_def store_both_def)
qed

lemma troubled_example: "troubled_reach 0 fleet_services example_sdk
    (shared_vote\<lparr>remote := [voted_key ''erdB'' ''erdU'' \<mapsto> VNums [], types_key ''erdB'' ''erdU'' \<mapsto> VVoteTypes []]\<rparr>) tally_back"
proof -
  let ?s0 = "shared_vote\<lparr>remote := [voted_key ''erdB'' ''erdU'' \<mapsto> VNums [], types_key ''erdB'' ''erdU'' \<mapsto> VVoteTypes []]\<rparr>"
  let ?step = "troubled_step 0 fleet_services example_sdk"
  have 1: "?step ?s0 half_known"
    by (rule troubled_step.background, rule background_step.read_cache
          [where i = 1 and k = "voted_key ''erdB'' ''erdU''" and body = "mthrow unavailable" and q = "Inr (VNums [])"])
       (simp_all add: two_level_def half_known_def shared_vote_def mthen_apply)
  have name: "eventName example_sdk (vote_event n u) = n" "re_data (vote_event n u) = Some []" for n u
    by (simp_all add: example_sdk_def vote_event_def)
  have events: "ev_ENERGY_UPDATED (fleet_env i fleet_services) = ''energyUpdated''" "ev_UP (fleet_env i fleet_services) = ''upVoteCast''" for i
    by (simp_all add: fleet_env_def fleet_services_def libs.extend_def libs.truncate_def env.fields_def)
  have "dispatch (fleet_env 0 fleet_services) example_sdk (vote_event ''upVoteCast'' ''erdU'') half_known = (Inl TypeError, half_told)"
    unfolding dispatch_def Let_def name events using failed_vote_run by (simp add: example_sdk_def)
  then have 2: "?step half_known half_told"
    by (rule troubled_step.failed_vote) (use events in \<open>simp add: name\<close>)
  have 3: "?step half_told tally_back"
    by (rule troubled_step.background, rule background_step.read_cache [where i = 0 and k = "tally_key ''erdB'' 1"
          and body = "mret (VVotes (votes_of zero_tally))" and q = "Inr (VVotes (votes_of zero_tally))"])
       (simp_all add: two_level_def tally_back_def mthen_apply mbind_def known_states)
  show ?thesis by (rule troubled_reach.step [OF troubled_reach.step [OF troubled_reach.step [OF troubled_reach.start 1] 2] 3])
qed

theorem failed_votes_heal_witness:
  "stale tally_back \<noteq> {} \<and> stale tally_back \<subseteq> set (invalidatedKeys tally_back) \<and>
   locals heard 1 (voted_key ''erdB'' ''erdU'') = None \<and> remote heard (voted_key ''erdB'' ''erdU'') = Some (VNums [1])"
proof -
  let ?vk = "voted_key ''erdB'' ''erdU''"
  have mails: "mail healed i = [announced_keys]" for i
    by (simp add: healed_def post_def tally_back_def known_states)
  have "fleet_step fleet_services example_sdk [] healed heard"
    by (rule fleet_step.background, rule background_step.deliver [where i = 1, OF mails])
       (simp add: deleteCacheKey_copies heard_def)
  then have reach: "fleet_reach fleet_services example_sdk [] healed heard" by (meson fleet_reach.intros)
  have ends: "mail heard 1 = []" "locals heard 1 ?vk = None" "remote heard ?vk = Some (VNums [1])"
    by (simp_all add: heard_def drop_copies_def announced_keys_def restrict_map_def)
       (simp add: healed_def post_def tally_back_def known_states)
  have "?vk \<in> stale tally_back"
    by (simp add: stale_def named_def, rule exI [of _ 1]) (simp add: tally_back_def known_states)
  then show ?thesis
    using failed_votes_heal [OF troubled_example fleet_services_elsewhere _ next_vote_run reach ends(1), of ?vk] ends
    by (auto simp: shared_vote_def)
qed

end
