(* ===== verification/Gov_Observe.thy ===== *)
theory Gov_Observe
  imports Gov_Merkle Gov_Config
begin

text \<open>
  What watches the requests: \<open>metrics.collector.ts\<close> with its gauges and histograms,
  \<open>performance.profiler.ts\<close>, the middlewares \<open>loggerMiddleware.ts\<close> and \<open>deprecate.logger.middleware.ts\<close>,
  \<open>logging.interceptor.ts\<close>, \<open>proxy.network.provider.profiler.ts\<close> and \<open>generate-log-message.ts\<close>; and three
  small parts that all applications share, \<open>redisClient.ts\<close> with the clients of \<open>redis.pubSub.module.ts\<close>,
  \<open>auth.user.ts\<close> and \<open>env_load.ts\<close>. The library \<open>prom-client\<close>, the clocks, MD5 and the Redis client are
  parameters.
\<close>

section \<open>Log messages\<close>

datatype LogType = LT_GET | LT_SET | LT_DELETE | LT_COMPUTE | LT_RUN_QUERY

fun log_type_string :: "LogType \<Rightarrow> string" where
  "log_type_string LT_GET = ''get''"
| "log_type_string LT_SET = ''set''"
| "log_type_string LT_DELETE = ''delete''"
| "log_type_string LT_COMPUTE = ''compute''"
| "log_type_string LT_RUN_QUERY = ''runQuery''"

record 'e log_message =
  lm_message :: string
  lm_path :: string
  lm_error :: 'e

definition generateLogMessage :: "string \<Rightarrow> string \<Rightarrow> string \<Rightarrow> 'e \<Rightarrow> LogType option \<Rightarrow> 'e log_message" where
  "generateLogMessage className methodName messageKey error logType =
     \<lparr>lm_message = (case logType of
        Some t \<Rightarrow> ''An error occurred while '' @ log_type_string t @ '' '' @ messageKey
      | None \<Rightarrow> ''An error occurred while '' @ messageKey),
      lm_path = className @ ''.'' @ methodName, lm_error = error\<rparr>"

definition generateGetLogMessage :: "string \<Rightarrow> string \<Rightarrow> string \<Rightarrow> 'e \<Rightarrow> 'e log_message" where
  "generateGetLogMessage className methodName messageKey error =
     generateLogMessage className methodName messageKey error (Some LT_GET)"

definition generateSetLogMessage :: "string \<Rightarrow> string \<Rightarrow> string \<Rightarrow> 'e \<Rightarrow> 'e log_message" where
  "generateSetLogMessage className methodName messageKey error =
     generateLogMessage className methodName messageKey error (Some LT_SET)"

definition generateDeleteLogMessage :: "string \<Rightarrow> string \<Rightarrow> string \<Rightarrow> 'e \<Rightarrow> 'e log_message" where
  "generateDeleteLogMessage className methodName messageKey error =
     generateLogMessage className methodName messageKey error (Some LT_DELETE)"

definition generateComputeLogMessage :: "string \<Rightarrow> string \<Rightarrow> string \<Rightarrow> 'e \<Rightarrow> 'e log_message" where
  "generateComputeLogMessage className methodName messageKey error =
     generateLogMessage className methodName messageKey error (Some LT_COMPUTE)"


section \<open>MetricsCollector\<close>

text \<open>The static fields of the class that hold a histogram or a gauge, in the order of their creation.\<close>

datatype metric =
    FieldDuration | QueryDuration | QueryCpu | AwsQueryDuration | DataApiQueryDuration | GasDifference
  | CurrentNonce | LastProcessedNonce | GuestQueries

datatype metric_kind = Histogram | Gauge

record metric_spec =
  ms_kind :: metric_kind
  ms_name :: string
  ms_help :: string
  ms_labels :: "string list"
  ms_buckets :: "int list"

definition all_metrics :: "metric list" where
  "all_metrics = [FieldDuration, QueryDuration, QueryCpu, AwsQueryDuration, DataApiQueryDuration, GasDifference,
     CurrentNonce, LastProcessedNonce, GuestQueries]"

definition histogram :: "string \<Rightarrow> string \<Rightarrow> string list \<Rightarrow> int list \<Rightarrow> metric_spec" where
  "histogram name help labels buckets =
     \<lparr>ms_kind = Histogram, ms_name = name, ms_help = help, ms_labels = labels, ms_buckets = buckets\<rparr>"

definition gauge :: "string \<Rightarrow> string \<Rightarrow> string list \<Rightarrow> metric_spec" where
  "gauge name help labels = \<lparr>ms_kind = Gauge, ms_name = name, ms_help = help, ms_labels = labels, ms_buckets = []\<rparr>"

fun spec_of :: "metric \<Rightarrow> metric_spec" where
  "spec_of FieldDuration = histogram ''field_duration'' ''The time it takes to resolve a field'' [''name'', ''path''] []"
| "spec_of QueryDuration = histogram ''query_duration'' ''The time it takes to resolve a query'' [''query'', ''origin''] []"
| "spec_of QueryCpu = histogram ''query_cpu'' ''The CPU time it takes to resolve a query'' [''query'', ''origin''] []"
| "spec_of AwsQueryDuration = histogram ''aws_query'' ''AWS Timestream Queries'' [''query''] []"
| "spec_of DataApiQueryDuration = histogram ''data_api_query'' ''Data API Queries'' [''query''] []"
| "spec_of GasDifference = histogram ''gas_difference'' ''Gas Difference between gas limit and gas used''
     [''endpoint'', ''receiver''] [100000, 1000000, 10000000]"
| "spec_of CurrentNonce = gauge ''current_nonce'' ''Current nonce of the given shard'' [''shardId'']"
| "spec_of LastProcessedNonce = gauge ''last_processed_nonce'' ''Last processed nonce of the given shard'' [''shardId'']"
| "spec_of GuestQueries = gauge ''guest_queries'' ''Guest queries by operation'' [''operation'']"

text \<open>The static fields, and the libraries: \<open>prom-client\<close> and the metrics service of the SDK.\<close>

record 'h collector =
  handles :: "metric \<Rightarrow> 'h option"

record ('s, 'h) prom =
  newMetric :: "metric_spec \<Rightarrow> ('s, 'h) prog"
  observe :: "'h \<Rightarrow> string list \<Rightarrow> bn \<Rightarrow> ('s, unit) prog"
  gaugeSet :: "'h \<Rightarrow> (string \<times> string) list \<Rightarrow> int \<Rightarrow> ('s, unit) prog"
  gaugeInc :: "'h \<Rightarrow> (string \<times> string) list \<Rightarrow> int \<Rightarrow> ('s, unit) prog"
  base_setExternalCall :: "string \<Rightarrow> bn \<Rightarrow> ('s, unit) prog"
  base_setRedisDuration :: "string \<Rightarrow> bn \<Rightarrow> ('s, unit) prog"
  base_incrementGuestHits :: "('s, unit) prog"
  base_incrementGuestNoCacheHits :: "('s, unit) prog"
  base_setGuestHitQueries :: "int \<Rightarrow> ('s, unit) prog"
  base_getMetrics :: "('s, string) prog"
  register_metrics :: "('s, string) prog"
  clock :: "('s, int) prog"
  cpuStart :: "('s, int) prog"
  cpuStop :: "int \<Rightarrow> ('s, bn) prog"

type_synonym ('h, 'x) cst = "('h, 'x) collector_scheme"

definition ensure_metric :: "(('h, 'x) cst, 'h) prom \<Rightarrow> metric \<Rightarrow> (('h, 'x) cst, unit) prog" where
  "ensure_metric P m =
     mbind (mget (\<lambda>s. handles s m)) (\<lambda>known.
       case known of
         Some h \<Rightarrow> mret ()
       | None \<Rightarrow> mbind (newMetric P (spec_of m)) (\<lambda>h. mmodify (\<lambda>s. s\<lparr>handles := (handles s)(m \<mapsto> h)\<rparr>)))"

definition ensureIsInitialized :: "(('h, 'x) cst, 'h) prom \<Rightarrow> (('h, 'x) cst, unit) prog" where
  "ensureIsInitialized P = mfold (\<lambda>_ m. ensure_metric P m) () all_metrics"

definition with_metric :: "(('h, 'x) cst, 'h) prom \<Rightarrow> metric \<Rightarrow> ('h \<Rightarrow> (('h, 'x) cst, unit) prog) \<Rightarrow> (('h, 'x) cst, unit) prog" where
  "with_metric P m use_it =
     mthen (ensureIsInitialized P)
       (mbind (mget (\<lambda>s. handles s m)) (\<lambda>h. case h of Some h \<Rightarrow> use_it h | None \<Rightarrow> mthrow TypeError))"

definition setFieldDuration :: "(('h, 'x) cst, 'h) prom \<Rightarrow> string \<Rightarrow> string \<Rightarrow> bn \<Rightarrow> (('h, 'x) cst, unit) prog" where
  "setFieldDuration P name path duration = with_metric P FieldDuration (\<lambda>h. observe P h [name, path] duration)"

definition setQueryDuration :: "(('h, 'x) cst, 'h) prom \<Rightarrow> string \<Rightarrow> string \<Rightarrow> bn \<Rightarrow> (('h, 'x) cst, unit) prog" where
  "setQueryDuration P q origin duration = with_metric P QueryDuration (\<lambda>h. observe P h [q, origin] duration)"

definition setQueryCpu :: "(('h, 'x) cst, 'h) prom \<Rightarrow> string \<Rightarrow> string \<Rightarrow> bn \<Rightarrow> (('h, 'x) cst, unit) prog" where
  "setQueryCpu P q origin duration = with_metric P QueryCpu (\<lambda>h. observe P h [q, origin] duration)"

definition setRedisDuration :: "(('h, 'x) cst, 'h) prom \<Rightarrow> string \<Rightarrow> bn \<Rightarrow> (('h, 'x) cst, unit) prog" where
  "setRedisDuration P action duration =
     mthen (ensureIsInitialized P)
    (mthen (base_setExternalCall P ''redis'' duration) (base_setRedisDuration P action duration))"

definition setExternalCall :: "(('h, 'x) cst, 'h) prom \<Rightarrow> string \<Rightarrow> string \<Rightarrow> bn \<Rightarrow> (('h, 'x) cst, unit) prog" where
  "setExternalCall P system func duration = mthen (ensureIsInitialized P) (base_setExternalCall P system duration)"

definition setAWSQueryDuration :: "(('h, 'x) cst, 'h) prom \<Rightarrow> string \<Rightarrow> bn \<Rightarrow> (('h, 'x) cst, unit) prog" where
  "setAWSQueryDuration P queryName duration = with_metric P AwsQueryDuration (\<lambda>h. observe P h [queryName] duration)"

definition setDataApiQueryDuration :: "(('h, 'x) cst, 'h) prom \<Rightarrow> string \<Rightarrow> bn \<Rightarrow> (('h, 'x) cst, unit) prog" where
  "setDataApiQueryDuration P queryName duration =
     with_metric P DataApiQueryDuration (\<lambda>h. observe P h [queryName] duration)"

definition setGasDifference :: "(('h, 'x) cst, 'h) prom \<Rightarrow> string \<Rightarrow> string \<Rightarrow> bn \<Rightarrow> (('h, 'x) cst, unit) prog" where
  "setGasDifference P endpoint receiver gasDifference =
     with_metric P GasDifference (\<lambda>h. observe P h [endpoint, receiver] gasDifference)"

definition setCurrentNonce :: "(('h, 'x) cst, 'h) prom \<Rightarrow> int \<Rightarrow> int \<Rightarrow> (('h, 'x) cst, unit) prog" where
  "setCurrentNonce P shardId nonce = with_metric P CurrentNonce (\<lambda>h. gaugeSet P h [(''shardId'', show_int shardId)] nonce)"

definition setLastProcessedNonce :: "(('h, 'x) cst, 'h) prom \<Rightarrow> int \<Rightarrow> int \<Rightarrow> (('h, 'x) cst, unit) prog" where
  "setLastProcessedNonce P shardId nonce =
     with_metric P LastProcessedNonce (\<lambda>h. gaugeSet P h [(''shardId'', show_int shardId)] nonce)"

definition incrementGuestQueries :: "(('h, 'x) cst, 'h) prom \<Rightarrow> string \<Rightarrow> int \<Rightarrow> (('h, 'x) cst, unit) prog" where
  "incrementGuestQueries P operation count = with_metric P GuestQueries (\<lambda>h. gaugeInc P h [(''operation'', operation)] count)"

definition incrementGuestHits :: "(('h, 'x) cst, 'h) prom \<Rightarrow> (('h, 'x) cst, unit) prog" where
  "incrementGuestHits P = mthen (ensureIsInitialized P) (base_incrementGuestHits P)"

definition incrementGuestNoCacheHits :: "(('h, 'x) cst, 'h) prom \<Rightarrow> (('h, 'x) cst, unit) prog" where
  "incrementGuestNoCacheHits P = mthen (ensureIsInitialized P) (base_incrementGuestNoCacheHits P)"

definition setGuestHitQueries :: "(('h, 'x) cst, 'h) prom \<Rightarrow> int \<Rightarrow> (('h, 'x) cst, unit) prog" where
  "setGuestHitQueries P count = mthen (ensureIsInitialized P) (base_setGuestHitQueries P count)"

text \<open>\<open>getMetrics\<close> does not create what is missing; \<open>/metrics\<close> answers with its text.\<close>

definition getMetrics :: "(('h, 'x) cst, 'h) prom \<Rightarrow> (('h, 'x) cst, string) prog" where
  "getMetrics P =
     mbind (base_getMetrics P) (\<lambda>baseMetrics. mbind (register_metrics P) (\<lambda>currentMetrics.
       mret (baseMetrics @ [CHR 0x0A] @ currentMetrics)))"

definition metrics_endpoint :: "(('h, 'x) cst, 'h) prom \<Rightarrow> (('h, 'x) cst, string) prog" where
  "metrics_endpoint P = getMetrics P"


section \<open>PerformanceProfiler\<close>

record profiler =
  pf_started :: int
  pf_description :: string
  pf_stopped :: int
  pf_duration :: int

definition new_profiler :: "('s, 'h) prom \<Rightarrow> string \<Rightarrow> ('s, profiler) prog" where
  "new_profiler P text0 =
     mbind (clock P) (\<lambda>t. mret \<lparr>pf_started = t, pf_description = text0, pf_stopped = 0, pf_duration = 0\<rparr>)"

definition profiler_start :: "('s, 'h) prom \<Rightarrow> string \<Rightarrow> profiler \<Rightarrow> ('s, profiler) prog" where
  "profiler_start P text0 pf = mbind (clock P) (\<lambda>t. mret (pf\<lparr>pf_started := t, pf_description := text0\<rparr>))"

definition profiler_stop :: "('s, 'h) prom \<Rightarrow> profiler \<Rightarrow> ('s, profiler) prog" where
  "profiler_stop P pf = mbind (clock P) (\<lambda>t. mret (pf\<lparr>pf_stopped := t, pf_duration := t - pf_started pf\<rparr>))"


section \<open>The middlewares of fields\<close>

text \<open>The path of a field in the answer: its keys are names and positions in lists.\<close>

datatype path_key = KeyName string | KeyIndex int

fun key_text :: "path_key \<Rightarrow> string" where
  "key_text (KeyName n) = n"
| "key_text (KeyIndex i) = show_int i"

datatype field_path = Path "field_path option" path_key

fun getFieldPath :: "field_path \<Rightarrow> string" where
  "getFieldPath (Path None k) = key_text k"
| "getFieldPath (Path (Some prev) k) =
     (let currentDescription = getFieldPath prev
      in (if currentDescription \<noteq> [] then currentDescription @ ''.'' else currentDescription) @ key_text k)"

record field_info =
  fi_parentType :: string
  fi_fieldName :: string
  fi_path :: field_path

definition loggerMiddleware ::
  "(('h, 'x) cst, 'h) prom \<Rightarrow> field_info \<Rightarrow> (('h, 'x) cst, 'v) prog \<Rightarrow> (('h, 'x) cst, 'v) prog" where
  "loggerMiddleware P info next_fn =
     (let fieldName = fi_parentType info @ ''.'' @ fi_fieldName info;
          fieldPath = getFieldPath (fi_path info)
      in mbind (new_profiler P []) (\<lambda>pf0.
         mbind next_fn (\<lambda>v.
         mbind (profiler_stop P pf0) (\<lambda>pf.
         mthen (setFieldDuration P fieldName fieldPath (bn_int (pf_duration pf)))
               (mret v)))))"

text \<open>
  The request of a field; \<open>None\<close> stands for an \<open>undefined\<close> request, and for a list of warnings that has not
  been set. A reason that is absent or empty is none.
\<close>

record deprecation =
  dp_name :: string
  dp_description :: "string option"
  dp_reason :: string

record field_config =
  fc_name :: string
  fc_description :: "string option"
  fc_deprecationReason :: "string option"

record gql_request =
  deprecationWarning :: "deprecation list option"

definition add_deprecation :: "field_config option \<Rightarrow> gql_request option \<Rightarrow> exn + gql_request option" where
  "add_deprecation fieldConfig request =
     (case fieldConfig of
        None \<Rightarrow> Inl TypeError
      | Some c \<Rightarrow>
         (case fc_deprecationReason c of
            None \<Rightarrow> Inr request
          | Some reason \<Rightarrow>
              if reason = [] then Inr request
              else (case request of
                      None \<Rightarrow> Inl TypeError
                    | Some r \<Rightarrow> Inr (Some (r\<lparr>deprecationWarning := Some
                        ((case deprecationWarning r of None \<Rightarrow> [] | Some ws \<Rightarrow> ws) @
                         [\<lparr>dp_name = fc_name c, dp_description = fc_description c, dp_reason = reason\<rparr>])\<rparr>)))))"

text \<open>The middleware runs on a state that holds the request.\<close>

record gql_context =
  ctx_req :: "gql_request option"

definition deprecationLoggerMiddleware ::
  "field_config option \<Rightarrow> ('x gql_context_scheme, 'v) prog \<Rightarrow> ('x gql_context_scheme, 'v) prog" where
  "deprecationLoggerMiddleware fieldConfig next_fn =
     mbind next_fn (\<lambda>v.
     mbind (mget ctx_req) (\<lambda>request.
     mbind (mlift (add_deprecation fieldConfig request)) (\<lambda>r.
     mthen (mmodify (\<lambda>s. s\<lparr>ctx_req := r\<rparr>)) (mret v))))"


section \<open>LoggingInterceptor\<close>

text \<open>
  The request of a context is absent, or has headers with or without an origin. The value of the handler
  is emitted once; what \<open>tap\<close> throws replaces it.
\<close>

record call_context =
  cc_graphql :: bool
  cc_parentType :: string
  cc_fieldName :: string
  cc_request :: "string option option"

definition request_origin :: "string option option \<Rightarrow> string" where
  "request_origin request = (case request of Some (Some origin) \<Rightarrow> origin | _ \<Rightarrow> ''Unknown'')"

definition intercept ::
  "(('h, 'x) cst, 'h) prom \<Rightarrow> call_context \<Rightarrow> (('h, 'x) cst, 'v) prog \<Rightarrow> (('h, 'x) cst, 'v) prog" where
  "intercept P ctx handle =
     (if cc_graphql ctx then
        (let origin = request_origin (cc_request ctx)
         in mbind (new_profiler P []) (\<lambda>pf0.
            mbind (cpuStart P) (\<lambda>cpu0.
            mbind handle (\<lambda>v.
            mbind (profiler_stop P pf0) (\<lambda>pf.
            mbind (cpuStop P cpu0) (\<lambda>cpuTime.
            mthen (mwhen (cc_parentType ctx = ''Query'')
                     (mthen (setQueryDuration P (cc_fieldName ctx) origin (bn_int (pf_duration pf)))
                            (setQueryCpu P (cc_fieldName ctx) origin cpuTime)))
                  (mret v)))))))
      else handle)"


section \<open>ProxyNetworkProviderProfiler\<close>

text \<open>
  The query of the provider is started and not awaited before the profiler is stopped: what it does until
  it is settled comes after both readings of the clock and after the report.
\<close>

definition profiled_query ::
  "(('h, 'x) cst, 'h) prom \<Rightarrow> string \<Rightarrow> (('h, 'x) cst, 'v) prog \<Rightarrow> (('h, 'x) cst, 'v) prog" where
  "profiled_query P func sent_query =
     mbind (new_profiler P []) (\<lambda>pf0.
     mbind (profiler_stop P pf0) (\<lambda>pf.
     mthen (setExternalCall P ''vm.query'' func (bn_int (pf_duration pf)))
           sent_query))"


section \<open>Shared clients, users and the environment\<close>

text \<open>
  The table of Redis clients, by the hash of their options. \<open>JSON.stringify\<close> leaves the retry function out,
  so host and port decide.
\<close>

record redis_options =
  ro_host :: string
  ro_port :: string
  ro_retryStrategy :: "int \<Rightarrow> int"

record 'c redis_table =
  clientMap :: "string \<Rightarrow> 'c option"

record ('s, 'c) redis_lib =
  rl_md5 :: "string \<Rightarrow> string"
  newRedis :: "redis_options \<Rightarrow> ('s, 'c) prog"

definition options_text :: "redis_options \<Rightarrow> string" where
  "options_text opts = json_stringify (JObj [(''host'', JStr (ro_host opts)), (''port'', JStr (ro_port opts))])"

definition setClient :: "(('c, 'x) redis_table_scheme, 'c) redis_lib \<Rightarrow> redis_options \<Rightarrow> (('c, 'x) redis_table_scheme, 'c) prog" where
  "setClient L opts =
     (let optionsHash = rl_md5 L (options_text opts)
      in mbind (mget (\<lambda>s. clientMap s optionsHash)) (\<lambda>known.
           case known of
             Some c \<Rightarrow> mret c
           | None \<Rightarrow> mbind (newRedis L opts) (\<lambda>c.
               mthen (mmodify (\<lambda>s. s\<lparr>clientMap := (clientMap s)(optionsHash \<mapsto> c)\<rparr>)) (mret c))))"

text \<open>The factory of \<open>redis.pubSub.module.ts\<close>: the publisher and the subscriber of \<open>RedisPubSub\<close>.\<close>

definition pubSub_factory ::
  "settings \<Rightarrow> (('c, 'x) redis_table_scheme, 'c) redis_lib \<Rightarrow> (('c, 'x) redis_table_scheme, 'c \<times> 'c) prog" where
  "pubSub_factory C L =
     mbind (mlift (getRedisUrl C)) (\<lambda>host.
     mbind (mlift (getRedisPort C)) (\<lambda>port.
     let options = \<lparr>ro_host = host, ro_port = port, ro_retryStrategy = (\<lambda>_. 1000)\<rparr> in
     mbind (setClient L options) (\<lambda>publisher. mbind (setClient L options) (\<lambda>subscriber.
       mret (publisher, subscriber)))))"

text \<open>The parameter decorator \<open>AuthUser\<close>: the user of the first argument, else the user of the request.\<close>

definition AuthUser :: "string option \<Rightarrow> 'u option \<Rightarrow> 'u option \<Rightarrow> ('u \<Rightarrow> string \<Rightarrow> 'v option) \<Rightarrow> ('u + 'v) option" where
  "AuthUser key arg_auth req_auth field_of =
     (case (case arg_auth of Some u \<Rightarrow> Some u | None \<Rightarrow> req_auth) of
        None \<Rightarrow> None
      | Some authUser \<Rightarrow>
         (case key of None \<Rightarrow> Some (Inl authUser) | Some k \<Rightarrow> map_option Inr (field_of authUser k)))"

definition nodeEnv :: "settings \<Rightarrow> string" where
  "nodeEnv C =
     (case C ''NODE_ENV'' of
        Some v \<Rightarrow> if v = [] then ''production'' else trim v
      | None \<Rightarrow> ''production'')"

definition envload :: "settings \<Rightarrow> string" where
  "envload C = (if nodeEnv C = ''test'' then ''.env.example'' else ''.env'')"


section \<open>Every timing is recorded\<close>

text \<open>
  The documented behaviour of \<open>prom-client\<close>: a metric registers under its name unless the name is taken,
  and a finite observation whose labels fit is added to the samples of its metric, while one that is not
  finite throws; none touches the fields of the collector. \<open>made_from\<close> is what an object was created with.
\<close>

fun finite_value :: "bn \<Rightarrow> bool" where
  "finite_value (BFin n d) = True"
| "finite_value v = False"

lemma finite_value_eq: "finite_value v \<longleftrightarrow> (\<exists>n d. v = BFin n d)"
  by (cases v) simp_all

definition prom_laws ::
  "(('h, 'x) cst, 'h) prom \<Rightarrow> (('h, 'x) cst \<Rightarrow> string set) \<Rightarrow> (('h, 'x) cst \<Rightarrow> string \<Rightarrow> (string list \<times> bn) list) \<Rightarrow>
   ('h \<Rightarrow> metric_spec) \<Rightarrow> bool" where
  "prom_laws P registered samples made_from \<longleftrightarrow>
     (\<forall>spec s. ms_name spec \<notin> registered s \<longrightarrow> (\<exists>h s'. newMetric P spec s = (Inr h, s') \<and> made_from h = spec \<and>
        registered s' = insert (ms_name spec) (registered s) \<and> handles s' = handles s \<and> samples s' = samples s)) \<and>
     (\<forall>h labels n d s. length labels = length (ms_labels (made_from h)) \<longrightarrow>
        (\<exists>s'. observe P h labels (BFin n d) s = (Inr (), s') \<and> registered s' = registered s \<and> handles s' = handles s \<and>
        samples s' = (samples s)(ms_name (made_from h) := samples s (ms_name (made_from h)) @ [(labels, BFin n d)]))) \<and>
     (\<forall>h labels v s. length labels = length (ms_labels (made_from h)) \<longrightarrow> \<not> finite_value v \<longrightarrow>
        observe P h labels v s = (Inl TypeError, s)) \<and>
     (\<forall>s f. registered (s\<lparr>handles := f\<rparr>) = registered s \<and> samples (s\<lparr>handles := f\<rparr>) = samples s)"

lemma prom_observe:
  assumes "prom_laws P registered samples made_from" "length labels = length (ms_labels (made_from h))"
  shows "\<exists>s'. observe P h labels (BFin n d) s = (Inr (), s') \<and> registered s' = registered s \<and> handles s' = handles s \<and>
    samples s' = (samples s)(ms_name (made_from h) := samples s (ms_name (made_from h)) @ [(labels, BFin n d)])"
proof -
  have "\<forall>h labels n d s. length labels = length (ms_labels (made_from h)) \<longrightarrow>
        (\<exists>s'. observe P h labels (BFin n d) s = (Inr (), s') \<and> registered s' = registered s \<and> handles s' = handles s \<and>
        samples s' = (samples s)(ms_name (made_from h) := samples s (ms_name (made_from h)) @ [(labels, BFin n d)]))"
    using assms(1) unfolding prom_laws_def by (elim conjE)
  from this [THEN spec, THEN spec, THEN spec, THEN spec, THEN spec, THEN mp, OF assms(2)] show ?thesis .
qed

text \<open>A field that is not set has not registered its metric, and one that is set holds its own.\<close>

definition collector_ok :: "(('h, 'x) cst \<Rightarrow> string set) \<Rightarrow> ('h \<Rightarrow> metric_spec) \<Rightarrow> ('h, 'x) cst \<Rightarrow> bool" where
  "collector_ok registered made_from s \<longleftrightarrow>
     (\<forall>m. case handles s m of None \<Rightarrow> ms_name (spec_of m) \<notin> registered s | Some h \<Rightarrow> made_from h = spec_of m)"

lemma metric_names: "ms_name (spec_of m) = ms_name (spec_of m') \<longleftrightarrow> m = m'"
  by (cases m; cases m') (simp_all add: histogram_def gauge_def)

lemma all_metrics_all: "m \<in> set all_metrics"
  by (cases m) (simp_all add: all_metrics_def)

lemma ensure_metric_ok:
  assumes L: "prom_laws P registered samples made_from" and I: "collector_ok registered made_from s"
  shows "\<exists>s'. ensure_metric P m s = (Inr (), s') \<and> collector_ok registered made_from s' \<and> samples s' = samples s \<and>
    handles s' m \<noteq> None \<and> (\<forall>k. handles s k \<noteq> None \<longrightarrow> handles s' k = handles s k)"
proof (cases "handles s m")
  case (Some h)
  with I show ?thesis by (simp add: ensure_metric_def)
next
  case None
  with I have "ms_name (spec_of m) \<notin> registered s" unfolding collector_ok_def by (metis option.case(1))
  with L obtain h s1 where h: "newMetric P (spec_of m) s = (Inr h, s1)" "made_from h = spec_of m"
      "registered s1 = insert (ms_name (spec_of m)) (registered s)" "handles s1 = handles s" "samples s1 = samples s"
    unfolding prom_laws_def by metis
  let ?s = "s1\<lparr>handles := (handles s1)(m \<mapsto> h)\<rparr>"
  have law: "registered ?s = registered s1" "samples ?s = samples s1" using L by (simp_all add: prom_laws_def)
  have "ensure_metric P m s = (Inr (), ?s)" using None h(1) by (simp add: ensure_metric_def)
  moreover have "collector_ok registered made_from ?s"
    unfolding collector_ok_def
  proof
    fix k
    show "case handles ?s k of None \<Rightarrow> ms_name (spec_of k) \<notin> registered ?s | Some x \<Rightarrow> made_from x = spec_of k"
      using I h(2-4) law(1) unfolding collector_ok_def
      by (cases "k = m") (auto simp: metric_names split: option.splits dest: spec [of _ k])
  qed
  ultimately show ?thesis using h(4,5) law(2) None by auto
qed

lemma ensure_all_ok:
  assumes L: "prom_laws P registered samples made_from" and I: "collector_ok registered made_from s"
  shows "\<exists>s'. ensureIsInitialized P s = (Inr (), s') \<and> collector_ok registered made_from s' \<and> samples s' = samples s \<and>
    (\<forall>m. handles s' m \<noteq> None)"
proof -
  have "\<exists>s'. mfold (\<lambda>_ m. ensure_metric P m) () ms s = (Inr (), s') \<and> collector_ok registered made_from s' \<and>
      samples s' = samples s \<and> (\<forall>m\<in>set ms. handles s' m \<noteq> None) \<and> (\<forall>k. handles s k \<noteq> None \<longrightarrow> handles s' k = handles s k)" for ms
    using I
  proof (induction ms arbitrary: s)
    case (Cons m ms)
    obtain s1 where s1: "ensure_metric P m s = (Inr (), s1)" "collector_ok registered made_from s1" "samples s1 = samples s"
        "handles s1 m \<noteq> None" "\<forall>k. handles s k \<noteq> None \<longrightarrow> handles s1 k = handles s k"
      using ensure_metric_ok [OF L Cons.prems] by blast
    from Cons.IH [OF s1(2)] s1 show ?case by (auto simp del: not_None_eq)
  qed simp
  from this [of all_metrics] show ?thesis using all_metrics_all by (auto simp: ensureIsInitialized_def)
qed

text \<open>A timing that some part of the program reports, with the metric and the sample it is for.\<close>

datatype timing = FieldTiming string string bn | QueryTiming string string bn | CpuTiming string string bn
  | AwsTiming string bn | DataApiTiming string bn | GasTiming string string bn

fun report :: "(('h, 'x) cst, 'h) prom \<Rightarrow> timing \<Rightarrow> (('h, 'x) cst, unit) prog" where
  "report P (FieldTiming f path d) = setFieldDuration P f path d"
| "report P (QueryTiming q origin d) = setQueryDuration P q origin d"
| "report P (CpuTiming q origin d) = setQueryCpu P q origin d"
| "report P (AwsTiming q d) = setAWSQueryDuration P q d"
| "report P (DataApiTiming q d) = setDataApiQueryDuration P q d"
| "report P (GasTiming e r d) = setGasDifference P e r d"

fun timed :: "timing \<Rightarrow> metric \<times> string list \<times> bn" where
  "timed (FieldTiming f path d) = (FieldDuration, [f, path], d)"
| "timed (QueryTiming q origin d) = (QueryDuration, [q, origin], d)"
| "timed (CpuTiming q origin d) = (QueryCpu, [q, origin], d)"
| "timed (AwsTiming q d) = (AwsQueryDuration, [q], d)"
| "timed (DataApiTiming q d) = (DataApiQueryDuration, [q], d)"
| "timed (GasTiming e r d) = (GasDifference, [e, r], d)"

lemma with_metric_ok:
  assumes L: "prom_laws P registered samples made_from" and I: "collector_ok registered made_from s"
    and labels: "length labels = length (ms_labels (spec_of m))" and v: "finite_value v"
  shows "\<exists>s'. with_metric P m (\<lambda>h. observe P h labels v) s = (Inr (), s') \<and> collector_ok registered made_from s' \<and>
    samples s' = (samples s)(ms_name (spec_of m) := samples s (ms_name (spec_of m)) @ [(labels, v)])"
proof -
  obtain s1 where s1: "ensureIsInitialized P s = (Inr (), s1)" "collector_ok registered made_from s1" "samples s1 = samples s"
      "handles s1 m \<noteq> None"
    using ensure_all_ok [OF L I] by blast
  then obtain h where h: "handles s1 m = Some h" "made_from h = spec_of m"
    using s1(2) by (auto simp: collector_ok_def split: option.splits dest: spec [of _ m])
  from v obtain n d where v_eq: "v = BFin n d" by (auto simp: finite_value_eq)
  have fits: "length labels = length (ms_labels (made_from h))" using labels h(2) by simp
  from prom_observe [OF L this, of n d s1]
  obtain s2 where s2: "observe P h labels v s1 = (Inr (), s2)" "registered s2 = registered s1" "handles s2 = handles s1"
      "samples s2 = (samples s1)(ms_name (spec_of m) := samples s1 (ms_name (spec_of m)) @ [(labels, v)])"
    unfolding v_eq h(2) by blast
  have "collector_ok registered made_from s2" using s1(2) unfolding collector_ok_def s2(2,3) .
  with s1 h s2 show ?thesis by (simp add: with_metric_def mthen_apply)
qed

lemma report_eq:
  "report P c = with_metric P (fst (timed c)) (\<lambda>h. observe P h (fst (snd (timed c))) (snd (snd (timed c))))"
  by (cases c) (simp_all add: setFieldDuration_def setQueryDuration_def setQueryCpu_def setAWSQueryDuration_def
      setDataApiQueryDuration_def setGasDifference_def)

lemma timed_labels: "length (fst (snd (timed c))) = length (ms_labels (spec_of (fst (timed c))))"
  by (cases c) (simp_all add: histogram_def)

lemma report_ok:
  assumes L: "prom_laws P registered samples made_from" and I: "collector_ok registered made_from s"
    and v: "finite_value (snd (snd (timed c)))"
  shows "\<exists>s'. report P c s = (Inr (), s') \<and> collector_ok registered made_from s' \<and>
    samples s' = (samples s)(ms_name (spec_of (fst (timed c))) := samples s (ms_name (spec_of (fst (timed c)))) @ [snd (timed c)])"
  using with_metric_ok [OF L I timed_labels [of c] v] by (simp add: report_eq)

text \<open>A value that is not finite is refused: the report throws, and no sample is recorded.\<close>

lemma report_refused:
  assumes L: "prom_laws P registered samples made_from" and I: "collector_ok registered made_from s"
    and v: "\<not> finite_value (snd (snd (timed c)))"
  shows "\<exists>s'. report P c s = (Inl TypeError, s') \<and> collector_ok registered made_from s' \<and> samples s' = samples s"
proof -
  obtain s1 where s1: "ensureIsInitialized P s = (Inr (), s1)" "collector_ok registered made_from s1" "samples s1 = samples s"
      "handles s1 (fst (timed c)) \<noteq> None"
    using ensure_all_ok [OF L I] by blast
  then obtain h where h: "handles s1 (fst (timed c)) = Some h" "made_from h = spec_of (fst (timed c))"
    by (auto simp: collector_ok_def split: option.splits dest: spec [of _ "fst (timed c)"])
  have "observe P h (fst (snd (timed c))) (snd (snd (timed c))) s1 = (Inl TypeError, s1)"
    using L v timed_labels [of c] h(2) by (simp add: prom_laws_def)
  with s1 h(1) show ?thesis by (simp add: report_eq with_metric_def mthen_apply)
qed

text \<open>
  C39: no timing is lost. From a process in which no metric of the collector is registered, or
  whose fields hold the registered ones, reports of finite durations in any order succeed: each metric is
  registered once, by the first report, and its samples are those of the reports for it, with their labels, in
  order. After such reports one of a value that is not finite throws and changes no sample.
\<close>

theorem timings_recorded:
  assumes L: "prom_laws P registered samples made_from" and "collector_ok registered made_from s"
    and "\<forall>c\<in>set cs. finite_value (snd (snd (timed c)))"
  shows "\<exists>us s'. mmap (report P) cs s = (Inr us, s') \<and> collector_ok registered made_from s' \<and>
    (\<forall>m. samples s' (ms_name (spec_of m)) =
       samples s (ms_name (spec_of m)) @ map snd (filter (\<lambda>x. fst x = m) (map timed cs))) \<and>
    (\<forall>c. \<not> finite_value (snd (snd (timed c))) \<longrightarrow>
       (\<exists>s''. report P c s' = (Inl TypeError, s'') \<and> samples s'' = samples s'))"
  using assms(2,3)
proof (induction cs arbitrary: s)
  case Nil
  then show ?case using report_refused [OF L Nil(1)] by auto
next
  case (Cons c cs)
  have v: "finite_value (snd (snd (timed c)))" using Cons.prems(2) by simp
  obtain s1 where s1: "report P c s = (Inr (), s1)" "collector_ok registered made_from s1"
    "samples s1 = (samples s)(ms_name (spec_of (fst (timed c))) := samples s (ms_name (spec_of (fst (timed c)))) @ [snd (timed c)])"
    using report_ok [OF L Cons.prems(1) v] by blast
  have "\<forall>c\<in>set cs. finite_value (snd (snd (timed c)))" using Cons.prems(2) by simp
  from Cons.IH [OF s1(2) this] obtain us s' where "mmap (report P) cs s1 = (Inr us, s')" "collector_ok registered made_from s'"
    "\<forall>m. samples s' (ms_name (spec_of m)) =
       samples s1 (ms_name (spec_of m)) @ map snd (filter (\<lambda>x. fst x = m) (map timed cs))"
    "\<forall>c. \<not> finite_value (snd (snd (timed c))) \<longrightarrow>
       (\<exists>s''. report P c s' = (Inl TypeError, s'') \<and> samples s'' = samples s')"
    by blast
  with s1 show ?case by (auto simp: metric_names)
qed

text \<open>
  The middleware of a field gives the value of the field, or its exception, and records the difference of the
  clocks under the field's name and path.
\<close>

fun path_keys :: "field_path \<Rightarrow> string list" where
  "path_keys (Path None k) = [key_text k]"
| "path_keys (Path (Some prev) k) = path_keys prev @ [key_text k]"

lemma path_keys_nonempty [simp]: "path_keys p \<noteq> []"
  by (induction p rule: path_keys.induct) simp_all

lemma join_snoc: "ks \<noteq> [] \<Longrightarrow> join sep (ks @ [k]) = join sep ks @ sep @ k"
  by (induction ks rule: induct_list012) simp_all

lemma join_empty: "ks \<noteq> [] \<Longrightarrow> \<forall>k\<in>set ks. k \<noteq> [] \<Longrightarrow> join sep ks \<noteq> []"
  by (cases ks rule: remdups_adj.cases) simp_all

lemma getFieldPath_join: "\<forall>k\<in>set (path_keys p). k \<noteq> [] \<Longrightarrow> getFieldPath p = join ''.'' (path_keys p)"
  by (induction p rule: path_keys.induct) (simp_all add: Let_def join_snoc join_empty)

lemma field_timed:
  assumes L: "prom_laws P registered samples made_from"
    and "clock P s = (Inr t0, s0)" "next_fn s0 = (Inr v, s1)" "clock P s1 = (Inr t1, s2)"
    and "collector_ok registered made_from s2"
  shows "\<exists>s'. loggerMiddleware P info next_fn s = (Inr v, s') \<and>
    samples s' = (samples s2)(''field_duration'' := samples s2 ''field_duration'' @
      [([fi_parentType info @ ''.'' @ fi_fieldName info, getFieldPath (fi_path info)], bn_int (t1 - t0))])"
proof -
  obtain s' where "setFieldDuration P (fi_parentType info @ ''.'' @ fi_fieldName info) (getFieldPath (fi_path info))
      (bn_int (t1 - t0)) s2 = (Inr (), s')"
    "samples s' = (samples s2)(''field_duration'' := samples s2 ''field_duration'' @
      [([fi_parentType info @ ''.'' @ fi_fieldName info, getFieldPath (fi_path info)], bn_int (t1 - t0))])"
    using report_ok [OF L assms(5), where c = "FieldTiming (fi_parentType info @ ''.'' @ fi_fieldName info) (getFieldPath (fi_path info)) (bn_int (t1 - t0))"]
    by (auto simp: histogram_def)
  with assms(2-4) show ?thesis
    by (simp add: loggerMiddleware_def Let_def new_profiler_def profiler_stop_def mthen_apply mbind_def)
qed

lemma field_throws:
  "clock P s = (Inr t0, s0) \<Longrightarrow> next_fn s0 = (Inl e, s1) \<Longrightarrow> loggerMiddleware P info next_fn s = (Inl e, s1)"
  by (simp add: loggerMiddleware_def Let_def new_profiler_def mbind_def)

text \<open>The time reported for a query of the proxy is over before the query runs: it does not depend on it.\<close>

lemma query_time_unmeasured:
  assumes "clock P s = (Inr t0, s0)" "clock P s0 = (Inr t1, s1)"
    and "setExternalCall P ''vm.query'' func (bn_int (t1 - t0)) s1 = (Inr (), s2)"
  shows "profiled_query P func sent_query s = sent_query s2"
  using assms by (simp add: profiled_query_def new_profiler_def profiler_stop_def mthen_apply mbind_def)


section \<open>The clients of Redis\<close>

interpretation redis_clients: memo_table clientMap
    "\<lambda>k c s. s\<lparr>clientMap := (clientMap s)(k \<mapsto> c)\<rparr>" "newRedis L" "\<lambda>opts. rl_md5 L (options_text opts)" "setClient L"
    "\<lambda>k c. True"
  for L :: "(('c, 'x) redis_table_scheme, 'c) redis_lib"
  by unfold_locales (auto simp: setClient_def Let_def mbind_def mthen_def split: option.splits prod.splits sum.splits)

text \<open>
  The publisher and the subscriber of the publish-subscribe service are one connection, because their options
  are the same. A connection of Redis that has subscribed to a channel accepts no other commands.
\<close>

lemma pubSub_shares_client:
  assumes "pubSub_factory C L s = (Inr (publisher, subscriber), s')"
  shows "publisher = subscriber"
proof -
  obtain opts s1 s2 where "setClient L opts s1 = (Inr publisher, s2)" "setClient L opts s2 = (Inr subscriber, s')"
    using assms by (auto simp: pubSub_factory_def Let_def mbind_Inr_iff)
  with redis_clients.get_twice show ?thesis by (metis Pair_inject sum.inject(2))
qed


section \<open>A witness\<close>

text \<open>A library that keeps its samples in a map.\<close>

record memory_collector = "metric_spec collector" +
  mc_registered :: "string set"
  mc_samples :: "string \<Rightarrow> (string list \<times> bn) list"

definition memory_prom :: "(memory_collector, metric_spec) prom" where
  "memory_prom =
     \<lparr>newMetric = (\<lambda>spec s. if ms_name spec \<in> mc_registered s then (Inl (PlainError ''already registered''), s)
        else (Inr spec, s\<lparr>mc_registered := insert (ms_name spec) (mc_registered s)\<rparr>)),
      observe = (\<lambda>h labels v s. if length labels \<noteq> length (ms_labels h) then (Inl (PlainError ''Invalid number of arguments''), s)
        else if \<not> finite_value v then (Inl TypeError, s)
        else (Inr (), s\<lparr>mc_samples := (mc_samples s)(ms_name h := mc_samples s (ms_name h) @ [(labels, v)])\<rparr>)),
      gaugeSet = (\<lambda>h ls n. mret ()), gaugeInc = (\<lambda>h ls n. mret ()), base_setExternalCall = (\<lambda>f d. mret ()),
      base_setRedisDuration = (\<lambda>f d. mret ()), base_incrementGuestHits = mret (), base_incrementGuestNoCacheHits = mret (),
      base_setGuestHitQueries = (\<lambda>n. mret ()), base_getMetrics = mret [], register_metrics = mret [], clock = mret 0,
      cpuStart = mret 0, cpuStop = (\<lambda>n. mret (bn_int 0))\<rparr>"

definition fresh_collector :: memory_collector where
  "fresh_collector = \<lparr>handles = Map.empty, mc_registered = {}, mc_samples = (\<lambda>n. [])\<rparr>"

lemma memory_prom_laws: "prom_laws memory_prom mc_registered mc_samples (\<lambda>h. h)"
  by (simp add: prom_laws_def memory_prom_def)

theorem timings_recorded_witness:
  "\<exists>us s'. mmap (report memory_prom) [QueryTiming ''polls'' ''Unknown'' (bn_int 5), GasTiming ''vote'' ''erdA'' (bn_int 7),
       QueryTiming ''ideas'' ''Unknown'' (bn_int 6)] fresh_collector = (Inr us, s') \<and>
     mc_samples s' ''query_duration'' = [([''polls'', ''Unknown''], bn_int 5), ([''ideas'', ''Unknown''], bn_int 6)]"
proof -
  have ok: "collector_ok mc_registered (\<lambda>h. h) fresh_collector" by (simp add: collector_ok_def fresh_collector_def)
  have q: "ms_name (spec_of QueryDuration) = ''query_duration''" by (simp add: histogram_def)
  have fin: "\<forall>c\<in>set [QueryTiming ''polls'' ''Unknown'' (bn_int 5),
      GasTiming ''vote'' ''erdA'' (bn_int 7), QueryTiming ''ideas'' ''Unknown'' (bn_int 6)].
      finite_value (snd (snd (timed c)))" by simp
  from timings_recorded [OF memory_prom_laws ok fin]
  obtain us s' where r: "mmap (report memory_prom) [QueryTiming ''polls'' ''Unknown'' (bn_int 5), GasTiming ''vote'' ''erdA'' (bn_int 7),
       QueryTiming ''ideas'' ''Unknown'' (bn_int 6)] fresh_collector = (Inr us, s')"
    "\<forall>m. mc_samples s' (ms_name (spec_of m)) = mc_samples fresh_collector (ms_name (spec_of m)) @
       map snd (filter (\<lambda>x. fst x = m) (map timed [QueryTiming ''polls'' ''Unknown'' (bn_int 5),
         GasTiming ''vote'' ''erdA'' (bn_int 7), QueryTiming ''ideas'' ''Unknown'' (bn_int 6)]))"
    by (elim exE conjE)
  from r(2) [THEN spec [of _ QueryDuration]]
  have "mc_samples s' ''query_duration'' = [([''polls'', ''Unknown''], bn_int 5), ([''ideas'', ''Unknown''], bn_int 6)]"
    unfolding q by (simp add: fresh_collector_def)
  with r(1) show ?thesis by (intro exI conjI)
qed

end
