(* ===== verification/Gov_Wiring.thy ===== *)
theory Gov_Wiring
  imports Gov_Observe Gov_Chain
begin

text \<open>
  What the modules hand to the libraries when the applications start: the clients of the network with their
  agents (\<open>mx.api.service.ts\<close>, \<open>mx.proxy.service.ts\<close>), the options of Redis, MongoDB and RabbitMQ
  (\<open>dynamic.module.utils.ts\<close>, \<open>database.module.ts\<close>, \<open>rabbitmq.module.ts\<close>, \<open>rabbitmq.consumers.ts\<close>), the
  transports of the log (\<open>common.app.module.ts\<close>), and the errors and routes of the GraphQL application
  (\<open>public.app.module.ts\<close>). The settings that come from the configuration files are a record.
\<close>

section \<open>The clients of the network\<close>

record mx_settings =
  mx_keepAlive :: bool
  mx_keepAliveMaxSockets :: int
  mx_keepAliveMaxFreeSockets :: int
  mx_keepAliveFreeSocketTimeout :: int
  mx_proxyTimeout :: int
  mx_localCacheMaxItems :: int

record agent_options =
  ag_maxSockets :: int
  ag_maxFreeSockets :: int
  ag_timeout :: bn
  ag_freeSocketTimeout :: int
  ag_keepAlive :: bool

record provider_options =
  po_url :: string
  po_timeout :: int
  po_httpAgent :: "agent_options option"
  po_httpsAgent :: "agent_options option"
  po_origin :: string

definition keepAliveOptions :: "settings \<Rightarrow> mx_settings \<Rightarrow> exn + agent_options" where
  "keepAliveOptions C M =
     rbind (getKeepAliveTimeoutDownstream C) (\<lambda>timeout. Inr
       \<lparr>ag_maxSockets = mx_keepAliveMaxSockets M, ag_maxFreeSockets = mx_keepAliveMaxFreeSockets M,
        ag_timeout = timeout, ag_freeSocketTimeout = mx_keepAliveFreeSocketTimeout M, ag_keepAlive = True\<rparr>)"

definition provider_with :: "settings \<Rightarrow> mx_settings \<Rightarrow> string \<Rightarrow> exn + provider_options" where
  "provider_with C M origin =
     rbind (keepAliveOptions C M) (\<lambda>agent.
     rbind (getApiUrl C) (\<lambda>url.
       let used = (if mx_keepAlive M then Some agent else None)
       in Inr \<lparr>po_url = url, po_timeout = mx_proxyTimeout M, po_httpAgent = used, po_httpsAgent = used, po_origin = origin\<rparr>))"

definition new_MXApiService :: "settings \<Rightarrow> mx_settings \<Rightarrow> exn + provider_options" where
  "new_MXApiService C M = provider_with C M ''GovernanceService''"

text \<open>The service for contracts starts with an empty table of contract objects.\<close>

definition new_MXProxyService :: "settings \<Rightarrow> mx_settings \<Rightarrow> ('x st, provider_options) prog" where
  "new_MXProxyService C M =
     mbind (mlift (provider_with C M ''MaiarExchangeService'')) (\<lambda>proxy.
     mthen (mmodify (\<lambda>s. s\<lparr>smartContracts := Map.empty\<rparr>)) (mret proxy))"


section \<open>Stores and queues\<close>

record redis_cache_options =
  rc_host :: string
  rc_port :: string
  rc_password :: "string option"

definition getCacheModule :: "settings \<Rightarrow> mx_settings \<Rightarrow> exn + redis_cache_options \<times> int" where
  "getCacheModule C M =
     rbind (getRedisUrl C) (\<lambda>host.
     rbind (getRedisPort C) (\<lambda>port.
       Inr (\<lparr>rc_host = host, rc_port = port, rc_password = getRedisPassword C\<rparr>, mx_localCacheMaxItems M)))"

record api_module_options =
  am_axiosTimeout :: int
  am_serverTimeout :: int
  am_useKeepAliveAgent :: bool

definition getApiModule :: api_module_options where
  "getApiModule = \<lparr>am_axiosTimeout = 30000, am_serverTimeout = 30000, am_useKeepAliveAgent = True\<rparr>"

record mongo_options =
  mo_uri :: string
  mo_dbName :: string
  mo_user :: string
  mo_pass :: string
  mo_tlsAllowInvalidCertificates :: bool

definition mongo_factory :: "settings \<Rightarrow> exn + mongo_options" where
  "mongo_factory C =
     rbind (getMongoDBURL C) (\<lambda>url.
     rbind (getMongoDBDatabase C) (\<lambda>db.
     rbind (getMongoDBUsername C) (\<lambda>user.
     rbind (getMongoDBPassword C) (\<lambda>pass.
       Inr \<lparr>mo_uri = url, mo_dbName = db, mo_user = user, mo_pass = pass, mo_tlsAllowInvalidCertificates = True\<rparr>))))"

text \<open>Settings of RabbitMQ are read from the environment as they are, present or not.\<close>

record rabbit_exchange =
  rx_name :: "string option"
  rx_type :: string
  rx_uri :: "string option"
  rx_prefetchCount :: int

definition rabbit_factory :: "settings \<Rightarrow> rabbit_exchange" where
  "rabbit_factory C =
     \<lparr>rx_name = C ''RABBITMQ_EXCHANGE'', rx_type = ''fanout'', rx_uri = C ''RABBITMQ_URL'', rx_prefetchCount = 1\<rparr>"

record rabbit_subscription =
  rs_queue :: "string option"
  rs_exchange :: "string option"
  rs_routingKey :: string
  rs_autoDelete :: bool
  rs_durable :: bool
  rs_queueType :: string
  rs_queueMode :: string
  rs_singleActiveConsumer :: bool

definition CompetingRabbitConsumer :: "string option \<Rightarrow> string option \<Rightarrow> rabbit_subscription" where
  "CompetingRabbitConsumer queueName exchange =
     \<lparr>rs_queue = queueName, rs_exchange = exchange, rs_routingKey = [], rs_autoDelete = False, rs_durable = True,
      rs_queueType = ''classic'', rs_queueMode = ''lazy'', rs_singleActiveConsumer = True\<rparr>"

definition consumer_queue :: "settings \<Rightarrow> rabbit_subscription" where
  "consumer_queue C = CompetingRabbitConsumer (C ''RABBITMQ_QUEUE'') (C ''RABBITMQ_EXCHANGE'')"


section \<open>Log and GraphQL\<close>

definition loglevel :: "settings \<Rightarrow> string" where
  "loglevel C = (case C ''LOG_LEVEL'' of Some l \<Rightarrow> if l = [] then ''error'' else l | None \<Rightarrow> ''error'')"

datatype log_transport =
    ConsoleTransport string
  | FileTransport string string int string

definition logTransports :: "settings \<Rightarrow> log_transport list" where
  "logTransports C =
     ConsoleTransport (loglevel C) #
     (case C ''LOG_FILE'' of
        Some f \<Rightarrow> if f = [] then [] else [FileTransport f ''logs'' 100000 (loglevel C)]
      | None \<Rightarrow> [])"

definition graphql_path :: "settings \<Rightarrow> exn + string" where
  "graphql_path C = rbind (getPrefix C) (\<lambda>p. Inr (p @ ''/graphql''))"

text \<open>The answers for guests are looked up for requests of this method to this path.\<close>

definition guest_route :: "settings \<Rightarrow> exn + string \<times> string" where
  "guest_route C = rbind (getPrefix C) (\<lambda>p. Inr (p @ ''/graphql'', ''POST''))"

record formatted_error =
  fe_message :: jsval
  fe_path :: jsval
  fe_extensions :: jsval

definition error_status :: "formatted_error \<Rightarrow> jsval" where
  "error_status formattedError =
     (if fe_extensions formattedError \<in> {JUndef, JNull} then JUndef else js_field ''code'' (fe_extensions formattedError))"

text \<open>An error as clients see it. The state is the list of messages that were logged.\<close>

definition formatError :: "formatted_error \<Rightarrow> jsval \<Rightarrow> (jsval list, formatted_error) prog" where
  "formatError formattedError error =
     (let errorStatus = error_status formattedError
      in mthen (mwhen (errorStatus = JStr ''FORBIDDEN'')
                  (mbind (mlift (js_get ''message'' error)) (\<lambda>m. mmodify (\<lambda>messages. messages @ [m]))))
               (mret \<lparr>fe_message = fe_message formattedError, fe_path = fe_path formattedError,
                      fe_extensions = JObj [(''code'', errorStatus)]\<rparr>))"


section \<open>What the modules need and give\<close>

definition present :: "settings \<Rightarrow> string \<Rightarrow> bool" where
  "present C name \<longleftrightarrow> C name \<noteq> None \<and> C name \<noteq> Some []"

lemma required_iff: "required C name complaint = Inr v \<longleftrightarrow> C name = Some v \<and> v \<noteq> []"
  by (auto simp: required_def split: option.splits)

lemma rbind_returns: "(\<exists>b. rbind r f = Inr b) \<longleftrightarrow> (\<exists>a. r = Inr a \<and> (\<exists>b. f a = Inr b))"
  by (auto simp: rbind_Inr_iff)

lemma present_iff: "present C name \<longleftrightarrow> (\<exists>v. C name = Some v \<and> v \<noteq> [])"
  by (auto simp: present_def)

text \<open>The modules of every application can be made exactly when these settings are present.\<close>

lemma modules_configured:
  "((\<exists>a. new_MXApiService C M = Inr a) \<and> (\<exists>c. getCacheModule C M = Inr c) \<and> (\<exists>m. mongo_factory C = Inr m) \<and>
    (\<exists>g. graphql_path C = Inr g)) \<longleftrightarrow>
   (\<forall>name\<in>{''KEEPALIVE_TIMEOUT_DOWNSTREAM'', ''MX_API_URL'', ''REDIS_URL'', ''REDIS_PORT'', ''MONGODB_URL'',
      ''MONGODB_DATABASE'', ''MONGODB_USERNAME'', ''MONGODB_PASSWORD'', ''PREFIX''}. present C name)"
  unfolding new_MXApiService_def provider_with_def keepAliveOptions_def getCacheModule_def mongo_factory_def graphql_path_def
    getKeepAliveTimeoutDownstream_def required_number_def getApiUrl_def getRedisUrl_def getRedisPort_def getMongoDBURL_def
    getMongoDBDatabase_def getMongoDBUsername_def getMongoDBPassword_def getPrefix_def Let_def
  by (simp add: rbind_returns required_iff present_iff del: split_paired_Ex) blast

lemma new_proxy_valid: "new_MXProxyService C M s = (Inr p, s') \<Longrightarrow> sctab.valid s'"
  unfolding sctab.valid_def by (auto simp: new_MXProxyService_def mbind_Inr_iff mthen_apply)

text \<open>Clients see the code of an error and no other extension, so no stack trace; refusals alone are logged.\<close>

lemma formatError_result:
  assumes "formatError fe error messages = (Inr r, messages')"
  shows "r = \<lparr>fe_message = fe_message fe, fe_path = fe_path fe, fe_extensions = JObj [(''code'', error_status fe)]\<rparr> \<and>
    (if error_status fe = JStr ''FORBIDDEN'' then \<exists>m. js_get ''message'' error = Inr m \<and> messages' = messages @ [m]
     else messages' = messages)"
  using assms
  by (cases "error_status fe = JStr ''FORBIDDEN''"; cases "js_get ''message'' error")
     (auto simp only: formatError_def Let_def mbind_def mthen_apply mwhen_def mlift_def mmodify_def mret_def prod.case sum.case
        if_True if_False Pair_inject sum.inject sum.distinct simp_thms refl)

end
