(* ===== verification/Gov_Script.thy ===== *)
theory Gov_Script
  imports Gov_Merkle
begin

text \<open>
  The script \<open>utils/merkle-tree/gen-merkle-tree.ts\<close>: it reads the holders of a snapshot, builds their tree
  and prints the proofs of the first holders, each with the answer of the check. What it prints is a list
  of lines, the values of each block of \<open>console.log\<close>.
\<close>

definition max_proofs_to_generate :: nat where
  "max_proofs_to_generate = 3"

text \<open>
  A holder's fields are copied as they are; only an object has fields to copy, and only an array is mapped.
  The directory is the one two levels above the script.
\<close>

type_synonym raw_holder = "jsval \<times> jsval"

definition raw_holder_of_json :: "jsval \<Rightarrow> exn + raw_holder" where
  "raw_holder_of_json holder =
     rbind (js_get ''address'' holder) (\<lambda>a. rbind (js_get ''balance'' holder) (\<lambda>b. Inr (a, b)))"

definition raw_holders_of_json :: "jsval \<Rightarrow> exn + raw_holder list" where
  "raw_holders_of_json snapshotData = (case snapshotData of JArr hs \<Rightarrow> rmap raw_holder_of_json hs | _ \<Rightarrow> Inl TypeError)"

definition loadUtkSnapshotData :: "'s env \<Rightarrow> string \<Rightarrow> ('s, raw_holder list) prog" where
  "loadUtkSnapshotData E root =
     mtry (mbind (readFile E (root @ ''/snapshots/utk_snapshot.json'')) (\<lambda>data.
             mlift (rbind (JSON_parse E data) raw_holders_of_json)))
          (\<lambda>err. mret [])"

datatype script_line =
    NoData
  | TreeBuilt nat string int string
  | TestCount nat
  | ProofTested address_voting_power "string list" nat string bool

definition print_line :: "script_line \<Rightarrow> (script_line list, unit) prog" where
  "print_line l = mmodify (\<lambda>out. out @ [l])"

definition leaf_of_raw :: "raw_holder \<Rightarrow> exn + address_voting_power" where
  "leaf_of_raw h =
     rbind (js_string (fst h)) (\<lambda>a. rbind (js_string (snd h)) (\<lambda>b. Inr \<lparr>av_address = a, av_balance = b\<rparr>))"

text \<open>One turn of the loop: the proof, its concatenation as bytes, and whether the library accepts it.\<close>

definition test_leaf :: "'s env \<Rightarrow> merkle_tree \<Rightarrow> address_voting_power \<Rightarrow> exn + script_line" where
  "test_leaf E merkleTree votingPower =
     rbind (getProof E merkleTree (Some votingPower)) (\<lambda>proof.
     rbind (getProofBuffer E merkleTree (Some votingPower)) (\<lambda>proofBuffer.
     rbind (verifyProof E merkleTree votingPower) (\<lambda>isValid.
       Inr (ProofTested votingPower proof (length proofBuffer) (to_hex proofBuffer) isValid))))"

definition testGetProof :: "'s env \<Rightarrow> raw_holder list \<Rightarrow> (script_line list, unit) prog" where
  "testGetProof E sampleVotingPowerData =
     (if sampleVotingPowerData = [] then print_line NoData
      else
        mbind (mlift (rmap leaf_of_raw sampleVotingPowerData)) (\<lambda>leaves.
        mbind (mlift (new_MerkleTreeUtils E leaves)) (\<lambda>merkleTree.
        mthen (print_line (TreeBuilt (length leaves) (getRootHash E merkleTree) (getDepth E merkleTree) (getTotalBalance merkleTree)))
       (let testCount = min max_proofs_to_generate (length leaves)
        in mthen (print_line (TestCount testCount))
                 (mfold (\<lambda>_ votingPower. mbind (mlift (test_leaf E merkleTree votingPower)) print_line) ()
                    (take testCount leaves))))))"

text \<open>The script tests the first holders in order, and finds every proof valid when the library does.\<close>

lemma print_lines:
  "mfold (\<lambda>_ x. mbind (mlift (f x)) print_line) () xs out = (Inr (), out') \<Longrightarrow>
   \<exists>ls. rmap f xs = Inr ls \<and> out' = out @ ls"
proof (induction xs arbitrary: out)
  case (Cons x xs)
  have "\<exists>l. f x = Inr l \<and> mfold (\<lambda>_ x. mbind (mlift (f x)) print_line) () xs (out @ [l]) = (Inr (), out')"
    using Cons.prems unfolding mfold.simps mbind_Inr_iff by (auto simp: print_line_def mlift_def)
  then show ?case using Cons.IH by fastforce
qed simp

fun line_leaf :: "script_line \<Rightarrow> address_voting_power option" where
  "line_leaf (ProofTested x _ _ _ _) = Some x"
| "line_leaf _ = None"

fun line_valid :: "script_line \<Rightarrow> bool" where
  "line_valid (ProofTested _ _ _ _ v) = v"
| "line_valid _ = True"

lemma tested_lines:
  assumes "rmap (test_leaf E t) xs = Inr ls"
  shows "map line_leaf ls = map Some xs" and "(\<And>h. verifyProofLib E (mt_hashes t) h) \<Longrightarrow> list_all line_valid ls"
  using assms
  by (induction xs arbitrary: ls) (auto simp: rbind_Inr_iff test_leaf_def verifyProof_def)

lemma script_tests:
  assumes "testGetProof E hs [] = (Inr (), out)" "hs \<noteq> []"
  shows "\<exists>leaves t ls. rmap leaf_of_raw hs = Inr leaves \<and> tree_ok E t \<and> mt_leaves t = leaves \<and>
    out = TreeBuilt (length hs) (getRootHash E t) (getDepth E t) (getTotalBalance t) # TestCount (min 3 (length hs)) # ls \<and>
    map line_leaf ls = map Some (take 3 leaves)"
proof -
  obtain leaves t where l: "rmap leaf_of_raw hs = Inr leaves" "new_MerkleTreeUtils E leaves = Inr t"
    using assms by (auto simp: testGetProof_def mbind_Inr_iff)
  have n: "length leaves = length hs" using rmap_length l(1) by blast
  have "mfold (\<lambda>_ x. mbind (mlift (test_leaf E t x)) print_line) () (take (min 3 (length hs)) leaves)
      [TreeBuilt (length hs) (getRootHash E t) (getDepth E t) (getTotalBalance t), TestCount (min 3 (length hs))] = (Inr (), out)"
    using assms l n by (simp add: testGetProof_def mthen_apply mbind_def print_line_def [of "TreeBuilt _ _ _ _"]
        print_line_def [of "TestCount _"] max_proofs_to_generate_def Let_def)
  then obtain ls where ls: "rmap (test_leaf E t) (take (min 3 (length hs)) leaves) = Inr ls"
    "out = [TreeBuilt (length hs) (getRootHash E t) (getDepth E t) (getTotalBalance t), TestCount (min 3 (length hs))] @ ls"
    using print_lines [of "test_leaf E t"] by blast
  have "take (min 3 (length hs)) leaves = take 3 leaves" using n by (simp add: min_def)
  then show ?thesis
    using l ls tested_lines(1) [OF ls(1)]
    by (intro exI [of _ leaves] exI [of _ t] exI [of _ ls]) (auto simp: new_MerkleTreeUtils_def tree_ok_def rbind_Inr_iff)
qed

end
