(* ===== verification/Spec2Isabelle.thy ===== *)
theory Spec2Isabelle
  imports Gov_Events Gov_Races Gov_Auth Gov_Executor Gov_Guest Gov_Warmers Gov_Config Gov_Gateway Gov_RemoteConfig Gov_Metrics Gov_Recovery Gov_Wiring Gov_Script
begin

text \<open>
  A model of the governance service of MultiversX (a NestJS server in TypeScript) and the properties
  that make it correct. File names below are relative to \<open>src/src\<close>.

  \<^bold>\<open>The program.\<close> The service answers GraphQL requests about governance contracts: their proposals,
  votes, polls and ideas, and the transactions that a user signs to vote or to propose. It reads the
  contracts through the network's proxy and API, keeps what it reads in a cache (Redis and a local copy),
  and has three ways in which the cache gets its values: a getter fills it on a miss, a consumer of the
  events of each block updates it, and periodic jobs refresh it. Voting power comes from snapshots of
  balances (JSON files whose Merkle root the contract knows), from the user's energy, or from staking
  providers. Proposals are described by files in a Git repository and by pull requests on GitHub.

  \<^bold>\<open>How effects are modelled.\<close> A program of type \<open>('s, 'a) prog\<close> maps a state to a value or an exception
  (\<open>exn\<close>) and the next state (\<open>Gov_Prelude\<close>). Code outside the repository (Redis, the SDK of the chain,
  Axios, simple-git, Elasticsearch, the Merkle library, mongoose, the clock) is a field of the record
  \<open>env\<close> of \<open>Gov_Environment\<close>, or of a smaller record in the theories that need only a few of them; the
  properties say by a named hypothesis what they rely on (\<open>caching\<close> for the cache service, for example).
  The process's own state is the record \<open>service_state\<close> and its extensions. \<open>Promise.all\<close> runs its
  promises in the order of the list and rejects with the first rejection of that order; a promise that
  is started and awaited later runs when it is started. Where code interleaves at an \<open>await\<close> and this
  matters, the component is a step relation instead: \<open>Gov_Auth\<close>, \<open>Gov_Executor\<close>, \<open>Gov_Races\<close>,
  \<open>Gov_Coherence\<close>, \<open>Gov_Recovery\<close> and \<open>Gov_Guest\<close>. Integers that the code keeps in JavaScript numbers are
  \<open>int\<close>, numbers that may be fractional, infinite or \<open>NaN\<close> are \<open>bn\<close>, and a field of a foreign object is read
  at its declared type, with a \<open>TypeError\<close> otherwise. \<open>caching\<close> describes one process whose cache has one
  level: what \<open>visible\<close> gives for a key is what a getter answers. The two levels of the cache, the copies of
  several processes and the messages between them are written out in \<open>Gov_Fleet\<close> and the theories over it.

  \<^bold>\<open>Theories, in the order of their imports.\<close>

  \<^item> \<open>Gov_Prelude\<close>: programs, loops over programs, invariants that programs keep.
    \<open>Gov_Strings\<close>: the operations of JavaScript strings and arrays that the code uses, numerals,
    hexadecimal and base 64, with their round trips. \<open>Gov_BigNum\<close>: \<open>BigNumber\<close> as decimal fractions, and
    \<open>utils/token.converters.ts\<close>.
  \<^item> \<open>Gov_Models\<close>: the classes under \<open>modules/*/models\<close> as records, enumerations as datatypes, JSON values and
    decoded contract values. \<open>Gov_Environment\<close>: the parameters.
  \<^item> \<open>Gov_Cache\<close>, \<open>Gov_Setters\<close>: keys and times to live, the caching decorator, the generic getter and setter,
    the setters of the services. The locale \<open>cached_entry\<close> states what a getter and a setter of one key
    share, and is interpreted for every such pair where the getter is defined: what was written is read.
  \<^item> \<open>Gov_Registry\<close>: \<open>utils/governance.ts\<close> and the factories that choose a service for a contract.
  \<^item> \<open>Gov_Votes\<close>: counts and percentages of a proposal, for both kinds of contracts, against an abstract tally.
  \<^item> \<open>Gov_Merkle\<close>, \<open>Gov_Chain\<close>: Merkle trees of snapshots and contract objects, each kept in a static table.
    The locale \<open>memo_table\<close> states the contract of such a table and is interpreted for the three tables.
  \<^item> \<open>Gov_Context\<close>, \<open>Gov_Energy\<close>, \<open>Gov_Compute\<close>, \<open>Gov_Github\<close>, \<open>Gov_Delegate\<close>: requests to the API with their
    repetition, epochs and blocks, energy, past votes found in events and transactions, the Git repository
    and pull requests, staking providers.
  \<^item> \<open>Gov_OnChain\<close>, \<open>Gov_SnapshotAbi\<close>, \<open>Gov_Service\<close>, \<open>Gov_Pulse\<close>, \<open>Gov_Resolvers\<close>: the services of the
    kinds of contracts (\<open>governance.onchain.abi.service.ts\<close>, \<open>governance.abi.service.ts\<close>,
    \<open>governance.old.energy.abi.service.ts\<close>, \<open>governance.service.ts\<close>, the two pulse services) and the resolvers
    over them.
  \<^item> \<open>Gov_Events\<close>: \<open>modules/rabbitmq\<close>, the consumer of a block's events and its handlers. \<open>Gov_Races\<close>: the
    counts of one proposal while readers, the consumer, the chain and the expiry of the entry interleave.
    \<open>Gov_Fleet\<close>: several processes with copies of the shared cache, what makes copies stale, and which
    programs do not. \<open>Gov_Coherence\<close>: the handlers and the jobs publish what they write, and the processes
    interleave, with answers that come late. \<open>Gov_Recovery\<close>: what a vote that fails leaves behind, and how
    the next one makes it good.
  \<^item> \<open>Gov_Warmers\<close>, \<open>Gov_Guest\<close>: the periodic jobs of \<open>services/crons\<close> and the answers for guests of
    \<open>utils/guestCaching.middleware.ts\<close>.
  \<^item> \<open>Gov_Auth\<close>, \<open>Gov_Executor\<close>: the guards of \<open>modules/auth\<close> and the shared promises of
    \<open>utils/pending.executor.ts\<close>, as transition systems.
  \<^item> \<open>Gov_Config\<close>, \<open>Gov_Gateway\<close>, \<open>Gov_RemoteConfig\<close>, \<open>Gov_Metrics\<close>: settings and bootstrap, the gateway and
    the entry points of the GitHub service, flags set by administrators, counts from Elasticsearch.
  \<^item> \<open>Gov_Observe\<close>: log messages, timings of requests and queries and their metrics
    (\<open>utils/metrics.collector.ts\<close>, \<open>utils/performance.profiler.ts\<close>, the middlewares), the clients of Redis
    (\<open>utils/redisClient.ts\<close>) and the settings of the environment (\<open>config/env_load.ts\<close>).
    \<open>Gov_Wiring\<close>: what the modules hand to the libraries at the start. \<open>Gov_Script\<close>: the script
    \<open>utils/merkle-tree/gen-merkle-tree.ts\<close>, which tests the proofs of a snapshot.

  \<^bold>\<open>What is proved.\<close>

  \<^item> \<^emph>\<open>Events and the cache.\<close> Handling a block of vote events refines casting the votes in order on an
    abstract ballot; an energy event replaces one entry and removes exactly the voting powers computed from
    the old one; the last vote of a user in a poll is what the getter gives. After the job that warms the
    ideas, readers are served from the cache. After an administrator's change of the maintenance flag the
    process that answered reads the new value; one that has a copy of the old value keeps it, since the flag
    is not announced, and after an addition the answer does not wait for the cache: faults of the code. Every handler
    and the jobs for statuses, polls and ideas, for the chain's own contract, the repository and the epoch
    announce each key that they write, so a process that has handled its messages has no stale copy, unless an
    answer it or another process waited for came late; in whatever order the messages are taken, the shared
    cache stays as it is; and the keys of a vote that fails are announced by the next vote. A vote on the
    chain stores the powers of the contract's own address for the voter, another fault.
  \<^item> \<^emph>\<open>Voting power.\<close> Balances come from leaves under the requested root, in every state of the static table;
    a vote through a snapshot states such a balance with its proof; on the chain the power is the exact sum
    over the providers; the transactions of a vote are those of the open delegates with power, and the
    direct one. Ideas, votes for ideas and votes in polls are sent with the sender's balance and its proof.
  \<^item> \<^emph>\<open>Numbers.\<close> Percentages are nearest and sum to 100 up to 0.02; smoothing is nearest and monotone; energy
    decays linearly; the extrapolations to a future epoch agree.
  \<^item> \<^emph>\<open>Proposals, polls and ideas.\<close> Proposals are numbered from 1 without gaps; their status never moves back;
    files written for GitHub are read back; nothing is listed twice; pages partition the list; the indices
    of polls have no gap or clash at one moment, but they move when an earlier contract gets a poll.
  \<^item> \<^emph>\<open>Concurrency.\<close> In every interleaving only an administrator acts under another address, and the promises
    of one key do not overlap; the shared field of the guard lets one request act under the address
    another one asked for, which is a fault of the code. While the entry of a proposal stays in the cache no
    vote is lost or counted twice; when it expires both can happen, another fault. The hits of guests are
    counted by whole batches; when requests overlap, a batch may be reported as fewer hits, never as more.
  \<^item> \<^emph>\<open>Termination.\<close> A request is repeated at most twice; a scroll returns once the server ends its pages.

  \<^bold>\<open>Loops and bounds.\<close> Every recursion is structural or has a measure. \<open>doGetGeneric\<close> decreases the number of
  attempts that are left. The loops over proposals, polls and ideas stop at the thresholds of the code (200,
  100 and 300). The scroll of Elasticsearch has no bound and is a partial function: not returning is \<open>None\<close>.
  No fuel is used.

  \<^bold>\<open>Not modelled.\<close> Nest modules and dependency injection (but the options they compute),
  GraphQL decorators and schemas, the object that loads the configuration files, the memory behind the local
  cache, the JSON of ABIs and snapshots, a few private methods without callers, mocks and tests: they declare,
  wire or hold data, and the computation of the service does not depend on them beyond the parameters. Metrics
  and log messages are modelled as values that are recorded; the text format of Prometheus belongs to its
  client library. Interleaving is modelled for the guard, the shared promises, the counts of a proposal, the
  counters of guests and the copies of the processes; in the other components requests run one after another. Expiry of entries is
  modelled in \<open>Gov_Races\<close>; \<open>caching\<close> and the theories of the fleet speak of entries
  that have not expired (copies of the fleet may). The fleet leaves out the job for the nonces of the shards,
  which publishes no key, the flags of administrators, and jobs with loops that throw. White space is that of
  ASCII. A percentage read as a double (\<open>Number(x.toFixed())\<close>) is kept as its decimal, and an empty answer for
  a count, which is \<open>NaN\<close> in the code, is a \<open>TypeError\<close>.
\<close>

end
